(* ===== verification/Prelude.thy ===== *)
theory Prelude
  imports Main "HOL-Library.Multiset"
begin

text \<open>
  The prelude of the development: the Python exceptions that the program raises or catches,
  the result type of a fallible function (\<open>exn + 'a\<close>, with \<open>Inl\<close> for a raised exception),
  the collections of rewrite rules that the component theories extend, the retry loop that two
  components share, and the generic facts about lists and pages that are used more than once.
\<close>

section \<open>Exceptions and results\<close>

text \<open>
  One constructor per exception class that the code under \<^verbatim>\<open>app/\<close> raises, catches or lets
  through. The string is what \<^verbatim>\<open>str(exc)\<close> returns. \<open>ZoneInfoNotFoundError\<close> is a subclass of
  \<open>KeyError\<close>; pydantic's \<open>ValidationError\<close> and \<^verbatim>\<open>json.JSONDecodeError\<close> are subclasses of
  \<open>ValueError\<close>.
\<close>

datatype exn =
    ValueError string
  | ValidationError string
  | JSONDecodeError string
  | UnicodeDecodeError string
  | KeyError string
  | ZoneInfoNotFoundError string
  | TypeError string
  | AttributeError string
  | IndexError string
  | AssertionError string
  | OverflowError string
  | OSError string
  | RuntimeError string
  | TriggerParseError string
  | PromptLoadError string
  | HTTPException int string
  | HTTPStatusError int string
  | RequestError string
  | PyJWTError string
  | DatabaseError string
  | DatabaseConnectionError string
  | OtherException string

fun exn_str :: "exn \<Rightarrow> string" where
  "exn_str (ValueError s) = s"
| "exn_str (ValidationError s) = s"
| "exn_str (JSONDecodeError s) = s"
| "exn_str (UnicodeDecodeError s) = s"
| "exn_str (KeyError s) = s"
| "exn_str (ZoneInfoNotFoundError s) = s"
| "exn_str (TypeError s) = s"
| "exn_str (AttributeError s) = s"
| "exn_str (IndexError s) = s"
| "exn_str (AssertionError s) = s"
| "exn_str (OverflowError s) = s"
| "exn_str (OSError s) = s"
| "exn_str (RuntimeError s) = s"
| "exn_str (TriggerParseError s) = s"
| "exn_str (PromptLoadError s) = s"
| "exn_str (HTTPException n s) = s"
| "exn_str (HTTPStatusError n s) = s"
| "exn_str (RequestError s) = s"
| "exn_str (PyJWTError s) = s"
| "exn_str (DatabaseError s) = s"
| "exn_str (DatabaseConnectionError s) = s"
| "exn_str (OtherException s) = s"

text \<open>\<^verbatim>\<open>except ValueError\<close> catches the class and its subclasses.\<close>

fun is_ValueError :: "exn \<Rightarrow> bool" where
  "is_ValueError (ValueError _) = True"
| "is_ValueError (ValidationError _) = True"
| "is_ValueError (JSONDecodeError _) = True"
| "is_ValueError (UnicodeDecodeError _) = True"
| "is_ValueError _ = False"

fun is_TriggerParseError :: "exn \<Rightarrow> bool" where
  "is_TriggerParseError (TriggerParseError _) = True"
| "is_TriggerParseError _ = False"

type_synonym 'a result = "exn + 'a"

text \<open>Sequencing: the rest of a function body runs when the step before it did not raise.\<close>

definition rbind :: "'e + 'a \<Rightarrow> ('a \<Rightarrow> 'e + 'b) \<Rightarrow> 'e + 'b" where
  "rbind r f = (case r of Inl e \<Rightarrow> Inl e | Inr x \<Rightarrow> f x)"

text \<open>\<^verbatim>\<open>try: r / except E as exc: raise g(exc)\<close>\<close>

definition reraise_as :: "('e \<Rightarrow> bool) \<Rightarrow> ('e \<Rightarrow> 'e) \<Rightarrow> 'e + 'a \<Rightarrow> 'e + 'a" where
  "reraise_as caught g r =
     (case r of Inl e \<Rightarrow> Inl (if caught e then g e else e) | Inr x \<Rightarrow> Inr x)"

named_theorems result_simps \<open>rewriting of results, sequencing and re-raising\<close>

lemma rbind_Inl [simp, result_simps]: "rbind (Inl e) f = Inl e"
  by (simp add: rbind_def)

lemma rbind_Inr [simp, result_simps]: "rbind (Inr x) f = f x"
  by (simp add: rbind_def)

lemma rbind_eq_Inr: "rbind r f = Inr y \<longleftrightarrow> (\<exists>x. r = Inr x \<and> f x = Inr y)"
  by (cases r) simp_all

lemma rbind_eq_Inl: "rbind r f = Inl e \<longleftrightarrow> r = Inl e \<or> (\<exists>x. r = Inr x \<and> f x = Inl e)"
  by (cases r) auto

lemma rbind_split:
  "P (rbind r f) \<longleftrightarrow> (\<forall>e. r = Inl e \<longrightarrow> P (Inl e)) \<and> (\<forall>x. r = Inr x \<longrightarrow> P (f x))"
  by (cases r) simp_all

lemma reraise_as_Inr [simp, result_simps]: "reraise_as c g (Inr x) = Inr x"
  by (simp add: reraise_as_def)

lemma reraise_as_Inl [simp, result_simps]:
  "reraise_as c g (Inl e) = Inl (if c e then g e else e)"
  by (simp add: reraise_as_def)

lemma reraise_as_eq_Inr: "reraise_as c g r = Inr x \<longleftrightarrow> r = Inr x"
  by (cases r) simp_all

lemma reraise_as_eq_Inl:
  "reraise_as c g r = Inl e \<longleftrightarrow> (\<exists>e'. r = Inl e' \<and> e = (if c e' then g e' else e'))"
  by (cases r) auto

section \<open>Runs of steps that may fail\<close>

text \<open>A run stops at the first step that fails, and then has no final state.\<close>

fun run_steps :: "('w \<Rightarrow> 's \<Rightarrow> 'e + 's) \<Rightarrow> 'w list \<Rightarrow> 's \<Rightarrow> 'e + 's" where
  "run_steps f [] s = Inr s"
| "run_steps f (w # ws) s = rbind (f w s) (run_steps f ws)"

lemma run_steps_append: "run_steps f (us @ ws) s = rbind (run_steps f us s) (run_steps f ws)"
  by (induction us arbitrary: s) (auto simp: rbind_def split: sum.split)

text \<open>
  What holds between the states before and after every allowed step holds between the ends of a
  run of allowed steps, when it is reflexive and transitive.
\<close>

locale step_relation =
  fixes f :: "'w \<Rightarrow> 's \<Rightarrow> 'e + 's" and allowed :: "'w \<Rightarrow> bool" and R :: "'s \<Rightarrow> 's \<Rightarrow> bool"
  assumes R_refl: "R s s"
    and R_trans: "R s t \<Longrightarrow> R t u \<Longrightarrow> R s u"
    and R_step: "allowed w \<Longrightarrow> f w s = Inr t \<Longrightarrow> R s t"
begin

lemma run_R: "list_all allowed ws \<Longrightarrow> run_steps f ws s = Inr t \<Longrightarrow> R s t"
proof (induction ws arbitrary: s)
  case Nil
  then show ?case using R_refl by simp
next
  case (Cons w ws)
  then obtain s1 where s1: "f w s = Inr s1" "run_steps f ws s1 = Inr t"
    by (auto simp: rbind_eq_Inr)
  have "allowed w" using Cons.prems by simp
  then have "R s s1" using s1(1) by (rule R_step)
  moreover have "R s1 t" using Cons.prems Cons.IH s1(2) by simp
  ultimately show ?case by (rule R_trans)
qed

end

section \<open>Unwinding\<close>

text \<open>
  What one party observes of a run of events: the outputs of its own events. When its own events
  do the same on states that are alike for it, and the events of the others leave a state that is
  alike, the events of the others can be left out of every run.
\<close>

fun observed :: "('e \<Rightarrow> 's \<Rightarrow> 's) \<Rightarrow> ('e \<Rightarrow> 's \<Rightarrow> 'o) \<Rightarrow> ('e \<Rightarrow> bool) \<Rightarrow> 'e list \<Rightarrow> 's \<Rightarrow> 'o list" where
  "observed step out own [] s = []"
| "observed step out own (e # es) s =
     (if own e then out e s # observed step out own es (step e s) else observed step out own es (step e s))"

lemma observed_append:
  "observed step out own (es @ es') s = observed step out own es s @ observed step out own es' (fold step es s)"
  by (induction es arbitrary: s) simp_all

locale unwinding =
  fixes step :: "'e \<Rightarrow> 's \<Rightarrow> 's" and out :: "'e \<Rightarrow> 's \<Rightarrow> 'o"
    and own :: "'e \<Rightarrow> bool" and allowed :: "'e \<Rightarrow> bool" and like :: "'s \<Rightarrow> 's \<Rightarrow> bool"
  assumes like_sym: "like s t \<Longrightarrow> like t s"
    and like_trans: "like s t \<Longrightarrow> like t u \<Longrightarrow> like s u"
    and own_output: "allowed e \<Longrightarrow> own e \<Longrightarrow> like s t \<Longrightarrow> out e s = out e t"
    and own_step: "allowed e \<Longrightarrow> own e \<Longrightarrow> like s t \<Longrightarrow> like (step e s) (step e t)"
    and others_step: "allowed e \<Longrightarrow> \<not> own e \<Longrightarrow> like s s \<Longrightarrow> like s (step e s)"
begin

lemma others_like:
  assumes "allowed e" "\<not> own e" "like s t"
  shows "like (step e s) t"
proof -
  have "like s s" using assms(3) like_sym like_trans by blast
  then have "like s (step e s)" using others_step assms(1,2) by blast
  then show ?thesis using assms(3) like_sym like_trans by blast
qed

lemma like_observed:
  "list_all allowed es \<Longrightarrow> like s t \<Longrightarrow> observed step out own es s = observed step out own (filter own es) t"
proof (induction es arbitrary: s t)
  case (Cons e es)
  show ?case
  proof (cases "own e")
    case True
    then show ?thesis using Cons own_output own_step by simp
  next
    case False
    have "like (step e s) t" using others_like Cons.prems False by simp
    then show ?thesis using Cons False by simp
  qed
qed simp

text \<open>The state after a run is alike for the party too.\<close>

lemma like_run: "list_all allowed es \<Longrightarrow> like s t \<Longrightarrow> like (fold step es s) (fold step (filter own es) t)"
proof (induction es arbitrary: s t)
  case (Cons e es)
  show ?case
  proof (cases "own e")
    case True
    then show ?thesis using Cons own_step by simp
  next
    case False
    have "like (step e s) t" using others_like Cons.prems False by simp
    then show ?thesis using Cons False by simp
  qed
qed simp

lemma others_removed:
  "list_all allowed es \<Longrightarrow> like s s \<Longrightarrow> observed step out own es s = observed step out own (filter own es) s"
  by (rule like_observed)

end

section \<open>Retrying\<close>

text \<open>
  The control flow of a function under \<^verbatim>\<open>@retry(stop=stop_after_attempt(n), retry=p,
  before_sleep=b, ...)\<close>. \<open>retry_loop n p b f s\<close> runs the attempt \<open>f\<close> on the state \<open>s\<close>: it
  returns what the attempt returns; an exception that \<open>p\<close> does not accept leaves at once; an
  accepted one leaves when \<open>n\<close> attempts were made, and before every further attempt \<open>b\<close>
  changes the state. \<open>stop_after_attempt(0)\<close> and \<open>stop_after_attempt(1)\<close> both stop after the
  first attempt.
\<close>

fun retry_loop ::
  "nat \<Rightarrow> ('e \<Rightarrow> bool) \<Rightarrow> ('e \<Rightarrow> 's \<Rightarrow> 's) \<Rightarrow> ('s \<Rightarrow> ('e + 'a) \<times> 's) \<Rightarrow> 's \<Rightarrow> ('e + 'a) \<times> 's"
where
  "retry_loop 0 p b f s = f s"
| "retry_loop (Suc n) p b f s =
     (case f s of
        (Inr x, s') \<Rightarrow> (Inr x, s')
      | (Inl e, s') \<Rightarrow>
          if p e \<and> 0 < n then retry_loop n p b f (b e s') else (Inl e, s'))"

lemma retry_loop_Inr_source:
  "retry_loop n p b f s = (Inr x, s') \<Longrightarrow> \<exists>t. f t = (Inr x, s')"
  by (induction n p b f s rule: retry_loop.induct)
    (auto split: prod.splits sum.splits if_splits)

lemma retry_loop_Inl_source:
  "retry_loop n p b f s = (Inl e, s') \<Longrightarrow> \<exists>t. f t = (Inl e, s')"
  by (induction n p b f s rule: retry_loop.induct)
    (auto split: prod.splits sum.splits if_splits)

lemma retry_loop_first_Inr: "f s = (Inr x, s') \<Longrightarrow> retry_loop n p b f s = (Inr x, s')"
  by (cases n) simp_all

lemma retry_loop_not_retried:
  "f s = (Inl e, s') \<Longrightarrow> \<not> p e \<Longrightarrow> retry_loop n p b f s = (Inl e, s')"
  by (cases n) simp_all

text \<open>
  The state carries a counter \<open>c\<close> that every attempt raises by one and that \<open>b\<close> leaves alone:
  at most \<open>max 1 n\<close> attempts are made, and exactly that many when the loop gives up on an
  exception that it would retry.
\<close>

lemma retry_loop_attempts_bound:
  assumes "\<And>t. c (snd (f t)) \<le> c t + (k :: nat)" and "\<And>e t. c (b e t) = c t"
  shows "c (snd (retry_loop n p b f s)) \<le> c s + max 1 n * k"
  using assms
proof (induction n p b f s rule: retry_loop.induct)
  case (1 p b f s)
  then show ?case by (simp add: add.commute)
next
  case (2 n p b f s)
  show ?case
  proof (cases "f s")
    case (Pair r s')
    have step: "c s' \<le> c s + k" using "2.prems"(1)[of s] Pair by simp
    show ?thesis
    proof (cases "\<exists>e. r = Inl e \<and> p e \<and> 0 < n")
      case True
      then obtain e where e: "r = Inl e" "p e" "0 < n" by blast
      have "c (snd (retry_loop n p b f (b e s'))) \<le> c (b e s') + max 1 n * k"
        using "2.IH"[of r s' e] Pair e "2.prems" by simp
      also have "\<dots> \<le> c s + k + n * k" using step e "2.prems"(2) by (simp add: max_def)
      finally show ?thesis using Pair e by (simp add: algebra_simps)
    next
      case False
      then have "snd (retry_loop (Suc n) p b f s) = s'"
        using Pair by (auto split: sum.splits)
      then show ?thesis using step by simp
    qed
  qed
qed

lemma retry_loop_exhausted:
  assumes "\<And>t. \<exists>e s'. f t = (Inl e, s') \<and> p e \<and> c s' = c t + (k :: nat)" and "\<And>e t. c (b e t) = c t"
  shows "\<exists>e s'. retry_loop n p b f s = (Inl e, s') \<and> p e \<and> c s' = c s + max 1 n * k"
proof (induction n arbitrary: s)
  case 0
  then show ?case using assms(1) [of s] by simp
next
  case (Suc n)
  obtain e s1 where f: "f s = (Inl e, s1)" "p e" "c s1 = c s + k" using assms(1) by blast
  show ?case
  proof (cases n)
    case 0
    then show ?thesis using f by simp
  next
    case (Suc m)
    then show ?thesis
      using Suc.IH [of "b e s1"] f assms(2) [of e s1] by (auto simp: add.assoc)
  qed
qed

section \<open>Lists and pages\<close>

lemma filter_filter_conj: "filter P (filter Q xs) = filter (\<lambda>x. Q x \<and> P x) xs"
  by (induction xs) auto

text \<open>\<^verbatim>\<open>LIMIT l OFFSET o\<close>\<close>

definition page :: "nat \<Rightarrow> nat \<Rightarrow> 'a list \<Rightarrow> 'a list" where
  "page l off xs = take l (drop off xs)"

lemma length_page: "length (page l off xs) = min l (length xs - off)"
  by (simp add: page_def)

lemma set_page_subset: "set (page l off xs) \<subseteq> set xs"
  unfolding page_def by (meson in_set_dropD in_set_takeD subsetI)

lemma page_append: "page l off xs @ page m (off + l) xs = page (l + m) off xs"
  by (simp add: page_def take_add add.commute)

lemma concat_pages:
  "concat (map (\<lambda>i. page l (i * l) xs) [0..<n]) = take (n * l) xs"
proof (induction n)
  case 0
  then show ?case by simp
next
  case (Suc n)
  have "take (n * l) xs @ page l (n * l) xs = take (n * l + l) xs"
    by (simp add: page_def take_add)
  then show ?case using Suc by (simp add: add.commute)
qed

text \<open>
  The contract of a paged query: the rows that match, in an order by some key, cut into pages. The
  order of rows with equal keys is not determined by the contract.
\<close>

locale paged_query =
  fixes order :: "'r list \<Rightarrow> 'r list" and key :: "'r \<Rightarrow> 'k :: linorder"
  assumes order_mset: "mset (order xs) = mset xs"
    and order_sorted: "sorted (map key (order xs))"
begin

lemma order_length: "length (order xs) = length xs"
  using order_mset by (metis size_mset)

lemma page_rows: "set (page l off (order xs)) \<subseteq> set xs"
  using set_page_subset [of l off "order xs"] order_mset [of xs] by (metis set_mset_mset)

lemma page_size: "length (page l off (order xs)) = min l (length xs - off)"
  by (simp add: length_page order_length)

lemma page_sorted: "sorted (map key (page l off (order xs)))"
  unfolding page_def take_map [symmetric] drop_map [symmetric]
  by (intro sorted_wrt_take sorted_wrt_drop order_sorted)

lemma pages_cover:
  assumes "length xs \<le> n * l"
  shows "mset (concat (map (\<lambda>i. page l (i * l) (order xs)) [0..<n])) = mset xs"
  using assms by (simp add: concat_pages order_length order_mset)

text \<open>With distinct keys every order by the key is this one.\<close>

lemma order_unique:
  assumes "mset ys = mset xs" "sorted (map key ys)" "inj_on key (set xs)" "distinct xs"
  shows "ys = order xs"
proof (rule map_sorted_distinct_set_unique)
  have "set ys = set xs" "set (order xs) = set xs"
    using assms(1) order_mset by (metis set_mset_mset)+
  then show "inj_on key (set ys \<union> set (order xs))" "set ys = set (order xs)" using assms(3) by simp_all
  have "distinct ys" "distinct (order xs)"
    using assms(1,4) order_mset by (metis mset_eq_imp_distinct_iff)+
  then show "distinct (map key ys)" "distinct (map key (order xs))"
    using \<open>set ys = set xs\<close> \<open>set (order xs) = set xs\<close> assms(3) by (simp_all add: distinct_map)
qed (use assms order_sorted in simp_all)

end

section \<open>Stored representations\<close>

text \<open>
  Several components keep a value in another form and read it back later: a time as ISO text, an
  identifier as text, a schedule as a dictionary or as columns. The contract of such a pair is
  that reading what was written gives the value up to \<open>norm\<close>, and that \<open>norm\<close> settles after one
  round.
\<close>

locale codec =
  fixes enc :: "'a \<Rightarrow> 'b" and dec :: "'b \<Rightarrow> 'a result"
    and ok :: "'a \<Rightarrow> bool" and norm :: "'a \<Rightarrow> 'a"
  assumes dec_enc: "ok x \<Longrightarrow> dec (enc x) = Inr (norm x)"
    and ok_norm: "ok x \<Longrightarrow> ok (norm x)"
    and norm_norm: "ok x \<Longrightarrow> norm (norm x) = norm x"
begin

lemma stable: "ok x \<Longrightarrow> dec (enc (norm x)) = Inr (norm x)"
  using dec_enc [OF ok_norm] norm_norm by simp

lemma enc_determines: "ok x \<Longrightarrow> ok y \<Longrightarrow> enc x = enc y \<Longrightarrow> norm x = norm y"
  using dec_enc by (metis sum.inject(2))

lemma dec_enc_iff: "ok x \<Longrightarrow> dec (enc x) = Inr y \<longleftrightarrow> y = norm x"
  using dec_enc by auto

end

end
