(* ===== verification/Py_Datetime.thy ===== *)
theory Py_Datetime
  imports Prelude
begin

text \<open>
  The part of Python's \<^verbatim>\<open>datetime\<close> and \<^verbatim>\<open>zoneinfo\<close> that the program uses. A \<open>datetime\<close> is
  its wall clock reading, in microseconds since 0001-01-01T00:00:00 on that wall clock, with its
  \<^verbatim>\<open>tzinfo\<close> and its \<^verbatim>\<open>fold\<close>; a \<open>timedelta\<close> is a number of microseconds. Values that
  Python cannot represent raise \<open>OverflowError\<close> here as there. The contents of the time zone
  database are a parameter: \<^verbatim>\<open>ZoneInfo(key)\<close> is a function from keys to zone objects, which
  may raise, and a zone object carries its two conversions.
\<close>

section \<open>Time zones and datetimes\<close>

text \<open>
  \<open>z_utcoffset w f\<close> is the offset in seconds that the zone gives to the wall clock reading \<open>w\<close>
  with fold \<open>f\<close>; \<open>z_fromutc u\<close> is the wall clock reading and the fold of the UTC instant \<open>u\<close>.
\<close>

record zone =
  z_key :: string
  z_utcoffset :: "int \<Rightarrow> bool \<Rightarrow> int"
  z_fromutc :: "int \<Rightarrow> int \<times> bool"

datatype tzinfo = TzUTC | TzFixed int | TzZone zone

record datetime =
  dt_wall :: int
  dt_tz :: "tzinfo option"
  dt_fold :: bool

text \<open>\<^verbatim>\<open>ZoneInfo\<close>: a key gives a zone object or raises.\<close>

type_synonym zoneinfo = "string \<Rightarrow> zone result"

definition us_per_second :: int where "us_per_second = 1000000"
definition us_per_minute :: int where "us_per_minute = 60000000"
definition us_per_hour :: int where "us_per_hour = 3600000000"
definition us_per_day :: int where "us_per_day = 86400000000"

text \<open>9999-12-31 has the ordinal 3652059, so there are that many days.\<close>

definition max_wall :: int where "max_wall = 3652059 * us_per_day"

lemmas time_units =
  us_per_second_def us_per_minute_def us_per_hour_def us_per_day_def max_wall_def

definition wall_ok :: "int \<Rightarrow> bool" where
  "wall_ok w \<longleftrightarrow> 0 \<le> w \<and> w < max_wall"

text \<open>
  The documented behaviour of a \<^verbatim>\<open>ZoneInfo\<close> object that the code relies on: converting an
  instant to the wall clock and back gives the instant, and an offset is less than a day.
\<close>

definition zone_ok :: "zone \<Rightarrow> bool" where
  "zone_ok z \<longleftrightarrow>
     (\<forall>u. fst (z_fromutc z u)
            - z_utcoffset z (fst (z_fromutc z u)) (snd (z_fromutc z u)) * us_per_second = u)
     \<and> (\<forall>w f. \<bar>z_utcoffset z w f\<bar> < 86400)"

definition utc_zone :: zone where
  "utc_zone = \<lparr>z_key = ''UTC'', z_utcoffset = (\<lambda>_ _. 0), z_fromutc = (\<lambda>u. (u, False))\<rparr>"

lemma zone_ok_utc [simp]: "zone_ok utc_zone"
  by (simp add: zone_ok_def utc_zone_def)

section \<open>Operations\<close>

text \<open>\<^verbatim>\<open>datetime.utcoffset()\<close> in seconds; \<open>None\<close> for a naive datetime.\<close>

definition utcoffset :: "datetime \<Rightarrow> int option" where
  "utcoffset d =
     (case dt_tz d of
        None \<Rightarrow> None
      | Some TzUTC \<Rightarrow> Some 0
      | Some (TzFixed n) \<Rightarrow> Some n
      | Some (TzZone z) \<Rightarrow> Some (z_utcoffset z (dt_wall d) (dt_fold d)))"

definition is_aware :: "datetime \<Rightarrow> bool" where
  "is_aware d \<longleftrightarrow> dt_tz d \<noteq> None"

text \<open>The UTC instant of an aware datetime, in microseconds since 0001-01-01T00:00:00Z.\<close>

definition instant :: "datetime \<Rightarrow> int" where
  "instant d =
     dt_wall d - (case utcoffset d of None \<Rightarrow> 0 | Some n \<Rightarrow> n * us_per_second)"

text \<open>\<^verbatim>\<open>timedelta(...)\<close>: the magnitude of its day count is at most 999999999.\<close>

definition mk_timedelta :: "int \<Rightarrow> int result" where
  "mk_timedelta us =
     (if -999999999 \<le> us div us_per_day \<and> us div us_per_day \<le> 999999999 then Inr us
      else Inl (OverflowError ''days out of range''))"

text \<open>\<^verbatim>\<open>datetime + timedelta\<close> moves the wall clock reading; the zone stays, the fold is reset.\<close>

definition dt_add :: "datetime \<Rightarrow> int \<Rightarrow> datetime result" where
  "dt_add d us =
     (if wall_ok (dt_wall d + us) then Inr (d\<lparr>dt_wall := dt_wall d + us, dt_fold := False\<rparr>)
      else Inl (OverflowError ''date value out of range''))"

text \<open>\<^verbatim>\<open>datetime.replace(tzinfo=tz)\<close>\<close>

definition replace_tz :: "datetime \<Rightarrow> tzinfo \<Rightarrow> datetime" where
  "replace_tz d tz = d\<lparr>dt_tz := Some tz\<rparr>"

text \<open>\<^verbatim>\<open>datetime.replace(hour=h, minute=m, second=s, microsecond=us)\<close>\<close>

definition replace_time :: "datetime \<Rightarrow> int \<Rightarrow> int \<Rightarrow> int \<Rightarrow> int \<Rightarrow> datetime result" where
  "replace_time d h m s us =
     (if \<not> (0 \<le> h \<and> h \<le> 23) then Inl (ValueError ''hour must be in 0..23'')
      else if \<not> (0 \<le> m \<and> m \<le> 59) then Inl (ValueError ''minute must be in 0..59'')
      else if \<not> (0 \<le> s \<and> s \<le> 59) then Inl (ValueError ''second must be in 0..59'')
      else if \<not> (0 \<le> us \<and> us \<le> 999999) then Inl (ValueError ''microsecond must be in 0..999999'')
      else Inr (d\<lparr>dt_wall := (dt_wall d div us_per_day) * us_per_day
                    + h * us_per_hour + m * us_per_minute + s * us_per_second + us\<rparr>))"

text \<open>\<^verbatim>\<open>datetime.weekday()\<close>: 0 is Monday. 0001-01-01 was a Monday.\<close>

definition weekday :: "datetime \<Rightarrow> int" where
  "weekday d = (dt_wall d div us_per_day) mod 7"

text \<open>The day number, the hour and the minute on the wall clock.\<close>

definition dt_day :: "datetime \<Rightarrow> int" where
  "dt_day d = dt_wall d div us_per_day"

definition dt_hour :: "datetime \<Rightarrow> int" where
  "dt_hour d = (dt_wall d mod us_per_day) div us_per_hour"

definition dt_minute :: "datetime \<Rightarrow> int" where
  "dt_minute d = (dt_wall d mod us_per_hour) div us_per_minute"

text \<open>
  \<^verbatim>\<open>datetime.astimezone(tz)\<close> for an aware datetime. Two \<^verbatim>\<open>ZoneInfo\<close> objects with one key
  are one object, and then the datetime is returned as it is.
\<close>

fun same_tz :: "tzinfo \<Rightarrow> tzinfo \<Rightarrow> bool" where
  "same_tz TzUTC TzUTC = True"
| "same_tz (TzZone y) (TzZone z) = (z_key y = z_key z)"
| "same_tz _ _ = False"

fun from_utc :: "tzinfo \<Rightarrow> int \<Rightarrow> int \<times> bool" where
  "from_utc TzUTC u = (u, False)"
| "from_utc (TzFixed n) u = (u + n * us_per_second, False)"
| "from_utc (TzZone z) u = z_fromutc z u"

definition astimezone :: "datetime \<Rightarrow> tzinfo \<Rightarrow> datetime result" where
  "astimezone d tz =
     (if (case dt_tz d of None \<Rightarrow> False | Some tz0 \<Rightarrow> same_tz tz0 tz) then Inr d
      else
        let u = instant d; w = fst (from_utc tz u); f = snd (from_utc tz u)
        in if wall_ok u \<and> wall_ok w then Inr \<lparr>dt_wall = w, dt_tz = Some tz, dt_fold = f\<rparr>
           else Inl (OverflowError ''date value out of range''))"

text \<open>An aware UTC datetime, as the database driver returns them.\<close>

definition utc_datetime :: "int \<Rightarrow> datetime" where
  "utc_datetime u = \<lparr>dt_wall = u, dt_tz = Some TzUTC, dt_fold = False\<rparr>"

section \<open>Facts\<close>

fun tz_ok :: "tzinfo \<Rightarrow> bool" where
  "tz_ok TzUTC = True"
| "tz_ok (TzFixed n) = (\<bar>n\<bar> < 86400)"
| "tz_ok (TzZone z) = zone_ok z"

definition dt_ok :: "datetime \<Rightarrow> bool" where
  "dt_ok d \<longleftrightarrow> wall_ok (dt_wall d) \<and> (\<forall>tz. dt_tz d = Some tz \<longrightarrow> tz_ok tz)"

lemma utc_datetime_simps [simp]:
  "dt_wall (utc_datetime u) = u" "dt_tz (utc_datetime u) = Some TzUTC"
  "dt_fold (utc_datetime u) = False"
  by (simp_all add: utc_datetime_def)

lemma utcoffset_utc [simp]: "utcoffset (utc_datetime u) = Some 0"
  by (simp add: utcoffset_def)

lemma instant_utc [simp]: "instant (utc_datetime u) = u"
  by (simp add: instant_def)

lemma is_aware_utc [simp]: "is_aware (utc_datetime u)"
  by (simp add: is_aware_def)

lemma is_aware_replace_tz [simp]: "is_aware (replace_tz d tz)"
  by (simp add: is_aware_def replace_tz_def)

lemma aware_utcoffset: "is_aware d \<Longrightarrow> \<exists>n. utcoffset d = Some n"
  by (cases "dt_tz d"; cases "the (dt_tz d)") (auto simp: is_aware_def utcoffset_def)

lemma instant_from_utc:
  assumes "tz_ok tz"
  shows "instant \<lparr>dt_wall = fst (from_utc tz u), dt_tz = Some tz, dt_fold = snd (from_utc tz u)\<rparr> = u"
  using assms by (cases tz) (simp_all add: instant_def utcoffset_def zone_ok_def)

lemma astimezone_instant:
  assumes "astimezone d tz = Inr e" and "tz_ok tz"
  shows "instant e = instant d"
  using assms
  by (auto simp: astimezone_def Let_def instant_from_utc split: if_splits option.splits)

lemma astimezone_aware: "astimezone d tz = Inr e \<Longrightarrow> is_aware e"
  by (auto simp: astimezone_def Let_def is_aware_def split: if_splits option.splits)

lemma astimezone_tz:
  assumes "astimezone d tz = Inr e"
  shows "\<exists>tz'. dt_tz e = Some tz' \<and> (tz' = tz \<or> same_tz tz' tz)"
  using assms by (auto simp: astimezone_def Let_def split: if_splits option.splits)

lemma astimezone_error:
  assumes "astimezone d tz = Inl e"
  shows "e = OverflowError ''date value out of range''"
  using assms by (auto simp: astimezone_def Let_def split: if_splits option.splits)

lemma dt_add_Inr:
  "dt_add d us = Inr e \<longleftrightarrow>
     wall_ok (dt_wall d + us) \<and> e = d\<lparr>dt_wall := dt_wall d + us, dt_fold := False\<rparr>"
  by (auto simp: dt_add_def)

lemma dt_add_aware: "dt_add d us = Inr e \<Longrightarrow> is_aware e = is_aware d"
  by (auto simp: dt_add_Inr is_aware_def)

lemma replace_time_valid:
  assumes "0 \<le> h" "h \<le> 23" "0 \<le> m" "m \<le> 59"
  shows "replace_time d h m 0 0 =
           Inr (d\<lparr>dt_wall := dt_day d * us_per_day + h * us_per_hour + m * us_per_minute\<rparr>)"
  using assms by (simp add: replace_time_def dt_day_def)

text \<open>Setting the time of day keeps the day and gives the hour and the minute asked for.\<close>

lemma day_time_parts:
  assumes "0 \<le> h" "h \<le> 23" "0 \<le> m" "m \<le> 59"
  shows "(n * us_per_day + h * us_per_hour + m * us_per_minute) div us_per_day = n"
    and "(n * us_per_day + h * us_per_hour + m * us_per_minute) mod us_per_day div us_per_hour = h"
    and "(n * us_per_day + h * us_per_hour + m * us_per_minute) mod us_per_hour div us_per_minute = m"
proof -
  let ?r = "h * us_per_hour + m * us_per_minute"
  have r: "0 \<le> ?r" "?r < us_per_day" using assms by (simp_all add: time_units)
  have eq: "n * us_per_day + h * us_per_hour + m * us_per_minute = ?r + n * us_per_day"
    by simp
  show "(n * us_per_day + h * us_per_hour + m * us_per_minute) div us_per_day = n"
    unfolding eq using r by (simp add: time_units)
  show "(n * us_per_day + h * us_per_hour + m * us_per_minute) mod us_per_day div us_per_hour = h"
    unfolding eq using r assms by (simp add: time_units)
  have eq2: "n * us_per_day + h * us_per_hour + m * us_per_minute
      = m * us_per_minute + (n * 24 + h) * us_per_hour"
    by (simp add: time_units)
  show "(n * us_per_day + h * us_per_hour + m * us_per_minute) mod us_per_hour div us_per_minute = m"
    unfolding eq2 mod_mult_self1 using assms by (simp add: time_units)
qed

lemma div_bounds:
  fixes w :: int
  assumes "0 \<le> w" "w < n * k" "0 < k"
  shows "0 \<le> w div k" and "w div k < n"
proof -
  show "0 \<le> w div k" using assms by (simp add: pos_imp_zdiv_nonneg_iff)
  have "(w div k) * k \<le> w" using assms(3) by (simp add: minus_mod_eq_div_mult [symmetric])
  then have "(w div k) * k < n * k" using assms(2) by linarith
  then show "w div k < n" using assms(3) by simp
qed

lemma wall_ok_day:
  assumes "wall_ok w" and "0 \<le> h" "h \<le> 23" "0 \<le> m" "m \<le> 59"
  shows "wall_ok ((w div us_per_day) * us_per_day + h * us_per_hour + m * us_per_minute)"
proof -
  have "w div us_per_day < 3652059" and "0 \<le> w div us_per_day"
    using div_bounds [of w 3652059 us_per_day] assms(1)
    by (simp_all add: wall_ok_def max_wall_def us_per_day_def)
  then show ?thesis using assms(2-) by (simp add: wall_ok_def time_units)
qed

end
