(* ===== verification/Py_Isoformat.thy ===== *)
theory Py_Isoformat
  imports Py_Datetime "HOL-Library.Monad_Syntax"
begin

text \<open>
  \<^verbatim>\<open>datetime.isoformat\<close> and \<^verbatim>\<open>datetime.fromisoformat\<close>, by which the program stores the run time
  of a \<open>once\<close> trigger as text and reads it back. The calendar is the proleptic Gregorian one, with
  the day arithmetic of CPython's \<^verbatim>\<open>datetime\<close>. The parser reads every text that \<open>isoformat\<close>
  produces, and the suffix \<open>Z\<close>; any other text goes to the parameter \<open>iso_other\<close>, which stands for
  the rarer ISO 8601 forms that Python accepts and for its errors.
\<close>

section \<open>Calendar\<close>

definition is_leap :: "int \<Rightarrow> bool" where
  "is_leap y \<longleftrightarrow> y mod 4 = 0 \<and> (y mod 100 \<noteq> 0 \<or> y mod 400 = 0)"

definition days_before_year :: "int \<Rightarrow> int" where
  "days_before_year y = (y - 1) * 365 + (y - 1) div 4 - (y - 1) div 100 + (y - 1) div 400"

definition month_lengths :: "bool \<Rightarrow> int list" where
  "month_lengths leap = [31, if leap then 29 else 28, 31, 30, 31, 30, 31, 31, 30, 31, 30, 31]"

text \<open>Months are numbered from 1, days of the year and of the era from 0.\<close>

definition days_in_month :: "bool \<Rightarrow> int \<Rightarrow> int" where
  "days_in_month leap m = month_lengths leap ! nat (m - 1)"

definition days_before_month :: "bool \<Rightarrow> int \<Rightarrow> int" where
  "days_before_month leap m = sum_list (take (nat (m - 1)) (month_lengths leap))"

definition ymd_to_day :: "int \<Rightarrow> int \<Rightarrow> int \<Rightarrow> int" where
  "ymd_to_day y m d = days_before_year y + days_before_month (is_leap y) m + (d - 1)"

definition ymd_valid :: "int \<Rightarrow> int \<Rightarrow> int \<Rightarrow> bool" where
  "ymd_valid y m d \<longleftrightarrow>
     1 \<le> y \<and> y \<le> 9999 \<and> 1 \<le> m \<and> m \<le> 12 \<and> 1 \<le> d \<and> d \<le> days_in_month (is_leap y) m"

text \<open>The month and the day of a day of the year: an estimate of the month, then one correction.\<close>

definition month_day :: "bool \<Rightarrow> int \<Rightarrow> int \<times> int" where
  "month_day leap n =
     (let m = (n + 50) div 32
      in if days_before_month leap m > n
         then (m - 1, n - days_before_month leap (m - 1) + 1)
         else (m, n - days_before_month leap m + 1))"

text \<open>The year, the month and the day of a day number, by cycles of 400, 100, 4 and 1 years.\<close>

definition day_to_ymd :: "int \<Rightarrow> int \<times> int \<times> int" where
  "day_to_ymd n =
     (let n400 = n div 146097; r400 = n mod 146097;
          n100 = r400 div 36524; r100 = r400 mod 36524;
          n4 = r100 div 1461; r4 = r100 mod 1461;
          n1 = r4 div 365; r1 = r4 mod 365;
          y = n400 * 400 + n100 * 100 + n4 * 4 + n1 + 1
      in if n1 = 4 \<or> n100 = 4 then (y - 1, 12, 31)
         else (y, month_day (is_leap y) r1))"

lemma month_day_table:
  "list_all (\<lambda>n. let (m, d) = month_day True n
     in 1 \<le> m \<and> m \<le> 12 \<and> 1 \<le> d \<and> d \<le> days_in_month True m
        \<and> days_before_month True m + (d - 1) = n) [0..365]"
  "list_all (\<lambda>n. let (m, d) = month_day False n
     in 1 \<le> m \<and> m \<le> 12 \<and> 1 \<le> d \<and> d \<le> days_in_month False m
        \<and> days_before_month False m + (d - 1) = n) [0..364]"
  by code_simp+

lemma month_day_correct:
  assumes "0 \<le> n" "n < (if leap then 366 else 365)" "month_day leap n = (m, d)"
  shows "1 \<le> m \<and> m \<le> 12 \<and> 1 \<le> d \<and> d \<le> days_in_month leap m
           \<and> days_before_month leap m + (d - 1) = n"
proof (cases leap)
  case True
  then have "n \<in> set [0..365]" using assms by simp
  with month_day_table(1) have "let (m, d) = month_day True n
     in 1 \<le> m \<and> m \<le> 12 \<and> 1 \<le> d \<and> d \<le> days_in_month True m
        \<and> days_before_month True m + (d - 1) = n"
    unfolding list_all_iff by (rule bspec)
  then show ?thesis using assms(3) True by simp
next
  case False
  then have "n \<in> set [0..364]" using assms by simp
  with month_day_table(2) have "let (m, d) = month_day False n
     in 1 \<le> m \<and> m \<le> 12 \<and> 1 \<le> d \<and> d \<le> days_in_month False m
        \<and> days_before_month False m + (d - 1) = n"
    unfolding list_all_iff by (rule bspec)
  then show ?thesis using assms(3) False by simp
qed

lemma days_before_year_cycles:
  fixes a b c d :: int
  assumes "0 \<le> b" "b \<le> 3" "0 \<le> c" "c \<le> 24" "0 \<le> d" "d \<le> 3"
  shows "days_before_year (a * 400 + b * 100 + c * 4 + d + 1)
           = 146097 * a + 36524 * b + 1461 * c + 365 * d"
proof -
  let ?y = "a * 400 + b * 100 + c * 4 + d"
  have "?y div 4 = a * 100 + b * 25 + c" using assms by linarith
  moreover have "?y div 100 = a * 4 + b" using assms by linarith
  moreover have "?y div 400 = a" using assms by linarith
  ultimately show ?thesis by (simp add: days_before_year_def)
qed

lemma mod_top: "1 \<le> x \<Longrightarrow> x \<le> n \<Longrightarrow> x mod n = 0 \<longleftrightarrow> x = (n :: int)"
  by (cases "x = n") simp_all

lemma is_leap_cycles:
  fixes a b c d :: int
  assumes "0 \<le> b" "b \<le> 3" "0 \<le> c" "c \<le> 24" "0 \<le> d" "d \<le> 3"
  shows "is_leap (a * 400 + b * 100 + c * 4 + d + 1) \<longleftrightarrow> d = 3 \<and> (c \<noteq> 24 \<or> b = 3)"
proof -
  let ?y = "a * 400 + b * 100 + c * 4 + d + 1"
  have e: "?y = (d + 1) + (a * 100 + b * 25 + c) * 4" "?y = (c * 4 + d + 1) + (a * 4 + b) * 100"
    "?y = (b * 100 + c * 4 + d + 1) + a * 400"
    by simp_all
  have "?y mod 4 = (d + 1) mod 4" "?y mod 100 = (c * 4 + d + 1) mod 100"
    "?y mod 400 = (b * 100 + c * 4 + d + 1) mod 400"
    by (simp_all only: e(1) mod_mult_self1, simp only: e(1)[symmetric] e(2) mod_mult_self1,
        simp only: e(1)[symmetric] e(3) mod_mult_self1)
  moreover have "(d + 1) mod 4 = 0 \<longleftrightarrow> d = 3"
    and "(c * 4 + d + 1) mod 100 = 0 \<longleftrightarrow> c = 24 \<and> d = 3"
    and "(b * 100 + c * 4 + d + 1) mod 400 = 0 \<longleftrightarrow> b = 3 \<and> c = 24 \<and> d = 3"
    using assms by (subst mod_top; linarith)+
  ultimately show ?thesis unfolding is_leap_def by auto
qed

lemma day_to_ymd_correct:
  assumes "0 \<le> n" "n < 3652059" "day_to_ymd n = (y, m, d)"
  shows "ymd_valid y m d" and "ymd_to_day y m d = n"
proof -
  define n400 r400 where "n400 = n div 146097" and "r400 = n mod 146097"
  define n100 r100 where "n100 = r400 div 36524" and "r100 = r400 mod 36524"
  define n4 r4 where "n4 = r100 div 1461" and "r4 = r100 mod 1461"
  define n1 r1 where "n1 = r4 div 365" and "r1 = r4 mod 365"
  note defs = n400_def r400_def n100_def r100_def n4_def r4_def n1_def r1_def
  have n: "n = n400 * 146097 + r400" "r400 = n100 * 36524 + r100" "r100 = n4 * 1461 + r4"
    "r4 = n1 * 365 + r1"
    by (simp_all add: defs)
  have r: "0 \<le> r400" "r400 < 146097" "0 \<le> r100" "r100 < 36524" "0 \<le> r4" "r4 < 1461"
    "0 \<le> r1" "r1 < 365"
    by (simp_all add: defs)
  have q: "0 \<le> n400" "0 \<le> n100" "0 \<le> n4" "0 \<le> n1" "n400 \<le> 24" "n100 \<le> 4" "n4 \<le> 24" "n1 \<le> 4"
    using n r assms(1,2) by linarith+
  let ?y = "n400 * 400 + n100 * 100 + n4 * 4 + n1 + 1"
  have day: "day_to_ymd n =
      (if n1 = 4 \<or> n100 = 4 then (?y - 1, 12, 31) else (?y, month_day (is_leap ?y) r1))"
    by (simp add: day_to_ymd_def Let_def defs)
  have dec: "days_before_month True 12 = 335" "days_in_month True 12 = 31"
    by code_simp+
  have "ymd_valid y m d \<and> ymd_to_day y m d = n"
  proof (cases "n1 = 4 \<or> n100 = 4")
    case True
    then obtain a b c e where abc: "y = a * 400 + b * 100 + c * 4 + e + 1" "m = 12" "d = 31"
      "0 \<le> b" "b \<le> 3" "0 \<le> c" "c \<le> 24" "e = 3" "c \<noteq> 24 \<or> b = 3" "0 \<le> a" "a \<le> 24"
      "n = 146097 * a + 36524 * b + 1461 * c + 365 * e + 365"
    proof (cases "n100 = 4")
      case True
      then show ?thesis
        using n r q day assms(3) by (intro that [of n400 3 24 3]) auto
    next
      case False
      then have "n1 = 4" using True by simp
      then show ?thesis
        using False n r q day assms(3) by (intro that [of n400 n100 n4 3]) auto
    qed
    then have "is_leap y" "days_before_year y = n - 365" "y \<le> 10000"
      using days_before_year_cycles [of b c e a] is_leap_cycles [of b c e a] by simp_all
    moreover have "y \<noteq> 10000" using abc assms(2) by auto
    ultimately show ?thesis using abc dec by (simp add: ymd_valid_def ymd_to_day_def)
  next
    case False
    then have b: "n100 \<le> 3" "n1 \<le> 3" and md: "y = ?y" "month_day (is_leap y) r1 = (m, d)"
      using q day assms(3) by auto
    have dby: "days_before_year y = n - r1"
      using days_before_year_cycles [of n100 n4 n1 n400] b q n md(1) by simp
    moreover have "y \<le> 9999"
    proof (rule ccontr)
      assume "\<not> y \<le> 9999"
      then have "n400 = 24 \<and> n100 = 3 \<and> n4 = 24 \<and> n1 = 3" using md(1) b q by simp
      then show False using n r assms(2) by simp
    qed
    moreover have "1 \<le> y" using md(1) q by simp
    ultimately show ?thesis
      using month_day_correct [of r1 "is_leap y" m d] md r
      by (simp add: ymd_valid_def ymd_to_day_def split: if_splits)
  qed
  then show "ymd_valid y m d" and "ymd_to_day y m d = n" by simp_all
qed

section \<open>Printing\<close>

text \<open>Decimal digits: \<open>pad k n\<close> is \<open>n\<close> in \<open>k\<close> digits with leading zeros.\<close>

definition digit_char :: "int \<Rightarrow> char" where
  "digit_char d = char_of (nat (48 + d))"

definition is_digit :: "char \<Rightarrow> bool" where
  "is_digit c \<longleftrightarrow> (48 :: nat) \<le> of_char c \<and> of_char c \<le> (57 :: nat)"

definition digit_val :: "char \<Rightarrow> int" where
  "digit_val c = int (of_char c) - 48"

fun pad :: "nat \<Rightarrow> int \<Rightarrow> string" where
  "pad 0 n = []"
| "pad (Suc k) n = pad k (n div 10) @ [digit_char (n mod 10)]"

definition format_offset :: "int \<Rightarrow> string" where
  "format_offset n =
     (let a = \<bar>n\<bar>
      in (if n < 0 then ''-'' else ''+'') @ pad 2 (a div 3600) @ '':'' @ pad 2 (a mod 3600 div 60)
         @ (if a mod 60 = 0 then [] else '':'' @ pad 2 (a mod 60)))"

text \<open>\<^verbatim>\<open>datetime.date().isoformat()\<close> and \<^verbatim>\<open>datetime.isoformat()\<close>\<close>

definition isoformat_date :: "datetime \<Rightarrow> string" where
  "isoformat_date t =
     (let (y, m, d) = day_to_ymd (dt_day t) in pad 4 y @ ''-'' @ pad 2 m @ ''-'' @ pad 2 d)"

definition isoformat_time :: "int \<Rightarrow> string" where
  "isoformat_time r =
     pad 2 (r div us_per_hour) @ '':'' @ pad 2 (r mod us_per_hour div us_per_minute) @ '':''
     @ pad 2 (r mod us_per_minute div us_per_second)
     @ (if r mod us_per_second = 0 then [] else ''.'' @ pad 6 (r mod us_per_second))"

definition isoformat :: "datetime \<Rightarrow> string" where
  "isoformat t =
     isoformat_date t @ ''T'' @ isoformat_time (dt_wall t mod us_per_day)
     @ (case utcoffset t of None \<Rightarrow> [] | Some n \<Rightarrow> format_offset n)"

section \<open>Parsing\<close>

fun read_digits :: "nat \<Rightarrow> int \<Rightarrow> string \<Rightarrow> (int \<times> string) option" where
  "read_digits 0 acc s = Some (acc, s)"
| "read_digits (Suc k) acc [] = None"
| "read_digits (Suc k) acc (c # s) =
     (if is_digit c then read_digits k (acc * 10 + digit_val c) s else None)"

fun expect :: "char \<Rightarrow> string \<Rightarrow> string option" where
  "expect c [] = None"
| "expect c (x # s) = (if x = c then Some s else None)"

fun read_frac :: "string \<Rightarrow> (int \<times> string) option" where
  "read_frac [] = Some (0, [])"
| "read_frac (c # s) = (if c = CHR ''.'' then read_digits 6 0 s else Some (0, c # s))"

fun read_seconds :: "string \<Rightarrow> (int \<times> string) option" where
  "read_seconds [] = Some (0, [])"
| "read_seconds (c # s) = (if c = CHR '':'' then read_digits 2 0 s else None)"

definition mk_tz :: "int \<Rightarrow> tzinfo" where
  "mk_tz n = (if n = 0 then TzUTC else TzFixed n)"

definition read_hms_offset :: "int \<Rightarrow> string \<Rightarrow> tzinfo option" where
  "read_hms_offset sign s = do {
     (hh, s1) \<leftarrow> read_digits 2 0 s;
     s2 \<leftarrow> expect CHR '':'' s1;
     (mm, s3) \<leftarrow> read_digits 2 0 s2;
     (ss, s4) \<leftarrow> read_seconds s3;
     if s4 = [] \<and> hh < 24 \<and> mm < 60 \<and> ss < 60
     then Some (mk_tz (sign * (hh * 3600 + mm * 60 + ss))) else None }"

fun read_offset :: "string \<Rightarrow> tzinfo option option" where
  "read_offset [] = Some None"
| "read_offset (c # s) =
     (if c = CHR ''Z'' then (if s = [] then Some (Some TzUTC) else None)
      else if c = CHR ''+'' then map_option Some (read_hms_offset 1 s)
      else if c = CHR ''-'' then map_option Some (read_hms_offset (-1) s)
      else None)"

definition parse_iso :: "string \<Rightarrow> datetime option" where
  "parse_iso s = do {
     (y, s1) \<leftarrow> read_digits 4 0 s;
     s2 \<leftarrow> expect CHR ''-'' s1;
     (m, s3) \<leftarrow> read_digits 2 0 s2;
     s4 \<leftarrow> expect CHR ''-'' s3;
     (d, s5) \<leftarrow> read_digits 2 0 s4;
     s6 \<leftarrow> expect CHR ''T'' s5;
     (hh, s7) \<leftarrow> read_digits 2 0 s6;
     s8 \<leftarrow> expect CHR '':'' s7;
     (mi, s9) \<leftarrow> read_digits 2 0 s8;
     s10 \<leftarrow> expect CHR '':'' s9;
     (ss, s11) \<leftarrow> read_digits 2 0 s10;
     (us, s12) \<leftarrow> read_frac s11;
     tz \<leftarrow> read_offset s12;
     if ymd_valid y m d \<and> hh < 24 \<and> mi < 60 \<and> ss < 60
     then Some \<lparr>dt_wall = ymd_to_day y m d * us_per_day + hh * us_per_hour
                   + mi * us_per_minute + ss * us_per_second + us,
                dt_tz = tz, dt_fold = False\<rparr>
     else None }"

definition fromisoformat :: "(string \<Rightarrow> datetime result) \<Rightarrow> string \<Rightarrow> datetime result" where
  "fromisoformat iso_other s =
     (case parse_iso s of Some t \<Rightarrow> Inr t | None \<Rightarrow> iso_other s)"

section \<open>Parsing what was printed\<close>

lemma of_char_digit: "0 \<le> d \<Longrightarrow> d < 10 \<Longrightarrow> (of_char (digit_char d) :: nat) = nat (48 + d)"
  by (simp add: digit_char_def)

lemma is_digit_digit [simp]: "0 \<le> d \<Longrightarrow> d < 10 \<Longrightarrow> is_digit (digit_char d)"
  by (simp add: is_digit_def of_char_digit nat_le_iff le_nat_iff)

lemma digit_val_digit [simp]: "0 \<le> d \<Longrightarrow> d < 10 \<Longrightarrow> digit_val (digit_char d) = d"
  by (simp add: digit_val_def of_char_digit)

lemma read_digits_pad_add:
  "0 \<le> n \<Longrightarrow> n < 10 ^ k \<Longrightarrow>
     read_digits (k + j) acc (pad k n @ s) = read_digits j (acc * 10 ^ k + n) s"
proof (induction k arbitrary: n j s)
  case 0
  then have "n = 0" by simp
  then show ?case by simp
next
  case (Suc k)
  have "n div 10 < 10 ^ k" and "0 \<le> n div 10"
    using Suc.prems div_bounds [of n "10 ^ k" 10] by (simp_all add: mult.commute)
  then have "read_digits (k + Suc j) acc (pad k (n div 10) @ digit_char (n mod 10) # s)
      = read_digits (Suc j) (acc * 10 ^ k + n div 10) (digit_char (n mod 10) # s)"
    by (intro Suc.IH)
  also have "\<dots> = read_digits j ((acc * 10 ^ k + n div 10) * 10 + n mod 10) s"
    by simp
  also have "(acc * 10 ^ k + n div 10) * 10 + n mod 10 = acc * 10 ^ Suc k + n"
    by (simp add: algebra_simps)
  finally show ?case by simp
qed

lemma read_digits_pad:
  "0 \<le> n \<Longrightarrow> n < 10 ^ k \<Longrightarrow> read_digits k 0 (pad k n @ s) = Some (n, s)"
  using read_digits_pad_add [of n k 0 0 s] by simp

lemma read_pad2 [simp]: "0 \<le> n \<Longrightarrow> n < 100 \<Longrightarrow> read_digits 2 0 (pad 2 n @ s) = Some (n, s)"
  by (rule read_digits_pad) simp_all

lemma read_pad2_end [simp]: "0 \<le> n \<Longrightarrow> n < 100 \<Longrightarrow> read_digits 2 0 (pad 2 n) = Some (n, [])"
  using read_pad2 [of n "[]"] by simp

lemma read_pad4 [simp]: "0 \<le> n \<Longrightarrow> n < 10000 \<Longrightarrow> read_digits 4 0 (pad 4 n @ s) = Some (n, s)"
  by (rule read_digits_pad) simp_all

lemma read_pad6 [simp]: "0 \<le> n \<Longrightarrow> n < 1000000 \<Longrightarrow> read_digits 6 0 (pad 6 n @ s) = Some (n, s)"
  by (rule read_digits_pad) simp_all

lemma read_hms_offset_format:
  assumes "0 \<le> a" "a < 86400"
  shows "read_hms_offset sign
           (pad 2 (a div 3600) @ '':'' @ pad 2 (a mod 3600 div 60)
              @ (if a mod 60 = 0 then [] else '':'' @ pad 2 (a mod 60)))
         = Some (mk_tz (sign * a))"
proof -
  have h: "0 \<le> a div 3600" "a div 3600 < 24" and m: "0 \<le> a mod 3600 div 60" "a mod 3600 div 60 < 60"
    and s: "0 \<le> a mod 60" "a mod 60 < 60"
    using assms div_bounds [of a 24 3600] div_bounds [of "a mod 3600" 60 60] by simp_all
  have "a mod 3600 mod 60 = a mod 60" by (simp add: mod_mod_cancel)
  then have a: "a div 3600 * 3600 + a mod 3600 div 60 * 60 + a mod 60 = a"
    using div_mult_mod_eq [of a 3600] div_mult_mod_eq [of "a mod 3600" 60] by linarith
  have "read_seconds (if a mod 60 = 0 then [] else '':'' @ pad 2 (a mod 60)) = Some (a mod 60, [])"
    using s by simp
  then show ?thesis using h m s a by (simp add: read_hms_offset_def)
qed

lemma read_offset_format:
  assumes "\<bar>n\<bar> < 86400"
  shows "read_offset (format_offset n) = Some (Some (mk_tz n))"
  using read_hms_offset_format [of "\<bar>n\<bar>" "if n < 0 then -1 else 1"] assms
  by (auto simp: format_offset_def Let_def)


lemma isoformat_time_parts:
  assumes "0 \<le> r" "r < us_per_day"
  defines "h \<equiv> r div us_per_hour" and "m \<equiv> r mod us_per_hour div us_per_minute"
    and "s \<equiv> r mod us_per_minute div us_per_second" and "u \<equiv> r mod us_per_second"
  shows "0 \<le> h" "h < 24" "0 \<le> m" "m < 60" "0 \<le> s" "s < 60" "0 \<le> u" "u < 1000000"
    and "h * us_per_hour + m * us_per_minute + s * us_per_second + u = r"
proof -
  show "0 \<le> h" "h < 24"
    using div_bounds [of r 24 us_per_hour] assms by (simp_all add: time_units)
  show "0 \<le> m" "m < 60"
    using div_bounds [of "r mod us_per_hour" 60 us_per_minute] by (simp_all add: m_def time_units)
  show "0 \<le> s" "s < 60"
    using div_bounds [of "r mod us_per_minute" 60 us_per_second] by (simp_all add: s_def time_units)
  show "0 \<le> u" "u < 1000000" by (simp_all add: u_def time_units)
  have "r mod us_per_hour mod us_per_minute = r mod us_per_minute"
    "r mod us_per_minute mod us_per_second = r mod us_per_second"
    by (simp_all add: mod_mod_cancel time_units)
  then show "h * us_per_hour + m * us_per_minute + s * us_per_second + u = r"
    using div_mult_mod_eq [of r us_per_hour] div_mult_mod_eq [of "r mod us_per_hour" us_per_minute]
      div_mult_mod_eq [of "r mod us_per_minute" us_per_second]
    unfolding h_def m_def s_def u_def by linarith
qed

lemma format_offset_nonempty: "\<exists>c s. format_offset n = c # s \<and> c \<noteq> CHR ''.''"
  by (simp add: format_offset_def Let_def)

lemma read_frac_format:
  assumes "0 \<le> u" "u < 1000000" and "s = [] \<or> s = format_offset n"
  shows "read_frac ((if u = 0 then [] else ''.'' @ pad 6 u) @ s) = Some (u, s)"
  using assms format_offset_nonempty [of n] by auto

text \<open>What \<^verbatim>\<open>fromisoformat(t.isoformat())\<close> is: the same wall clock reading, at a fixed offset.\<close>

definition reparsed :: "datetime \<Rightarrow> datetime" where
  "reparsed t = \<lparr>dt_wall = dt_wall t, dt_tz = map_option mk_tz (utcoffset t), dt_fold = False\<rparr>"

lemma utcoffset_bound:
  assumes "dt_ok t" "utcoffset t = Some n"
  shows "\<bar>n\<bar> < 86400"
  using assms by (auto simp: dt_ok_def utcoffset_def zone_ok_def split: option.splits tzinfo.splits)

lemma days_in_month_le:
  assumes "1 \<le> k" "k \<le> 12"
  shows "days_in_month leap k \<le> 31"
proof -
  have "nat (k - 1) < length (month_lengths leap)" using assms by (simp add: month_lengths_def)
  then have "days_in_month leap k \<in> set (month_lengths leap)"
    unfolding days_in_month_def by (rule nth_mem)
  then show ?thesis by (auto simp: month_lengths_def split: if_splits)
qed

lemma parse_isoformat:
  assumes "dt_ok t"
  shows "parse_iso (isoformat t) = Some (reparsed t)"
proof -
  let ?r = "dt_wall t mod us_per_day"
  obtain y m d where ymd: "day_to_ymd (dt_day t) = (y, m, d)" by (cases "day_to_ymd (dt_day t)")
  have day: "0 \<le> dt_day t" "dt_day t < 3652059"
    using assms div_bounds [of "dt_wall t" 3652059 us_per_day]
    by (simp_all add: dt_ok_def wall_ok_def dt_day_def max_wall_def us_per_day_def)
  note v = day_to_ymd_correct [OF day ymd]
  have "1 \<le> m" "m \<le> 12" using v(1) by (simp_all add: ymd_valid_def)
  then have "days_in_month (is_leap y) m \<le> 31" by (rule days_in_month_le)
  then have yb: "0 \<le> y" "y < 10000" "0 \<le> m" "m < 100" "0 \<le> d" "d < 100"
    using v(1) by (simp_all add: ymd_valid_def)
  have r: "0 \<le> ?r" "?r < us_per_day" by (simp_all add: us_per_day_def)
  note t = isoformat_time_parts [OF r]
  let ?off = "case utcoffset t of None \<Rightarrow> [] | Some n \<Rightarrow> format_offset n"
  have frac: "read_frac ((if ?r mod us_per_second = 0 then []
      else ''.'' @ pad 6 (?r mod us_per_second)) @ ?off) = Some (?r mod us_per_second, ?off)"
    using t by (intro read_frac_format [where n = "the (utcoffset t)"]) (auto split: option.splits)
  have off: "read_offset ?off = Some (map_option mk_tz (utcoffset t))"
    using utcoffset_bound [OF assms] by (auto simp: read_offset_format split: option.splits)
  have wall: "ymd_to_day y m d * us_per_day + ?r = dt_wall t"
    using v(2) by (simp add: dt_day_def)
  show ?thesis
    using t yb v(1) frac off wall
    by (simp add: parse_iso_def isoformat_def isoformat_date_def isoformat_time_def ymd reparsed_def)
qed

lemma instant_reparsed [simp]: "instant (reparsed t) = instant t"
  by (auto simp: instant_def reparsed_def utcoffset_def mk_tz_def
      split: option.splits tzinfo.splits)

lemma is_aware_reparsed [simp]: "is_aware (reparsed t) = is_aware t"
  by (auto simp: is_aware_def reparsed_def utcoffset_def split: option.splits tzinfo.splits)

lemma dt_wall_reparsed [simp]: "dt_wall (reparsed t) = dt_wall t"
  by (simp add: reparsed_def)

lemma utcoffset_reparsed [simp]: "utcoffset (reparsed t) = utcoffset t"
  by (auto simp: reparsed_def utcoffset_def mk_tz_def split: option.splits tzinfo.splits)

lemma dt_ok_reparsed: "dt_ok t \<Longrightarrow> dt_ok (reparsed t)"
  using utcoffset_bound [of t]
  by (auto simp: dt_ok_def reparsed_def mk_tz_def split: if_splits)

lemma fromisoformat_isoformat:
  "dt_ok t \<Longrightarrow> fromisoformat io (isoformat t) = Inr (reparsed t)"
  by (simp add: fromisoformat_def parse_isoformat)

lemma reparsed_reparsed [simp]: "reparsed (reparsed t) = reparsed t"
  by (simp add: reparsed_def [of "reparsed t"]) (simp add: reparsed_def)

interpretation iso: codec isoformat "fromisoformat io" dt_ok reparsed for io
  by unfold_locales (simp_all add: fromisoformat_isoformat dt_ok_reparsed)

text \<open>The texts are made of digits and of the separators, so none has a letter \<open>Z\<close>.\<close>

lemma pad_digits: "c \<in> set (pad k n) \<Longrightarrow> \<exists>d. 0 \<le> d \<and> d < 10 \<and> c = digit_char d"
  by (induction k arbitrary: n) (auto intro: exI [of _ "_ mod 10"])

lemma pad_no:
  assumes "57 < (of_char c :: nat)"
  shows "c \<notin> set (pad k n)"
proof
  assume "c \<in> set (pad k n)"
  then obtain d where d: "0 \<le> d" "d < 10" and c: "digit_char d = c"
    using pad_digits by metis
  from of_char_digit [OF d] have "(of_char c :: nat) = nat (48 + d)" by (simp only: c)
  then show False using d assms by simp
qed

lemma isoformat_date_no: "57 < (of_char c :: nat) \<Longrightarrow> c \<notin> set (isoformat_date t)"
  using pad_no [of c] by (auto simp: isoformat_date_def split: prod.splits)

lemma isoformat_no:
  assumes "57 < (of_char c :: nat)" "c \<noteq> CHR '':''" "c \<noteq> CHR ''T''"
  shows "c \<notin> set (isoformat t)"
proof -
  have "c \<noteq> CHR ''-''" "c \<noteq> CHR ''+''" "c \<noteq> CHR ''.''" using assms(1) by auto
  then show ?thesis
    using assms pad_no [OF assms(1)] isoformat_date_no [OF assms(1)]
    by (auto simp: isoformat_def isoformat_time_def format_offset_def Let_def split: option.splits)
qed

end
