(* ===== verification/Schemas.thy ===== *)
theory Schemas
  imports Py_Isoformat
begin

text \<open>
  The data that the components exchange: the enumerations of \<^verbatim>\<open>app/enums.py\<close> and the trigger,
  query and configuration models of \<^verbatim>\<open>app/schemas/tasks.py\<close>, with the checks that pydantic runs
  when one of them is built. A pydantic validator that raises a \<open>ValueError\<close> makes the
  construction raise a \<open>ValidationError\<close>; any other exception leaves the construction as it is.
\<close>

section \<open>Enumerations\<close>

datatype trigger_type = ONCE | CRON | INTERVAL

fun trigger_type_value :: "trigger_type \<Rightarrow> string" where
  "trigger_type_value ONCE = ''once''"
| "trigger_type_value CRON = ''cron''"
| "trigger_type_value INTERVAL = ''interval''"

datatype task_sort_field = CREATED_AT | NEXT_RUN_AT | UPDATED_AT

datatype sort_order = ASC | DESC

datatype health_status = OK | UNAVAILABLE

datatype task_history_event_type =
  TASK_CREATED | TASK_ACTIVATED | TASK_DEACTIVATED | TASK_DELETED | EXECUTION

fun event_type_value :: "task_history_event_type \<Rightarrow> string" where
  "event_type_value TASK_CREATED = ''task_created''"
| "event_type_value TASK_ACTIVATED = ''task_activated''"
| "event_type_value TASK_DEACTIVATED = ''task_deactivated''"
| "event_type_value TASK_DELETED = ''task_deleted''"
| "event_type_value EXECUTION = ''execution''"

datatype execution_source = SCHEDULED | MANUAL

fun execution_source_value :: "execution_source \<Rightarrow> string" where
  "execution_source_value SCHEDULED = ''scheduled''"
| "execution_source_value MANUAL = ''manual''"

text \<open>
  Columns hold the values of the enumerations as text; a comparison of a column with a member
  compares the texts, so it identifies the member.
\<close>

lemma trigger_type_value_inject [simp]: "trigger_type_value a = trigger_type_value b \<longleftrightarrow> a = b"
  by (cases a; cases b) simp_all

lemma event_type_value_inject [simp]: "event_type_value a = event_type_value b \<longleftrightarrow> a = b"
  by (cases a; cases b) simp_all

lemma execution_source_value_inject [simp]:
  "execution_source_value a = execution_source_value b \<longleftrightarrow> a = b"
  by (cases a; cases b) simp_all

section \<open>JSON values and dictionaries\<close>

text \<open>A number that is not written as an integer is kept as its text.\<close>

datatype json =
    JNull
  | JBool bool
  | JInt int
  | JFloat string
  | JStr string
  | JArr "json list"
  | JObj "(string \<times> json) list"

type_synonym dict = "(string \<times> json) list"

definition dict_item :: "dict \<Rightarrow> string \<Rightarrow> json result" where
  "dict_item d k = (case map_of d k of None \<Rightarrow> Inl (KeyError k) | Some v \<Rightarrow> Inr v)"

definition dict_get :: "dict \<Rightarrow> string \<Rightarrow> json \<Rightarrow> json" where
  "dict_get d k v = (case map_of d k of None \<Rightarrow> v | Some x \<Rightarrow> x)"

text \<open>
  What the development takes from outside the repository in every component: the zone database,
  the ISO 8601 texts that \<open>parse_iso\<close> leaves open, and pydantic's conversion to \<^verbatim>\<open>int\<close> of a
  value that is not an integer.
\<close>

record runtime =
  zone_info :: zoneinfo
  iso_other :: "string \<Rightarrow> datetime result"
  coerce_int :: "json \<Rightarrow> int option"

section \<open>Pydantic\<close>

definition pydantic_validator :: "'a result \<Rightarrow> 'a result" where
  "pydantic_validator r = reraise_as is_ValueError (\<lambda>e. ValidationError (exn_str e)) r"

definition pydantic_str :: "json \<Rightarrow> string result" where
  "pydantic_str j =
     (case j of JStr s \<Rightarrow> Inr s
      | _ \<Rightarrow> Inl (ValidationError ''Input should be a valid string''))"

definition pydantic_int :: "runtime \<Rightarrow> json \<Rightarrow> int result" where
  "pydantic_int rt j =
     (case (case j of JInt n \<Rightarrow> Some n | _ \<Rightarrow> coerce_int rt j) of
        Some n \<Rightarrow> Inr n
      | None \<Rightarrow> Inl (ValidationError ''Input should be a valid integer''))"

lemma pydantic_validator_Inr [simp]: "pydantic_validator r = Inr x \<longleftrightarrow> r = Inr x"
  by (simp add: pydantic_validator_def reraise_as_eq_Inr)

lemma pydantic_validator_ok [simp]: "pydantic_validator (Inr x) = Inr x"
  by simp

lemma pydantic_str_JStr [simp]: "pydantic_str (JStr s) = Inr s"
  by (simp add: pydantic_str_def)

lemma pydantic_int_JInt [simp]: "pydantic_int rt (JInt n) = Inr n"
  by (simp add: pydantic_int_def)

section \<open>Trigger specifications\<close>

datatype structured_trigger =
    OnceTrigger datetime
  | CronTriggerSpec string string
  | IntervalTriggerSpec int

datatype trigger_spec =
    Structured structured_trigger
  | TextTriggerSpec string string

fun spec_type :: "structured_trigger \<Rightarrow> trigger_type" where
  "spec_type (OnceTrigger _) = ONCE"
| "spec_type (CronTriggerSpec _ _) = CRON"
| "spec_type (IntervalTriggerSpec _) = INTERVAL"

text \<open>\<^verbatim>\<open>validate_timezone\<close>, the same in the three models that have a time zone\<close>

definition validate_timezone :: "runtime \<Rightarrow> string \<Rightarrow> string result" where
  "validate_timezone rt value = rbind (zone_info rt value) (\<lambda>_. Inr value)"

text \<open>The constructors with their checks.\<close>

definition mk_cron_spec :: "runtime \<Rightarrow> string \<Rightarrow> string \<Rightarrow> structured_trigger result" where
  "mk_cron_spec rt expression tz =
     rbind (pydantic_validator (validate_timezone rt tz)) (\<lambda>v. Inr (CronTriggerSpec expression v))"

definition mk_interval_spec :: "int \<Rightarrow> structured_trigger result" where
  "mk_interval_spec seconds =
     (if 0 < seconds then Inr (IntervalTriggerSpec seconds)
      else Inl (ValidationError ''Input should be greater than 0''))"

definition mk_text_spec :: "runtime \<Rightarrow> string \<Rightarrow> string \<Rightarrow> trigger_spec result" where
  "mk_text_spec rt text tz =
     (if length text < 1 then Inl (ValidationError ''String should have at least 1 character'')
      else if 2000 < length text
      then Inl (ValidationError ''String should have at most 2000 characters'')
      else rbind (pydantic_validator (validate_timezone rt tz))
             (\<lambda>v. Inr (TextTriggerSpec text v)))"

text \<open>The trigger of a request body, by its discriminator; an omitted time zone is \<open>None\<close>.\<close>

datatype trigger_body =
    BodyOnce datetime
  | BodyCron string "string option"
  | BodyInterval int
  | BodyText string "string option"

fun validate_trigger :: "runtime \<Rightarrow> trigger_body \<Rightarrow> trigger_spec result" where
  "validate_trigger rt (BodyOnce run_at) = Inr (Structured (OnceTrigger run_at))"
| "validate_trigger rt (BodyCron expression tz) =
     (case tz of
        None \<Rightarrow> Inr (Structured (CronTriggerSpec expression ''UTC''))
      | Some z \<Rightarrow> rbind (mk_cron_spec rt expression z) (\<lambda>s. Inr (Structured s)))"
| "validate_trigger rt (BodyInterval seconds) =
     rbind (mk_interval_spec seconds) (\<lambda>s. Inr (Structured s))"
| "validate_trigger rt (BodyText text tz) =
     (case tz of
        None \<Rightarrow>
          (if length text < 1 then Inl (ValidationError ''String should have at least 1 character'')
           else if 2000 < length text
           then Inl (ValidationError ''String should have at most 2000 characters'')
           else Inr (TextTriggerSpec text ''UTC''))
      | Some z \<Rightarrow> mk_text_spec rt text z)"

record task_create =
  tc_webhook_url :: string
  tc_parameters :: "(string \<times> string) list"
  tc_trigger :: trigger_spec

section \<open>Stored trigger configurations\<close>

datatype trigger_config =
    OnceTriggerConfig string
  | CronTriggerConfig string string
  | IntervalTriggerConfig int

text \<open>\<^verbatim>\<open>model_dump()\<close>\<close>

fun config_dump :: "trigger_config \<Rightarrow> dict" where
  "config_dump (OnceTriggerConfig run_at) = [(''run_at'', JStr run_at)]"
| "config_dump (CronTriggerConfig expression tz) =
     [(''expression'', JStr expression), (''timezone'', JStr tz)]"
| "config_dump (IntervalTriggerConfig seconds) = [(''seconds'', JInt seconds)]"

text \<open>
  The union \<^verbatim>\<open>OnceTriggerConfig | CronTriggerConfig | IntervalTriggerConfig\<close> built from a
  dictionary: of the members that accept it, one with the most fields set, the leftmost first.
\<close>

definition config_candidates :: "runtime \<Rightarrow> dict \<Rightarrow> (nat \<times> trigger_config) list" where
  "config_candidates rt d =
     (case map_of d ''run_at'' of Some (JStr s) \<Rightarrow> [(1, OnceTriggerConfig s)] | _ \<Rightarrow> [])
     @ (case (map_of d ''expression'', map_of d ''timezone'') of
          (Some (JStr e), None) \<Rightarrow> [(1, CronTriggerConfig e ''UTC'')]
        | (Some (JStr e), Some (JStr z)) \<Rightarrow> [(2, CronTriggerConfig e z)]
        | _ \<Rightarrow> [])
     @ (case map_of d ''seconds'' of
          None \<Rightarrow> []
        | Some j \<Rightarrow>
            (case pydantic_int rt j of Inr n \<Rightarrow> [(1, IntervalTriggerConfig n)] | Inl _ \<Rightarrow> []))"

fun best_candidate :: "(nat \<times> 'a) list \<Rightarrow> (nat \<times> 'a) option" where
  "best_candidate [] = None"
| "best_candidate (x # xs) =
     (case best_candidate xs of
        None \<Rightarrow> Some x
      | Some y \<Rightarrow> if fst x < fst y then Some y else Some x)"

definition config_from_dict :: "runtime \<Rightarrow> dict \<Rightarrow> trigger_config result" where
  "config_from_dict rt d =
     (case best_candidate (config_candidates rt d) of
        Some (_, c) \<Rightarrow> Inr c
      | None \<Rightarrow> Inl (ValidationError ''trigger_config''))"

lemma config_from_dump [simp]: "config_from_dict rt (config_dump c) = Inr c"
  by (cases c) (simp_all add: config_from_dict_def config_candidates_def)

section \<open>Queries\<close>

record task_list_query =
  q_active_only :: bool
  q_trigger_type :: "trigger_type option"
  q_sort :: task_sort_field
  q_order :: sort_order
  q_limit :: int
  q_offset :: int

definition default_task_list_query :: task_list_query where
  "default_task_list_query =
     \<lparr>q_active_only = True, q_trigger_type = None, q_sort = CREATED_AT, q_order = DESC,
      q_limit = 50, q_offset = 0\<rparr>"

definition valid_page :: "int \<Rightarrow> int \<Rightarrow> bool" where
  "valid_page limit offset \<longleftrightarrow> 1 \<le> limit \<and> limit \<le> 100 \<and> 0 \<le> offset"

definition valid_task_list_query :: "task_list_query \<Rightarrow> bool" where
  "valid_task_list_query q \<longleftrightarrow> valid_page (q_limit q) (q_offset q)"

text \<open>\<^verbatim>\<open>TaskScheduleQuery.count\<close>\<close>

definition valid_schedule_count :: "int \<Rightarrow> bool" where
  "valid_schedule_count n \<longleftrightarrow> 1 \<le> n \<and> n \<le> 20"

section \<open>What the checks guarantee\<close>

definition valid_structured :: "runtime \<Rightarrow> structured_trigger \<Rightarrow> bool" where
  "valid_structured rt s \<longleftrightarrow>
     (case s of
        OnceTrigger t \<Rightarrow> True
      | CronTriggerSpec e z \<Rightarrow> z = ''UTC'' \<or> (\<exists>zn. zone_info rt z = Inr zn)
      | IntervalTriggerSpec n \<Rightarrow> 0 < n)"

lemma mk_cron_spec_Inr:
  "mk_cron_spec rt e z = Inr s \<longleftrightarrow> s = CronTriggerSpec e z \<and> (\<exists>zn. zone_info rt z = Inr zn)"
  by (auto simp: mk_cron_spec_def validate_timezone_def rbind_eq_Inr)

lemma mk_interval_spec_Inr:
  "mk_interval_spec n = Inr s \<longleftrightarrow> 0 < n \<and> s = IntervalTriggerSpec n"
  by (auto simp: mk_interval_spec_def)

lemma validate_trigger_structured:
  assumes "validate_trigger rt b = Inr (Structured s)"
  shows "valid_structured rt s"
  using assms
  by (cases b) (auto simp: valid_structured_def rbind_eq_Inr mk_cron_spec_Inr mk_interval_spec_Inr
      mk_text_spec_def split: option.splits if_splits)

lemma validate_trigger_text:
  assumes "validate_trigger rt b = Inr (TextTriggerSpec t z)"
  shows "t \<noteq> [] \<and> length t \<le> 2000 \<and> (z = ''UTC'' \<or> (\<exists>zn. zone_info rt z = Inr zn))"
  using assms
  by (cases b) (auto simp: rbind_eq_Inr mk_text_spec_def validate_timezone_def
      split: option.splits if_splits)

section \<open>A concrete runtime\<close>

text \<open>
  Used by the examples: a zone database with UTC alone, and no other texts or numbers accepted.
\<close>

definition demo_runtime :: runtime where
  "demo_runtime =
     \<lparr>zone_info = (\<lambda>k. if k = ''UTC'' then Inr utc_zone else Inl (ZoneInfoNotFoundError k)),
      iso_other = (\<lambda>s. Inl (ValueError s)), coerce_int = (\<lambda>_. None)\<rparr>"

text \<open>Sunday 2026-05-24, 08:00 UTC, the frozen time of the repository's tests.\<close>

definition frozen_time :: datetime where
  "frozen_time = utc_datetime 63915206400000000"

lemma frozen_time_iso: "isoformat frozen_time = ''2026-05-24T08:00:00+00:00''"
  by code_simp

end
