(* ===== verification/Py_Regex.thy ===== *)
theory Py_Regex
  imports Prelude
begin

text \<open>
  The part of Python's \<^verbatim>\<open>str\<close> and \<^verbatim>\<open>re\<close> that the program's patterns use, for texts whose
  code points are below 256 (a \<open>char\<close> is one code point): the character classes, a backtracking
  matcher that lists the matches of a pattern in the order in which the engine tries them, the
  search for the leftmost match, and a declarative semantics of patterns that the matcher is
  proved to decide. Every pattern of the program is compiled with \<^verbatim>\<open>re.IGNORECASE\<close>.
\<close>

section \<open>Characters\<close>

definition code :: "char \<Rightarrow> int" where
  "code c = of_char c"

text \<open>\<^verbatim>\<open>\w\<close>, \<^verbatim>\<open>\s\<close> and \<^verbatim>\<open>\d\<close>\<close>

definition is_word :: "char \<Rightarrow> bool" where
  "is_word c \<longleftrightarrow>
     (let n = code c
      in 48 \<le> n \<and> n \<le> 57 \<or> 65 \<le> n \<and> n \<le> 90 \<or> n = 95 \<or> 97 \<le> n \<and> n \<le> 122
         \<or> n \<in> {170, 178, 179, 181, 185, 186, 188, 189, 190}
         \<or> 192 \<le> n \<and> n \<noteq> 215 \<and> n \<noteq> 247)"

definition is_space :: "char \<Rightarrow> bool" where
  "is_space c \<longleftrightarrow> (let n = code c in 9 \<le> n \<and> n \<le> 13 \<or> 28 \<le> n \<and> n \<le> 32 \<or> n = 133 \<or> n = 160)"

definition is_decimal :: "char \<Rightarrow> bool" where
  "is_decimal c \<longleftrightarrow> 48 \<le> code c \<and> code c \<le> 57"

text \<open>\<^verbatim>\<open>str.lower()\<close> of one character, and of a text.\<close>

definition lower_char :: "char \<Rightarrow> char" where
  "lower_char c =
     (let n = code c
      in if 65 \<le> n \<and> n \<le> 90 \<or> 192 \<le> n \<and> n \<le> 222 \<and> n \<noteq> 215 then char_of (n + 32) else c)"

definition py_lower :: "string \<Rightarrow> string" where
  "py_lower s = map lower_char s"

text \<open>\<^verbatim>\<open>[a-z]\<close> with the case ignored\<close>

definition is_ascii_letter :: "char \<Rightarrow> bool" where
  "is_ascii_letter c \<longleftrightarrow> 65 \<le> code c \<and> code c \<le> 90 \<or> 97 \<le> code c \<and> code c \<le> 122"

text \<open>\<^verbatim>\<open>int(s)\<close> of a text of decimal digits\<close>

definition decimal_val :: "char \<Rightarrow> int" where
  "decimal_val c = code c - 48"

definition py_int :: "string \<Rightarrow> int" where
  "py_int s = foldl (\<lambda>n c. n * 10 + decimal_val c) 0 s"

section \<open>Patterns and the matcher\<close>

text \<open>
  \<open>RCls f\<close> is one character in the class \<open>f\<close>, \<open>RPlus f\<close> a greedy repetition of it, \<open>RWordB\<close> is
  \<^verbatim>\<open>\b\<close>, and \<open>RGroup i r\<close> a capturing group. An optional part \<^verbatim>\<open>r?\<close> is \<open>RAlt r REps\<close>.
\<close>

datatype rx =
    REps
  | RCls "char \<Rightarrow> bool"
  | RSeq rx rx
  | RAlt rx rx
  | RWordB
  | RPlus "char \<Rightarrow> bool"
  | RGroup nat rx

definition ROpt :: "rx \<Rightarrow> rx" where
  "ROpt r = RAlt r REps"

primrec rlit :: "string \<Rightarrow> rx" where
  "rlit [] = REps"
| "rlit (c # w) = RSeq (RCls (\<lambda>x. lower_char x = c)) (rlit w)"

primrec ralts :: "string list \<Rightarrow> rx" where
  "ralts [] = RCls (\<lambda>_. False)"
| "ralts (w # ws) = RAlt (rlit w) (ralts ws)"

text \<open>
  A position in the text is the reversed text before it and the text after it.
\<close>

type_synonym caps = "nat \<Rightarrow> string option"

definition at_boundary :: "string \<Rightarrow> string \<Rightarrow> bool" where
  "at_boundary p s \<longleftrightarrow>
     (case p of [] \<Rightarrow> False | x # _ \<Rightarrow> is_word x) \<noteq> (case s of [] \<Rightarrow> False | y # _ \<Rightarrow> is_word y)"

text \<open>The ends of a greedy repetition, the longest first.\<close>

fun rstar :: "(char \<Rightarrow> bool) \<Rightarrow> string \<Rightarrow> string \<Rightarrow> (string \<times> string) list" where
  "rstar f p [] = [(p, [])]"
| "rstar f p (x # s) = (if f x then rstar f (x # p) s @ [(p, x # s)] else [(p, x # s)])"

primrec rmatch :: "rx \<Rightarrow> string \<Rightarrow> string \<Rightarrow> caps \<Rightarrow> (string \<times> string \<times> caps) list" where
  "rmatch REps p s c = [(p, s, c)]"
| "rmatch (RCls f) p s c = (case s of [] \<Rightarrow> [] | x # s' \<Rightarrow> if f x then [(x # p, s', c)] else [])"
| "rmatch (RSeq a b) p s c = concat (map (\<lambda>(p', s', c'). rmatch b p' s' c') (rmatch a p s c))"
| "rmatch (RAlt a b) p s c = rmatch a p s c @ rmatch b p s c"
| "rmatch RWordB p s c = (if at_boundary p s then [(p, s, c)] else [])"
| "rmatch (RPlus f) p s c =
     (case s of [] \<Rightarrow> []
      | x # s' \<Rightarrow> if f x then map (\<lambda>(p', t). (p', t, c)) (rstar f (x # p) s') else [])"
| "rmatch (RGroup i r) p s c =
     map (\<lambda>(p', s', c'). (p', s', c'(i \<mapsto> take (length s - length s') s))) (rmatch r p s c)"

text \<open>\<^verbatim>\<open>pattern.search(text)\<close>: the groups of the first match at the leftmost position.\<close>

fun rsearch_from :: "rx \<Rightarrow> string \<Rightarrow> string \<Rightarrow> caps option" where
  "rsearch_from r p s =
     (case rmatch r p s Map.empty of
        (_, _, c) # _ \<Rightarrow> Some c
      | [] \<Rightarrow> (case s of [] \<Rightarrow> None | x # s' \<Rightarrow> rsearch_from r (x # p) s'))"

declare rsearch_from.simps [simp del]

definition rsearch :: "rx \<Rightarrow> string \<Rightarrow> caps option" where
  "rsearch r text = rsearch_from r [] text"

section \<open>Declarative semantics\<close>

text \<open>\<open>rx_lang r p w s\<close>: the pattern matches \<open>w\<close> where \<open>p\<close> (reversed) is before it and \<open>s\<close> after it.\<close>

primrec rx_lang :: "rx \<Rightarrow> string \<Rightarrow> string \<Rightarrow> string \<Rightarrow> bool" where
  "rx_lang REps p w s \<longleftrightarrow> w = []"
| "rx_lang (RCls f) p w s \<longleftrightarrow> (\<exists>x. w = [x] \<and> f x)"
| "rx_lang (RSeq a b) p w s \<longleftrightarrow>
     (\<exists>u v. w = u @ v \<and> rx_lang a p u (v @ s) \<and> rx_lang b (rev u @ p) v s)"
| "rx_lang (RAlt a b) p w s \<longleftrightarrow> rx_lang a p w s \<or> rx_lang b p w s"
| "rx_lang RWordB p w s \<longleftrightarrow> w = [] \<and> at_boundary p s"
| "rx_lang (RPlus f) p w s \<longleftrightarrow> w \<noteq> [] \<and> list_all f w"
| "rx_lang (RGroup i r) p w s \<longleftrightarrow> rx_lang r p w s"

lemma rstar_iff:
  "(p', s') \<in> set (rstar f p t) \<longleftrightarrow> (\<exists>w. t = w @ s' \<and> p' = rev w @ p \<and> list_all f w)"
proof (induction f p t rule: rstar.induct)
  case (1 f p)
  then show ?case by auto
next
  case (2 f p x s)
  have "(\<exists>w. x # s = w @ s' \<and> p' = rev w @ p \<and> list_all f w) \<longleftrightarrow>
      (s' = x # s \<and> p' = p) \<or> f x \<and> (\<exists>w. s = w @ s' \<and> p' = rev w @ x # p \<and> list_all f w)"
    by (auto simp: Cons_eq_append_conv)
  with 2 show ?case by auto
qed

lemma rmatch_iff:
  "(\<exists>c'. (p', s', c') \<in> set (rmatch r p t c)) \<longleftrightarrow>
     (\<exists>w. t = w @ s' \<and> p' = rev w @ p \<and> rx_lang r p w s')"
proof (induction r arbitrary: p t c p' s')
  case (RCls f)
  show ?case by (cases t) (auto simp: Cons_eq_append_conv)
next
  case (RSeq a b)
  have "(\<exists>c'. (p', s', c') \<in> set (rmatch (RSeq a b) p t c)) \<longleftrightarrow>
      (\<exists>p1 s1 c1. (p1, s1, c1) \<in> set (rmatch a p t c)
         \<and> (\<exists>c'. (p', s', c') \<in> set (rmatch b p1 s1 c1)))"
    by force
  also have "\<dots> \<longleftrightarrow>
      (\<exists>p1 s1. (\<exists>c1. (p1, s1, c1) \<in> set (rmatch a p t c))
         \<and> (\<exists>v. s1 = v @ s' \<and> p' = rev v @ p1 \<and> rx_lang b p1 v s'))"
    by (simp only: RSeq.IH(2)) blast
  also have "\<dots> \<longleftrightarrow>
      (\<exists>w. t = w @ s' \<and> p' = rev w @ p \<and> rx_lang (RSeq a b) p w s')"
    by (simp only: RSeq.IH(1) rx_lang.simps) (auto, blast, metis append.assoc rev_append)
  finally show ?case .
next
  case (RAlt a b)
  then show ?case by (simp add: ex_disj_distrib conj_disj_distribL)
next
  case (RPlus f)
  show ?case
  proof (cases t)
    case Nil
    then show ?thesis by simp
  next
    case (Cons x s)
    have "(\<exists>c'. (p', s', c') \<in> set (rmatch (RPlus f) p (x # s) c)) \<longleftrightarrow>
        f x \<and> (p', s') \<in> set (rstar f (x # p) s)"
      by force
    also have "\<dots> \<longleftrightarrow> (\<exists>w. x # s = w @ s' \<and> p' = rev w @ p \<and> w \<noteq> [] \<and> list_all f w)"
      by (auto simp: rstar_iff Cons_eq_append_conv)
    finally show ?thesis using Cons by simp
  qed
next
  case (RGroup i r)
  have "(\<exists>c'. (p', s', c') \<in> set (rmatch (RGroup i r) p t c)) \<longleftrightarrow>
      (\<exists>c'. (p', s', c') \<in> set (rmatch r p t c))"
    by force
  then show ?case using RGroup.IH by simp
qed auto

text \<open>The search finds something exactly when some part of the text matches.\<close>

lemma rmatch_Nil_iff: "rmatch r p t c = [] \<longleftrightarrow> \<not> (\<exists>w s. t = w @ s \<and> rx_lang r p w s)"
proof -
  have "rmatch r p t c = [] \<longleftrightarrow> \<not> (\<exists>p' s' c'. (p', s', c') \<in> set (rmatch r p t c))"
    by (cases "rmatch r p t c") auto
  then show ?thesis using rmatch_iff by blast
qed

lemma split_start:
  "(\<exists>a w t. x # s = a @ w @ t \<and> Q (rev a @ p) w t) \<longleftrightarrow>
     (\<exists>w t. x # s = w @ t \<and> Q p w t) \<or> (\<exists>a w t. s = a @ w @ t \<and> Q (rev a @ x # p) w t)"
  (is "?L \<longleftrightarrow> ?N \<or> ?C")
proof
  assume ?L
  then obtain a w t where "x # s = a @ w @ t" "Q (rev a @ p) w t" by blast
  then show "?N \<or> ?C" by (cases a) auto
next
  assume "?N \<or> ?C"
  then show ?L
  proof
    assume ?N
    then obtain w t where "x # s = [] @ w @ t \<and> Q (rev [] @ p) w t" by auto
    then show ?L by blast
  next
    assume ?C
    then obtain a w t where "x # s = (x # a) @ w @ t \<and> Q (rev (x # a) @ p) w t" by auto
    then show ?L by blast
  qed
qed

lemma rsearch_from_None_iff:
  "rsearch_from r p t = None \<longleftrightarrow> \<not> (\<exists>a w s. t = a @ w @ s \<and> rx_lang r (rev a @ p) w s)"
proof (induction r p t rule: rsearch_from.induct)
  case (1 r p s)
  show ?case
  proof (cases "rmatch r p s Map.empty")
    case (Cons m ms)
    then obtain w t where "s = [] @ w @ t \<and> rx_lang r (rev [] @ p) w t"
      using rmatch_Nil_iff [of r p s Map.empty] by auto
    moreover have "rsearch_from r p s \<noteq> None"
      using Cons by (simp add: rsearch_from.simps [of r p s] split: prod.splits)
    ultimately show ?thesis by blast
  next
    case Nil
    then have no: "\<not> (\<exists>w t. s = w @ t \<and> rx_lang r p w t)"
      using rmatch_Nil_iff by blast
    show ?thesis
    proof (cases s)
      case Nil
      then show ?thesis
        using no \<open>rmatch r p s Map.empty = []\<close>
        by (simp add: rsearch_from.simps [of r p "[]"])
    next
      case (Cons x s')
      then have "rsearch_from r p s = None \<longleftrightarrow>
          \<not> (\<exists>a w t. s' = a @ w @ t \<and> rx_lang r (rev a @ x # p) w t)"
        using "1.IH" Nil by (simp add: rsearch_from.simps [of r p "x # s'"])
      also have "\<dots> \<longleftrightarrow> \<not> (\<exists>a w t. s = a @ w @ t \<and> rx_lang r (rev a @ p) w t)"
        using no Cons split_start [of x s' "rx_lang r" p] by simp
      finally show ?thesis .
    qed
  qed
qed

lemma rsearch_None_iff:
  "rsearch r t = None \<longleftrightarrow> \<not> (\<exists>a w s. t = a @ w @ s \<and> rx_lang r (rev a) w s)"
  by (simp add: rsearch_def rsearch_from_None_iff)

text \<open>The text of a group matches the pattern of the group.\<close>

primrec groups :: "rx \<Rightarrow> (nat \<times> rx) list" where
  "groups REps = []"
| "groups (RCls f) = []"
| "groups (RSeq a b) = groups a @ groups b"
| "groups (RAlt a b) = groups a @ groups b"
| "groups RWordB = []"
| "groups (RPlus f) = []"
| "groups (RGroup i r) = (i, r) # groups r"

text \<open>The groups that take part in every match.\<close>

primrec sure_groups :: "rx \<Rightarrow> nat list" where
  "sure_groups REps = []"
| "sure_groups (RCls f) = []"
| "sure_groups (RSeq a b) = sure_groups a @ sure_groups b"
| "sure_groups (RAlt a b) = filter (\<lambda>i. i \<in> set (sure_groups b)) (sure_groups a)"
| "sure_groups RWordB = []"
| "sure_groups (RPlus f) = []"
| "sure_groups (RGroup i r) = i # sure_groups r"

definition caps_ok :: "(nat \<times> rx) set \<Rightarrow> caps \<Rightarrow> bool" where
  "caps_ok G c \<longleftrightarrow> (\<forall>i w. c i = Some w \<longrightarrow> (\<exists>r p s. (i, r) \<in> G \<and> rx_lang r p w s))"

lemma rmatch_caps_ok:
  assumes "(p', s', c') \<in> set (rmatch r p t c)" "caps_ok G c" "set (groups r) \<subseteq> G"
  shows "caps_ok G c'"
  using assms
proof (induction r arbitrary: p t c p' s' c')
  case (RSeq a b)
  then obtain p1 s1 c1 where
    "(p1, s1, c1) \<in> set (rmatch a p t c)" "(p', s', c') \<in> set (rmatch b p1 s1 c1)"
    by auto
  then show ?case using RSeq by simp
next
  case (RGroup i r)
  then obtain c1 where c1: "(p', s', c1) \<in> set (rmatch r p t c)"
    and c': "c' = c1(i \<mapsto> take (length t - length s') t)"
    by auto
  from c1 obtain w where w: "t = w @ s'" "rx_lang r p w s'" using rmatch_iff by blast
  have "caps_ok G c1" using RGroup.IH [OF c1 RGroup.prems(2)] RGroup.prems(3) by simp
  then show ?case using c' w RGroup.prems(3) unfolding caps_ok_def by auto
qed (auto split: list.splits if_splits)

lemma rmatch_caps_sure:
  assumes "(p', s', c') \<in> set (rmatch r p t c)"
  shows "(\<forall>i. c i \<noteq> None \<longrightarrow> c' i \<noteq> None) \<and> (\<forall>i \<in> set (sure_groups r). c' i \<noteq> None)"
  using assms
proof (induction r arbitrary: p t c p' s' c')
  case (RSeq a b)
  then obtain p1 s1 c1 where
    "(p1, s1, c1) \<in> set (rmatch a p t c)" "(p', s', c') \<in> set (rmatch b p1 s1 c1)"
    by auto
  then show ?case using RSeq.IH by (metis Un_iff set_append sure_groups.simps(3))
next
  case (RAlt a b)
  then show ?case by auto
next
  case (RGroup i r)
  then obtain c1 where c1: "(p', s', c1) \<in> set (rmatch r p t c)"
    and c': "c' = c1(i \<mapsto> take (length t - length s') t)"
    by auto
  then show ?case using RGroup.IH [OF c1] by simp
qed (auto split: list.splits if_splits)

lemma rsearch_from_Some:
  "rsearch_from r p t = Some c \<Longrightarrow> \<exists>p0 t0 p' s'. (p', s', c) \<in> set (rmatch r p0 t0 Map.empty)"
proof (induction r p t rule: rsearch_from.induct)
  case (1 r p s)
  show ?case
  proof (cases "rmatch r p s Map.empty")
    case (Cons m ms)
    moreover obtain p' s' c' where "m = (p', s', c')" by (cases m)
    ultimately have "(p', s', c) \<in> set (rmatch r p s Map.empty)"
      using "1.prems" by (simp add: rsearch_from.simps [of r p s])
    then show ?thesis by blast
  next
    case Nil
    then show ?thesis
      using "1.prems" "1.IH" by (auto simp: rsearch_from.simps [of r p s] split: list.splits)
  qed
qed

lemma rsearch_group:
  assumes "rsearch r t = Some c" "c i = Some w"
  shows "\<exists>g p s. (i, g) \<in> set (groups r) \<and> rx_lang g p w s"
proof -
  obtain p0 t0 p' s' where "(p', s', c) \<in> set (rmatch r p0 t0 Map.empty)"
    using rsearch_from_Some assms(1) unfolding rsearch_def by blast
  then have "caps_ok (set (groups r)) c"
    by (rule rmatch_caps_ok) (simp_all add: caps_ok_def)
  then show ?thesis using assms(2) by (auto simp: caps_ok_def)
qed

lemma rsearch_sure_group:
  assumes "rsearch r t = Some c" "i \<in> set (sure_groups r)"
  obtains w where "c i = Some w"
proof -
  obtain p0 t0 p' s' where "(p', s', c) \<in> set (rmatch r p0 t0 Map.empty)"
    using rsearch_from_Some assms(1) unfolding rsearch_def by blast
  then show ?thesis using rmatch_caps_sure assms(2) that by blast
qed

text \<open>A group is a part of the text.\<close>

lemma rmatch_caps_length:
  assumes "(p', s', c') \<in> set (rmatch r p t c)" "\<forall>i w. c i = Some w \<longrightarrow> length w \<le> n" "length t \<le> n"
  shows "\<forall>i w. c' i = Some w \<longrightarrow> length w \<le> n"
  using assms
proof (induction r arbitrary: p t c p' s' c')
  case (RSeq a b)
  then obtain p1 s1 c1 where 1: "(p1, s1, c1) \<in> set (rmatch a p t c)"
    and 2: "(p', s', c') \<in> set (rmatch b p1 s1 c1)"
    by auto
  have "\<exists>w. t = w @ s1" using 1 rmatch_iff by blast
  then have len: "length s1 \<le> n" using RSeq.prems(3) by auto
  show ?case by (rule RSeq.IH(2) [OF 2 RSeq.IH(1) [OF 1 RSeq.prems(2,3)] len])
next
  case (RGroup i r)
  then obtain c1 where c1: "(p', s', c1) \<in> set (rmatch r p t c)"
    and c': "c' = c1(i \<mapsto> take (length t - length s') t)"
    by auto
  show ?case using RGroup.IH [OF c1 RGroup.prems(2,3)] RGroup.prems(3) by (simp add: c')
next
  case (RAlt a b)
  then consider "(p', s', c') \<in> set (rmatch a p t c)" | "(p', s', c') \<in> set (rmatch b p t c)"
    by auto
  then show ?case
    by cases (rule RAlt.IH(1) [OF _ RAlt.prems(2,3)] RAlt.IH(2) [OF _ RAlt.prems(2,3)], assumption)+
qed (auto split: list.splits if_splits)

lemma rsearch_from_group_length:
  "rsearch_from r p t = Some c \<Longrightarrow> c i = Some w \<Longrightarrow> length w \<le> length t"
proof (induction r p t rule: rsearch_from.induct)
  case (1 r p s)
  show ?case
  proof (cases "rmatch r p s Map.empty")
    case (Cons m ms)
    moreover obtain p' s' c' where "m = (p', s', c')" by (cases m)
    ultimately have "(p', s', c) \<in> set (rmatch r p s Map.empty)"
      using "1.prems" by (simp add: rsearch_from.simps [of r p s])
    from rmatch_caps_length [OF this, of "length s"] show ?thesis using "1.prems"(2) by simp
  next
    case Nil
    show ?thesis
    proof (cases s)
      case Nil
      then show ?thesis
        using "1.prems" \<open>rmatch r p s Map.empty = []\<close>
        by (simp add: rsearch_from.simps [of r p "[]"])
    next
      case (Cons x s')
      then have "rsearch_from r (x # p) s' = Some c"
        using "1.prems" Nil by (simp add: rsearch_from.simps [of r p "x # s'"])
      then have "length w \<le> length s'" using "1.IH" [OF Nil Cons] "1.prems"(2) by blast
      then show ?thesis using Cons by simp
    qed
  qed
qed

lemma rsearch_group_length: "rsearch r t = Some c \<Longrightarrow> c i = Some w \<Longrightarrow> length w \<le> length t"
  unfolding rsearch_def by (rule rsearch_from_group_length)

section \<open>Words and numbers\<close>

lemma length_py_lower [simp]: "length (py_lower s) = length s"
  by (simp add: py_lower_def)

lemma rx_lang_RSeq_RCls:
  "rx_lang (RSeq (RCls f) r) p w s \<longleftrightarrow> (\<exists>x v. w = x # v \<and> f x \<and> rx_lang r (x # p) v s)"
proof
  assume "\<exists>x v. w = x # v \<and> f x \<and> rx_lang r (x # p) v s"
  then obtain x v where
    "w = [x] @ v \<and> rx_lang (RCls f) p [x] (v @ s) \<and> rx_lang r (rev [x] @ p) v s"
    by auto
  then show "rx_lang (RSeq (RCls f) r) p w s" unfolding rx_lang.simps(3) by blast
qed auto

lemma rx_lang_rlit: "rx_lang (rlit w) p v s \<longleftrightarrow> py_lower v = w"
proof (induction w arbitrary: p v)
  case Nil
  then show ?case by (simp add: py_lower_def)
next
  case (Cons c w)
  then show ?case
    unfolding rlit.simps rx_lang_RSeq_RCls by (cases v) (auto simp: py_lower_def)
qed

lemma rx_lang_ralts: "rx_lang (ralts ws) p v s \<longleftrightarrow> py_lower v \<in> set ws"
  by (induction ws) (auto simp: rx_lang_rlit)

lemma groups_rlit [simp]: "groups (rlit w) = []"
  by (induction w) simp_all

lemma groups_ralts [simp]: "groups (ralts ws) = []"
  by (induction ws) simp_all

lemma sure_groups_rlit [simp]: "sure_groups (rlit w) = []"
  by (induction w) simp_all

text \<open>A word of \<open>ws\<close> stands in the text, delimited by word boundaries, in any letter case.\<close>

definition has_word :: "string list \<Rightarrow> string \<Rightarrow> bool" where
  "has_word ws t \<longleftrightarrow>
     (\<exists>a w s. t = a @ w @ s \<and> py_lower w \<in> set ws
        \<and> at_boundary (rev a) (w @ s) \<and> at_boundary (rev w @ rev a) s)"

definition word_pattern :: "string list \<Rightarrow> rx" where
  "word_pattern ws = RSeq RWordB (RSeq (RGroup 1 (ralts ws)) RWordB)"

lemma rsearch_word_pattern: "rsearch (word_pattern ws) t \<noteq> None \<longleftrightarrow> has_word ws t"
proof -
  have "rx_lang (word_pattern ws) p w s \<longleftrightarrow>
      py_lower w \<in> set ws \<and> at_boundary p (w @ s) \<and> at_boundary (rev w @ p) s" for p w s
    by (auto simp: word_pattern_def rx_lang_ralts)
  then show ?thesis by (auto simp: rsearch_None_iff has_word_def)
qed

lemma decimal_val_range: "is_decimal c \<Longrightarrow> 0 \<le> decimal_val c \<and> decimal_val c \<le> 9"
  by (simp add: is_decimal_def decimal_val_def)

lemma foldl_decimal_nonneg:
  "list_all is_decimal s \<Longrightarrow> 0 \<le> n \<Longrightarrow> 0 \<le> foldl (\<lambda>n c. n * 10 + decimal_val c) n s"
  by (induction s arbitrary: n) (use decimal_val_range in auto)

lemma py_int_nonneg: "list_all is_decimal s \<Longrightarrow> 0 \<le> py_int s"
  unfolding py_int_def by (rule foldl_decimal_nonneg) simp_all

end
