(* ===== verification/Py_Text.thy ===== *)
theory Py_Text
  imports Py_Regex Py_Isoformat "HOL-Library.Word"
begin

text \<open>
  The rest of what the program uses of Python's \<^verbatim>\<open>str\<close>, and \<^verbatim>\<open>uuid.UUID\<close>: replacement of a
  part, stripping, \<^verbatim>\<open>int(s, 16)\<close>, and a UUID as the 128-bit integer that it is, with its text
  form and the parser of that form.
\<close>

section \<open>Parts of a text\<close>

fun is_prefix :: "string \<Rightarrow> string \<Rightarrow> bool" where
  "is_prefix [] s = True"
| "is_prefix (c # w) [] = False"
| "is_prefix (c # w) (x # s) = (c = x \<and> is_prefix w s)"

fun contains :: "string \<Rightarrow> string \<Rightarrow> bool" where
  "contains w [] = (w = [])"
| "contains w (x # s) = (is_prefix w (x # s) \<or> contains w s)"

text \<open>\<^verbatim>\<open>s.replace(old, new)\<close> for a non-empty \<open>old\<close>: leftmost occurrences that do not overlap.\<close>

function py_replace :: "string \<Rightarrow> string \<Rightarrow> string \<Rightarrow> string" where
  "py_replace old new s =
     (if old \<noteq> [] \<and> s \<noteq> [] \<and> is_prefix old s then new @ py_replace old new (drop (length old) s)
      else case s of [] \<Rightarrow> [] | c # s' \<Rightarrow> c # py_replace old new s')"
  by pat_completeness auto
termination
  by (relation "measure (\<lambda>(old, new, s). length s)") auto

declare py_replace.simps [simp del]

text \<open>\<^verbatim>\<open>s.strip()\<close> of the characters in a class\<close>

definition strip_chars :: "(char \<Rightarrow> bool) \<Rightarrow> string \<Rightarrow> string" where
  "strip_chars f s = rev (dropWhile f (rev (dropWhile f s)))"

definition py_strip :: "string \<Rightarrow> string" where
  "py_strip s = strip_chars is_space s"

lemma is_prefix_iff: "is_prefix w s \<longleftrightarrow> (\<exists>t. s = w @ t)"
  by (induction w s rule: is_prefix.induct) auto

lemma contains_iff: "contains w s \<longleftrightarrow> (\<exists>a t. s = a @ w @ t)"
proof (induction w s rule: contains.induct)
  case (1 w)
  then show ?case by auto
next
  case (2 w x s)
  have "(\<exists>a t. x # s = a @ w @ t) \<longleftrightarrow> (\<exists>t. x # s = w @ t) \<or> (\<exists>a t. s = a @ w @ t)"
    (is "?L \<longleftrightarrow> ?N \<or> ?C")
  proof
    assume ?L
    then obtain a t where "x # s = a @ w @ t" by blast
    then show "?N \<or> ?C" by (cases a) auto
  next
    assume "?N \<or> ?C"
    then show ?L by (metis append_Cons append_Nil)
  qed
  with 2 show ?case by (simp add: is_prefix_iff)
qed

lemma py_replace_absent:
  assumes "c \<notin> set s"
  shows "py_replace (c # old) new s = s"
  using assms
proof (induction s)
  case Nil
  then show ?case by (simp add: py_replace.simps)
next
  case (Cons x s)
  then show ?case by (simp add: py_replace.simps [of "c # old" new "x # s"])
qed

lemma py_replace_char: "py_replace [c] new s = concat (map (\<lambda>x. if x = c then new else [x]) s)"
proof (induction s)
  case Nil
  then show ?case by (simp add: py_replace.simps)
next
  case (Cons x s)
  then show ?case by (auto simp: py_replace.simps [of "[c]" new "x # s"])
qed

lemma dropWhile_none: "\<forall>x \<in> set s. \<not> f x \<Longrightarrow> dropWhile f s = s"
  by (cases s) simp_all

lemma strip_chars_none: "\<forall>x \<in> set s. \<not> f x \<Longrightarrow> strip_chars f s = s"
  by (simp add: strip_chars_def dropWhile_none)

section \<open>Hexadecimal numbers\<close>

definition hex_char :: "int \<Rightarrow> char" where
  "hex_char d = (if d < 10 then char_of (48 + d) else char_of (87 + d))"

definition hex_val :: "char \<Rightarrow> int option" where
  "hex_val c =
     (let n = code c
      in if 48 \<le> n \<and> n \<le> 57 then Some (n - 48)
         else if 65 \<le> n \<and> n \<le> 70 then Some (n - 55)
         else if 97 \<le> n \<and> n \<le> 102 then Some (n - 87) else None)"

fun hex_pad :: "nat \<Rightarrow> int \<Rightarrow> string" where
  "hex_pad 0 n = []"
| "hex_pad (Suc k) n = hex_pad k (n div 16) @ [hex_char (n mod 16)]"

text \<open>\<^verbatim>\<open>int(s, 16)\<close>: white space around, a sign, a prefix \<open>0x\<close>, single underscores between digits.\<close>

fun hex_digits :: "int \<Rightarrow> string \<Rightarrow> int option" where
  "hex_digits acc [] = Some acc"
| "hex_digits acc (c # s) =
     (case hex_val c of
        Some d \<Rightarrow> hex_digits (acc * 16 + d) s
      | None \<Rightarrow>
          (case s of
             [] \<Rightarrow> None
           | x # s' \<Rightarrow>
               if c = CHR ''_'' then
                 (case hex_val x of None \<Rightarrow> None | Some d \<Rightarrow> hex_digits (acc * 16 + d) s')
               else None))"

definition drop_0x :: "string \<Rightarrow> string" where
  "drop_0x s =
     (if is_prefix ''0x'' s \<or> is_prefix ''0X'' s
      then (if is_prefix ''_'' (drop 2 s) then drop 3 s else drop 2 s) else s)"

definition unsigned_int16 :: "string \<Rightarrow> int option" where
  "unsigned_int16 s =
     (case drop_0x s of
        [] \<Rightarrow> None
      | c # t \<Rightarrow> (case hex_val c of None \<Rightarrow> None | Some d \<Rightarrow> hex_digits d t))"

definition py_int16 :: "string \<Rightarrow> int option" where
  "py_int16 s =
     (case py_strip s of
        [] \<Rightarrow> None
      | c # t \<Rightarrow>
          if c = CHR ''-'' then map_option uminus (unsigned_int16 t)
          else if c = CHR ''+'' then unsigned_int16 t
          else unsigned_int16 (c # t))"

lemma code_hex_char: "0 \<le> d \<Longrightarrow> d < 16 \<Longrightarrow> code (hex_char d) = (if d < 10 then 48 + d else 87 + d)"
  by (simp add: code_def hex_char_def)

lemma hex_val_char [simp]: "0 \<le> d \<Longrightarrow> d < 16 \<Longrightarrow> hex_val (hex_char d) = Some d"
  by (simp add: hex_val_def code_hex_char)

lemma hex_digits_append:
  "hex_digits acc (hex_pad k n @ s) = hex_digits (acc * 16 ^ k + n mod 16 ^ k) s"
proof (induction k arbitrary: n s)
  case 0
  then show ?case by simp
next
  case (Suc k)
  have "(n div 16) mod 16 ^ k * 16 + n mod 16 = n mod 16 ^ Suc k"
    using zmod_zmult2_eq [of "16 ^ k" n 16] by (simp add: mult.commute)
  then have key: "(acc * 16 ^ k + (n div 16) mod 16 ^ k) * 16 + n mod 16
      = acc * 16 ^ Suc k + n mod 16 ^ Suc k"
    by (simp add: algebra_simps)
  have "hex_digits acc (hex_pad (Suc k) n @ s)
      = hex_digits ((acc * 16 ^ k + (n div 16) mod 16 ^ k) * 16 + n mod 16) s"
    using Suc by simp
  then show ?case by (simp only: key)
qed

lemma hex_pad_chars: "c \<in> set (hex_pad k n) \<Longrightarrow> \<exists>d. 0 \<le> d \<and> d < 16 \<and> c = hex_char d"
  by (induction k arbitrary: n) (auto intro: exI [of _ "_ mod 16"])

lemma length_hex_pad [simp]: "length (hex_pad k n) = k"
  by (induction k arbitrary: n) simp_all

text \<open>\<^verbatim>\<open>repr(s)\<close>, for the characters of the first 256 code points\<close>

definition repr_char :: "char \<Rightarrow> char \<Rightarrow> string" where
  "repr_char q c =
     (let n = code c
      in if c = q \<or> c = CHR 0x5C then [CHR 0x5C, c]
         else if n = 9 then [CHR 0x5C, CHR ''t'']
         else if n = 10 then [CHR 0x5C, CHR ''n'']
         else if n = 13 then [CHR 0x5C, CHR ''r'']
         else if n < 32 \<or> 127 \<le> n \<and> n \<le> 160 \<or> n = 173 then [CHR 0x5C, CHR ''x''] @ hex_pad 2 n
         else [c])"

definition py_repr :: "string \<Rightarrow> string" where
  "py_repr s =
     (let q = (if CHR 0x27 \<in> set s \<and> CHR 0x22 \<notin> set s then CHR 0x22 else CHR 0x27)
      in [q] @ concat (map (repr_char q) s) @ [q])"

text \<open>\<^verbatim>\<open>str(n)\<close> of an integer\<close>

fun nat_str :: "nat \<Rightarrow> string" where
  "nat_str n = (if n < 10 then [char_of (48 + n)] else nat_str (n div 10) @ [char_of (48 + n mod 10)])"

declare nat_str.simps [simp del]

definition int_str :: "int \<Rightarrow> string" where
  "int_str n = (if n < 0 then ''-'' @ nat_str (nat (- n)) else nat_str (nat n))"

section \<open>UUIDs\<close>

type_synonym uuid = "128 word"

text \<open>\<^verbatim>\<open>str(uuid)\<close> and \<^verbatim>\<open>UUID(hex)\<close>\<close>

definition uuid_str :: "uuid \<Rightarrow> string" where
  "uuid_str u =
     (let h = hex_pad 32 (uint u)
      in take 8 h @ ''-'' @ take 4 (drop 8 h) @ ''-'' @ take 4 (drop 12 h) @ ''-''
         @ take 4 (drop 16 h) @ ''-'' @ drop 20 h)"

definition uuid_parse :: "string \<Rightarrow> uuid result" where
  "uuid_parse s =
     (let h0 = py_replace ''uuid:'' '''' (py_replace ''urn:'' '''' s);
          h = py_replace ''-'' '''' (strip_chars (\<lambda>c. c = CHR ''{'' \<or> c = CHR ''}'') h0)
      in if length h \<noteq> 32 then Inl (ValueError ''badly formed hexadecimal UUID string'')
         else case py_int16 h of
           None \<Rightarrow> Inl (ValueError ''invalid literal for int() with base 16'')
         | Some n \<Rightarrow>
             if 0 \<le> n \<and> n < 2 ^ 128 then Inr (word_of_int n)
             else Inl (ValueError ''int is out of range (need a 128-bit value)''))"

text \<open>A hexadecimal digit is none of the characters that the parser treats in a special way.\<close>

lemma hex_char_plain:
  assumes "0 \<le> d" "d < 16"
  shows "hex_char d \<noteq> CHR ''-''" "hex_char d \<noteq> CHR ''+''" "hex_char d \<noteq> CHR ''u''"
    "hex_char d \<noteq> CHR ''{''" "hex_char d \<noteq> CHR ''}''" "hex_char d \<noteq> CHR ''x''"
    "hex_char d \<noteq> CHR ''X''" "\<not> is_space (hex_char d)"
proof -
  have c: "code (hex_char d) = (if d < 10 then 48 + d else 87 + d)"
    using assms by (rule code_hex_char)
  show "hex_char d \<noteq> CHR ''-''" "hex_char d \<noteq> CHR ''+''" "hex_char d \<noteq> CHR ''u''"
    "hex_char d \<noteq> CHR ''{''" "hex_char d \<noteq> CHR ''}''" "hex_char d \<noteq> CHR ''x''"
    "hex_char d \<noteq> CHR ''X''"
    using c assms by (auto simp: code_def split: if_splits dest!: arg_cong [of _ _ code])
  show "\<not> is_space (hex_char d)"
    using c assms by (auto simp: is_space_def split: if_splits)
qed

lemma hex_pad_plain:
  assumes "c \<in> set (hex_pad k n)"
  shows "c \<noteq> CHR ''-''" "c \<noteq> CHR ''+''" "c \<noteq> CHR ''u''" "c \<noteq> CHR ''{''" "c \<noteq> CHR ''}''"
    "c \<noteq> CHR ''x''" "c \<noteq> CHR ''X''" "\<not> is_space c"
  using hex_pad_chars [OF assms] hex_char_plain by metis+

lemma hex_pad_free:
  "CHR ''-'' \<notin> set (hex_pad k n)" "CHR ''+'' \<notin> set (hex_pad k n)"
  "CHR ''x'' \<notin> set (hex_pad k n)" "CHR ''X'' \<notin> set (hex_pad k n)"
  "\<forall>c \<in> set (hex_pad k n). \<not> is_space c"
  by (auto dest: hex_pad_plain)

lemma concat_keep: "c \<notin> set s \<Longrightarrow> concat (map (\<lambda>x. if x = c then new else [x]) s) = s"
  by (induction s) auto

lemma drop_0x_none: "CHR ''x'' \<notin> set s \<Longrightarrow> CHR ''X'' \<notin> set s \<Longrightarrow> drop_0x s = s"
  by (auto simp: drop_0x_def is_prefix_iff)

lemma py_int16_hex_pad: "py_int16 (hex_pad (Suc k) n) = Some (n mod 16 ^ Suc k)"
proof -
  let ?h = "hex_pad (Suc k) n"
  have plain: "CHR ''x'' \<notin> set ?h" "CHR ''X'' \<notin> set ?h" "CHR ''-'' \<notin> set ?h" "CHR ''+'' \<notin> set ?h"
    "\<forall>x \<in> set ?h. \<not> is_space x"
    by (rule hex_pad_free)+
  obtain c t where ct: "?h = c # t" by (cases ?h) simp_all
  then obtain d where d: "0 \<le> d" "d < 16" "c = hex_char d"
    using hex_pad_chars [of c "Suc k" n] by auto
  have "hex_digits 0 (c # t) = Some (n mod 16 ^ Suc k)"
    using hex_digits_append [of 0 "Suc k" n "[]"] ct by simp
  then have "hex_digits d t = Some (n mod 16 ^ Suc k)" using d by simp
  moreover have "c \<noteq> CHR ''-''" "c \<noteq> CHR ''+''" using plain(3,4) unfolding ct by auto
  moreover have "py_strip ?h = c # t" 
    using strip_chars_none [OF plain(5)] unfolding ct py_strip_def .
  moreover have "drop_0x (c # t) = c # t" using plain(1,2) ct drop_0x_none by metis
  ultimately show ?thesis using d by (simp add: py_int16_def unsigned_int16_def)
qed

lemma take_take_drop: "take i xs @ take j (drop i xs) @ ys = take (i + j) xs @ ys"
  by (simp add: take_add)

lemma uuid_parse_str: "uuid_parse (uuid_str u) = Inr u"
proof -
  let ?h = "hex_pad 32 (uint u)"
  let ?s = "uuid_str u"
  have member: "x \<in> set ?s \<Longrightarrow> x = CHR ''-'' \<or> x \<in> set ?h" for x
    by (auto simp: uuid_str_def Let_def dest: in_set_dropD in_set_takeD)
  have u: "CHR ''u'' \<notin> set ?s" and braces: "\<forall>x \<in> set ?s. \<not> (x = CHR ''{'' \<or> x = CHR ''}'')"
    using member hex_pad_plain(3,4,5) by fastforce+
  have dash: "CHR ''-'' \<notin> set ?h" by (rule hex_pad_free)
  have piece: "CHR ''-'' \<notin> set (take i ?h)" "CHR ''-'' \<notin> set (take i (drop j ?h))"
      "CHR ''-'' \<notin> set (drop j ?h)" for i j
    using dash by (auto dest: in_set_dropD in_set_takeD)
  have glue: "take 8 xs @ take 4 (drop 8 xs) @ take 4 (drop 12 xs) @ take 4 (drop 16 xs) @ drop 20 xs = xs"
    for xs :: string
  proof -
    have "take 8 xs @ take 4 (drop 8 xs) @ ys = take 12 xs @ ys"
      "take 12 xs @ take 4 (drop 12 xs) @ ys = take 16 xs @ ys"
      "take 16 xs @ take 4 (drop 16 xs) @ ys = take 20 xs @ ys" for ys
      using take_take_drop [of 8 xs 4 ys] take_take_drop [of 12 xs 4 ys] take_take_drop [of 16 xs 4 ys]
      by (simp_all only: arith_simps)
    then show ?thesis by (simp only: append_take_drop_id)
  qed
  have "py_replace ''-'' '''' ?s = ?h"
    by (simp only: py_replace_char uuid_str_def Let_def map_append concat_append concat_keep piece
        not_False_eq_True) (simp add: glue)
  moreover have "py_replace ''urn:'' '''' ?s = ?s" "py_replace ''uuid:'' '''' ?s = ?s"
    using u py_replace_absent by blast+
  moreover have "uint u mod 16 ^ 32 = uint u"
    using uint_lt2p [of u] by simp
  moreover have "py_int16 ?h = Some (uint u mod 16 ^ 32)"
    using py_int16_hex_pad [of 31 "uint u"] by (simp only: numeral_eq_Suc pred_numeral_simps arith_simps)
  moreover have "0 \<le> uint u" "uint u < 2 ^ 128" using uint_lt2p [of u] by simp_all
  ultimately show ?thesis
    using strip_chars_none [OF braces] by (simp add: uuid_parse_def)
qed

interpretation uuid_text: codec uuid_str uuid_parse "\<lambda>_. True" id
  by unfold_locales (simp_all add: uuid_parse_str)

lemma uuid_str_inject: "uuid_str u = uuid_str v \<longleftrightarrow> u = v"
  using uuid_text.enc_determines [of u v] by auto

end
