(* ===== verification/Models.thy ===== *)
theory Models
  imports Schemas Py_Text
begin

text \<open>
  The rows of the two tables, \<^verbatim>\<open>app/db/models/\<close>: one field per column, the user id of the
  mixin \<^verbatim>\<open>UserOwned\<close> among them. A nullable column is an option; an enumeration is stored as
  its text; a dictionary column is the association list of its items.
\<close>

record scheduled_task =
  t_id :: uuid
  t_user_id :: string
  t_webhook_url :: string
  t_parameters :: "(string \<times> string) list"
  t_trigger_type :: string
  t_trigger_config :: dict
  t_next_run_at :: "datetime option"
  t_is_active :: bool
  t_created_at :: datetime
  t_updated_at :: datetime

record task_history =
  h_id :: uuid
  h_user_id :: string
  h_task_id :: uuid
  h_event_type :: string
  h_webhook_url :: "string option"
  h_trigger_type :: "string option"
  h_cron_expression :: "string option"
  h_cron_timezone :: "string option"
  h_interval_seconds :: "int option"
  h_once_run_at :: "datetime option"
  h_execution_source :: "string option"
  h_http_status :: "int option"
  h_error_message :: "string option"
  h_success :: "bool option"
  h_created_at :: datetime

end
