(* ===== verification/Store.thy ===== *)
theory Store
  imports Models
begin

text \<open>
  The database as the program sees it: the two tables with the constraints, the row security
  policies and the trigger that the migrations under \<^verbatim>\<open>alembic/versions/\<close> define, the session
  settings of \<^verbatim>\<open>app/db/rls.py\<close> and \<^verbatim>\<open>app/db/dependencies.py\<close>, and the row scope that
  \<^verbatim>\<open>app/db/scope.py\<close> adds to every query of a session.

  A session collects its writes; a flush tries them and a commit applies them to the database,
  all of them or none. The time that the database writes into a row is the argument \<open>now\<close>, the
  start of the transaction.
\<close>

section \<open>Tables\<close>

record db =
  db_tasks :: "scheduled_task list"
  db_history :: "task_history list"

text \<open>The range of an \<^verbatim>\<open>INTEGER\<close> column.\<close>

definition int4_ok :: "int option \<Rightarrow> bool" where
  "int4_ok c \<longleftrightarrow> (case c of None \<Rightarrow> True | Some n \<Rightarrow> - (2 ^ 31) \<le> n \<and> n < 2 ^ 31)"

text \<open>The constraint \<^verbatim>\<open>task_history_event_shape\<close>.\<close>

definition snapshot_shape :: "task_history \<Rightarrow> bool" where
  "snapshot_shape h \<longleftrightarrow>
     h_event_type h \<in> {''task_created'', ''task_deleted''}
     \<and> h_webhook_url h \<noteq> None \<and> h_trigger_type h \<noteq> None \<and> h_execution_source h = None
     \<and> h_http_status h = None \<and> h_error_message h = None \<and> h_success h = None
     \<and> (h_trigger_type h = Some ''cron'' \<and> h_cron_expression h \<noteq> None \<and> h_cron_timezone h \<noteq> None
          \<and> h_interval_seconds h = None \<and> h_once_run_at h = None
        \<or> h_trigger_type h = Some ''interval'' \<and> h_interval_seconds h \<noteq> None
          \<and> h_cron_expression h = None \<and> h_cron_timezone h = None \<and> h_once_run_at h = None
        \<or> h_trigger_type h = Some ''once'' \<and> h_once_run_at h \<noteq> None
          \<and> h_cron_expression h = None \<and> h_cron_timezone h = None \<and> h_interval_seconds h = None)"

definition lifecycle_shape :: "task_history \<Rightarrow> bool" where
  "lifecycle_shape h \<longleftrightarrow>
     h_event_type h \<in> {''task_activated'', ''task_deactivated''}
     \<and> h_webhook_url h = None \<and> h_trigger_type h = None \<and> h_cron_expression h = None
     \<and> h_cron_timezone h = None \<and> h_interval_seconds h = None \<and> h_once_run_at h = None
     \<and> h_execution_source h = None \<and> h_http_status h = None \<and> h_error_message h = None
     \<and> h_success h = None"

definition execution_shape :: "task_history \<Rightarrow> bool" where
  "execution_shape h \<longleftrightarrow>
     h_event_type h = ''execution'' \<and> h_webhook_url h \<noteq> None \<and> h_execution_source h \<noteq> None
     \<and> h_success h \<noteq> None \<and> h_trigger_type h = None \<and> h_cron_expression h = None
     \<and> h_cron_timezone h = None \<and> h_interval_seconds h = None \<and> h_once_run_at h = None
     \<and> (h_success h = Some False \<or> h_http_status h \<noteq> None)"

definition task_history_event_shape :: "task_history \<Rightarrow> bool" where
  "task_history_event_shape h \<longleftrightarrow> snapshot_shape h \<or> lifecycle_shape h \<or> execution_shape h"

section \<open>Row security\<close>

text \<open>
  What the policies and the row scope look at: \<open>cx_bypass\<close> says whether the database role is
  exempt from row security (a superuser is), \<open>cx_returning\<close> whether the mapper reads the defaults
  of an inserted row back with \<^verbatim>\<open>RETURNING\<close>; the settings \<^verbatim>\<open>app.current_user_id\<close> and
  \<^verbatim>\<open>app.is_scheduler\<close> of the transaction; and \<^verbatim>\<open>session.info["current_user_id"]\<close>.
\<close>

record rls_ctx =
  cx_bypass :: bool
  cx_returning :: bool
  cx_current_user_id :: "string option"
  cx_is_scheduler :: bool
  cx_info_user_id :: "string option"

definition new_session :: "bool \<Rightarrow> bool \<Rightarrow> rls_ctx" where
  "new_session bypass returning =
     \<lparr>cx_bypass = bypass, cx_returning = returning, cx_current_user_id = None,
      cx_is_scheduler = False, cx_info_user_id = None\<rparr>"

definition set_user_rls :: "rls_ctx \<Rightarrow> string \<Rightarrow> rls_ctx" where
  "set_user_rls cx user_id = cx\<lparr>cx_current_user_id := Some user_id\<rparr>"

definition set_scheduler_rls :: "rls_ctx \<Rightarrow> rls_ctx" where
  "set_scheduler_rls cx = cx\<lparr>cx_is_scheduler := True\<rparr>"

text \<open>The session of a request, before the handler runs.\<close>

definition open_request_session :: "rls_ctx \<Rightarrow> string option \<Rightarrow> rls_ctx" where
  "open_request_session cx user_id =
     (let cx' = cx\<lparr>cx_info_user_id := user_id\<rparr>
      in case user_id of
           None \<Rightarrow> cx'
         | Some u \<Rightarrow> if u = [] then cx' else set_user_rls cx' u)"

definition scheduled_tasks_user_all :: "rls_ctx \<Rightarrow> string \<Rightarrow> bool" where
  "scheduled_tasks_user_all cx user_id \<longleftrightarrow> cx_current_user_id cx = Some user_id"

definition scheduled_tasks_scheduler :: "rls_ctx \<Rightarrow> string \<Rightarrow> bool" where
  "scheduled_tasks_scheduler cx user_id \<longleftrightarrow> cx_is_scheduler cx"

text \<open>Both policies are for all commands and permissive: one of them is enough.\<close>

definition task_allowed :: "rls_ctx \<Rightarrow> string \<Rightarrow> bool" where
  "task_allowed cx user_id \<longleftrightarrow>
     cx_bypass cx \<or> scheduled_tasks_user_all cx user_id \<or> scheduled_tasks_scheduler cx user_id"

definition task_history_user_select :: "rls_ctx \<Rightarrow> string \<Rightarrow> bool" where
  "task_history_user_select cx user_id \<longleftrightarrow> cx_current_user_id cx = Some user_id"

definition task_history_user_insert :: "rls_ctx \<Rightarrow> string \<Rightarrow> bool" where
  "task_history_user_insert cx user_id \<longleftrightarrow> cx_current_user_id cx = Some user_id"

definition task_history_scheduler_insert :: "rls_ctx \<Rightarrow> string \<Rightarrow> bool" where
  "task_history_scheduler_insert cx user_id \<longleftrightarrow> cx_is_scheduler cx"

definition history_readable :: "rls_ctx \<Rightarrow> string \<Rightarrow> bool" where
  "history_readable cx user_id \<longleftrightarrow> cx_bypass cx \<or> task_history_user_select cx user_id"

text \<open>A row that is read back with \<^verbatim>\<open>RETURNING\<close> must also be one that may be read.\<close>

definition history_insertable :: "rls_ctx \<Rightarrow> string \<Rightarrow> bool" where
  "history_insertable cx user_id \<longleftrightarrow>
     cx_bypass cx
     \<or> (task_history_user_insert cx user_id \<or> task_history_scheduler_insert cx user_id)
       \<and> (cx_returning cx \<longrightarrow> history_readable cx user_id)"

section \<open>Queries\<close>

text \<open>\<^verbatim>\<open>_apply_user_scope\<close>: a select of a session that has a user returns the user's rows alone.\<close>

definition in_scope :: "rls_ctx \<Rightarrow> string \<Rightarrow> bool" where
  "in_scope cx user_id \<longleftrightarrow>
     (case cx_info_user_id cx of
        None \<Rightarrow> True
      | Some u \<Rightarrow> u = [] \<or> user_id = u)"

definition select_tasks :: "rls_ctx \<Rightarrow> db \<Rightarrow> (scheduled_task \<Rightarrow> bool) \<Rightarrow> scheduled_task list" where
  "select_tasks cx db P =
     filter (\<lambda>t. task_allowed cx (t_user_id t) \<and> in_scope cx (t_user_id t) \<and> P t) (db_tasks db)"

definition select_history :: "rls_ctx \<Rightarrow> db \<Rightarrow> (task_history \<Rightarrow> bool) \<Rightarrow> task_history list" where
  "select_history cx db P =
     filter (\<lambda>h. history_readable cx (h_user_id h) \<and> in_scope cx (h_user_id h) \<and> P h)
       (db_history db)"

text \<open>\<^verbatim>\<open>scalar_one_or_none()\<close>\<close>

definition scalar_one_or_none :: "'a list \<Rightarrow> 'a option result" where
  "scalar_one_or_none rows =
     (case rows of
        [] \<Rightarrow> Inr None
      | [r] \<Rightarrow> Inr (Some r)
      | _ \<Rightarrow> Inl (DatabaseError ''Multiple rows were found when one or none was required''))"

section \<open>Writes\<close>

text \<open>A \<^verbatim>\<open>timestamptz\<close> column gives back an aware UTC time of the same instant.\<close>

definition stored_time :: "datetime \<Rightarrow> datetime" where
  "stored_time d = utc_datetime (instant d)"

text \<open>
  What the handlers do to rows: insert a task or a history row, set the two columns of a task that
  ever change, and delete a task. The mapper leaves out a column that keeps the value that was read;
  \<open>Interleaving\<close> says when that makes a difference. \<open>MutateHistory i h\<close> is an \<^verbatim>\<open>UPDATE\<close> of a history row to \<open>h\<close>, or its
  deletion when \<open>h\<close> is \<open>None\<close>; the program never asks for it, and the trigger
  \<^verbatim>\<open>task_history_no_update\<close> is there to refuse it. No policy lets a role without the exemption
  reach a row in this way, so for such a role the statement matches nothing.
\<close>

datatype db_write =
    InsertTask scheduled_task
  | UpdateTask uuid bool "datetime option"
  | DeleteTask uuid
  | InsertHistory task_history
  | MutateHistory uuid "task_history option"

definition stored_task :: "datetime \<Rightarrow> scheduled_task \<Rightarrow> scheduled_task" where
  "stored_task now t =
     t\<lparr>t_next_run_at := map_option stored_time (t_next_run_at t),
       t_created_at := stored_time now, t_updated_at := stored_time now\<rparr>"

definition stored_history :: "datetime \<Rightarrow> task_history \<Rightarrow> task_history" where
  "stored_history now h =
     h\<lparr>h_once_run_at := map_option stored_time (h_once_run_at h), h_created_at := stored_time now\<rparr>"

definition updated_task :: "datetime \<Rightarrow> bool \<Rightarrow> datetime option \<Rightarrow> scheduled_task \<Rightarrow> scheduled_task" where
  "updated_task now active next_run t =
     t\<lparr>t_is_active := active, t_next_run_at := map_option stored_time next_run,
       t_updated_at := stored_time now\<rparr>"

fun apply_write :: "rls_ctx \<Rightarrow> datetime \<Rightarrow> db_write \<Rightarrow> db \<Rightarrow> db result" where
  "apply_write cx now (InsertTask t) db =
     (if \<not> task_allowed cx (t_user_id t)
      then Inl (DatabaseError ''new row violates row-level security policy'')
      else if t_id t \<in> t_id ` set (db_tasks db)
      then Inl (DatabaseError ''duplicate key value violates unique constraint'')
      else Inr (db\<lparr>db_tasks := db_tasks db @ [stored_task now t]\<rparr>))"
| "apply_write cx now (UpdateTask i active next_run) db =
     (if \<not> (\<exists>t \<in> set (db_tasks db). t_id t = i \<and> task_allowed cx (t_user_id t))
      then Inl (DatabaseError ''UPDATE statement on table 'scheduled_tasks' expected to update 1 row(s); 0 were matched.'')
      else Inr (db\<lparr>db_tasks :=
             map (\<lambda>t. if t_id t = i \<and> task_allowed cx (t_user_id t) then updated_task now active next_run t
                      else t) (db_tasks db)\<rparr>))"
| "apply_write cx now (DeleteTask i) db =
     Inr (db\<lparr>db_tasks := filter (\<lambda>t. \<not> (t_id t = i \<and> task_allowed cx (t_user_id t))) (db_tasks db)\<rparr>)"
| "apply_write cx now (InsertHistory h) db =
     (if \<not> (int4_ok (h_interval_seconds h) \<and> int4_ok (h_http_status h))
      then Inl (DatabaseError ''value out of int32 range'')
      else if \<not> history_insertable cx (h_user_id h)
      then Inl (DatabaseError ''new row violates row-level security policy'')
      else if \<not> task_history_event_shape h
      then Inl (DatabaseError ''new row violates check constraint'')
      else if h_id h \<in> h_id ` set (db_history db)
      then Inl (DatabaseError ''duplicate key value violates unique constraint'')
      else Inr (db\<lparr>db_history := db_history db @ [stored_history now h]\<rparr>))"
| "apply_write cx now (MutateHistory i h) db =
     (if cx_bypass cx \<and> i \<in> h_id ` set (db_history db)
      then Inl (DatabaseError ''task_history is append-only'') else Inr db)"

definition apply_writes :: "rls_ctx \<Rightarrow> datetime \<Rightarrow> db_write list \<Rightarrow> db \<Rightarrow> db result" where
  "apply_writes cx now ws db = run_steps (apply_write cx now) ws db"

section \<open>What every write keeps\<close>

definition history_row_ok :: "task_history \<Rightarrow> bool" where
  "history_row_ok h \<longleftrightarrow>
     task_history_event_shape h \<and> int4_ok (h_interval_seconds h) \<and> int4_ok (h_http_status h)"

definition db_ok :: "db \<Rightarrow> bool" where
  "db_ok db \<longleftrightarrow>
     distinct (map t_id (db_tasks db)) \<and> distinct (map h_id (db_history db))
     \<and> list_all history_row_ok (db_history db)"

definition history_extends :: "db \<Rightarrow> db \<Rightarrow> bool" where
  "history_extends db db' \<longleftrightarrow> (\<exists>rows. db_history db' = db_history db @ rows)"

lemma stored_history_shape [simp]:
  "task_history_event_shape (stored_history now h) = task_history_event_shape h"
  by (simp add: task_history_event_shape_def snapshot_shape_def lifecycle_shape_def
      execution_shape_def stored_history_def)

lemma stored_history_simps [simp]:
  "h_id (stored_history now h) = h_id h" "h_user_id (stored_history now h) = h_user_id h"
  "h_interval_seconds (stored_history now h) = h_interval_seconds h"
  "h_http_status (stored_history now h) = h_http_status h"
  by (simp_all add: stored_history_def)

lemma stored_task_simps [simp]:
  "t_id (stored_task now t) = t_id t" "t_user_id (stored_task now t) = t_user_id t"
  "t_is_active (stored_task now t) = t_is_active t"
  "t_next_run_at (stored_task now t) = map_option stored_time (t_next_run_at t)"
  "t_trigger_type (stored_task now t) = t_trigger_type t"
  "t_trigger_config (stored_task now t) = t_trigger_config t"
  "t_webhook_url (stored_task now t) = t_webhook_url t"
  "t_parameters (stored_task now t) = t_parameters t"
  by (simp_all add: stored_task_def)

lemma updated_task_simps [simp]:
  "t_id (updated_task now a n t) = t_id t" "t_user_id (updated_task now a n t) = t_user_id t"
  "t_is_active (updated_task now a n t) = a"
  "t_next_run_at (updated_task now a n t) = map_option stored_time n"
  "t_trigger_type (updated_task now a n t) = t_trigger_type t"
  "t_trigger_config (updated_task now a n t) = t_trigger_config t"
  by (simp_all add: updated_task_def)

lemma stored_time_facts [simp]: "instant (stored_time d) = instant d" "is_aware (stored_time d)"
  by (simp_all add: stored_time_def)

lemma distinct_map_filter_id: "distinct (map f xs) \<Longrightarrow> distinct (map f (filter P xs))"
  by (induction xs) auto

lemma apply_write_db_ok:
  assumes "apply_write cx now w db = Inr db'" "db_ok db"
  shows "db_ok db'"
proof (cases w)
  case (UpdateTask i a n)
  have "t_id \<circ> (\<lambda>t. if t_id t = i \<and> task_allowed cx (t_user_id t) then updated_task now a n t
      else t) = t_id"
    by (rule ext) simp
  then show ?thesis
    using assms UpdateTask by (auto simp: db_ok_def split: if_splits)
qed (use assms in \<open>auto simp: db_ok_def history_row_ok_def distinct_map_filter_id split: if_splits\<close>)

lemma apply_write_history: "apply_write cx now w db = Inr db' \<Longrightarrow> history_extends db db'"
  by (cases w) (auto simp: history_extends_def split: if_splits)

interpretation db_ok_step: step_relation
  "apply_write cx now" "\<lambda>_. True" "\<lambda>db db'. db_ok db \<longrightarrow> db_ok db'" for cx now
  by unfold_locales (auto dest: apply_write_db_ok)

interpretation history_step: step_relation
  "apply_write cx now" "\<lambda>_. True" history_extends for cx now
proof unfold_locales
  show "history_extends db db" for db by (simp add: history_extends_def)
  show "history_extends a b \<Longrightarrow> history_extends b c \<Longrightarrow> history_extends a c" for a b c
    by (auto simp: history_extends_def)
qed (rule apply_write_history)

lemma apply_writes_db_ok: "apply_writes cx now ws db = Inr db' \<Longrightarrow> db_ok db \<Longrightarrow> db_ok db'"
  using db_ok_step.run_R [of ws cx now db db'] by (simp add: apply_writes_def list_all_iff)

lemma apply_writes_history: "apply_writes cx now ws db = Inr db' \<Longrightarrow> history_extends db db'"
  using history_step.run_R [of ws cx now db db'] by (simp add: apply_writes_def list_all_iff)

lemma history_extends_refl [simp]: "history_extends db db"
  by (rule history_step.R_refl)

section \<open>Sessions of one user\<close>

text \<open>The session of an authenticated request, whatever the role of the database connection.\<close>

definition user_session :: "rls_ctx \<Rightarrow> string \<Rightarrow> bool" where
  "user_session cx u \<longleftrightarrow>
     u \<noteq> [] \<and> cx_current_user_id cx = Some u \<and> cx_info_user_id cx = Some u \<and> \<not> cx_is_scheduler cx"

lemma user_session_open:
  "u \<noteq> [] \<Longrightarrow> user_session (open_request_session (new_session bypass returning) (Some u)) u"
  by (simp add: user_session_def open_request_session_def new_session_def set_user_rls_def)

text \<open>A query of the session sees the rows of its user, all of them and no others.\<close>

lemma select_tasks_user:
  assumes "user_session cx u"
  shows "select_tasks cx db P = filter (\<lambda>t. t_user_id t = u \<and> P t) (db_tasks db)"
  using assms unfolding select_tasks_def user_session_def
  by (intro filter_cong) (auto simp: in_scope_def task_allowed_def scheduled_tasks_user_all_def)

lemma select_history_user:
  assumes "user_session cx u"
  shows "select_history cx db P = filter (\<lambda>h. h_user_id h = u \<and> P h) (db_history db)"
  using assms unfolding select_history_def user_session_def
  by (intro filter_cong) (auto simp: in_scope_def history_readable_def task_history_user_select_def)

lemma history_insertable_user: "user_session cx u \<Longrightarrow> history_insertable cx u"
  by (simp add: history_insertable_def user_session_def task_history_user_insert_def
      history_readable_def task_history_user_select_def)

lemma task_allowed_user: "user_session cx u \<Longrightarrow> task_allowed cx u"
  by (simp add: task_allowed_def user_session_def scheduled_tasks_user_all_def)

text \<open>
  The writes that a request of \<open>u\<close> may ask for: rows of its own, and changes of tasks of its own.
  They leave the rows of everybody else as they are, even when the role is exempt from row
  security.
\<close>

definition others_tasks :: "string \<Rightarrow> db \<Rightarrow> scheduled_task list" where
  "others_tasks u db = filter (\<lambda>t. t_user_id t \<noteq> u) (db_tasks db)"

definition others_history :: "string \<Rightarrow> db \<Rightarrow> task_history list" where
  "others_history u db = filter (\<lambda>h. h_user_id h \<noteq> u) (db_history db)"

text \<open>The rows of the others are the same, so a write on a task of \<open>u\<close> stays one.\<close>

definition isolated :: "string \<Rightarrow> uuid set \<Rightarrow> db \<Rightarrow> db \<Rightarrow> bool" where
  "isolated u ids db db' \<longleftrightarrow>
     (\<forall>i \<in> ids. \<forall>t \<in> set (db_tasks db). t_id t = i \<longrightarrow> t_user_id t = u) \<longrightarrow>
     others_tasks u db' = others_tasks u db \<and> others_history u db' = others_history u db
     \<and> (\<forall>i \<in> ids. \<forall>t \<in> set (db_tasks db'). t_id t = i \<longrightarrow> t_user_id t = u)"

fun touches :: "string \<Rightarrow> uuid set \<Rightarrow> db_write \<Rightarrow> bool" where
  "touches u ids (InsertTask t) = (t_user_id t = u)"
| "touches u ids (InsertHistory h) = (h_user_id h = u)"
| "touches u ids (UpdateTask i a n) = (i \<in> ids)"
| "touches u ids (DeleteTask i) = (i \<in> ids)"
| "touches u ids (MutateHistory i h) = True"

lemma apply_write_isolated:
  assumes "touches u ids w" "apply_write cx now w db = Inr db'"
  shows "isolated u ids db db'"
  unfolding isolated_def
proof
  assume own: "\<forall>i \<in> ids. \<forall>t \<in> set (db_tasks db). t_id t = i \<longrightarrow> t_user_id t = u"
  show "others_tasks u db' = others_tasks u db \<and> others_history u db' = others_history u db
     \<and> (\<forall>i \<in> ids. \<forall>t \<in> set (db_tasks db'). t_id t = i \<longrightarrow> t_user_id t = u)"
  proof (cases w)
    case (UpdateTask i a n)
    let ?f = "\<lambda>t. if t_id t = i \<and> task_allowed cx (t_user_id t) then updated_task now a n t else t"
    have "filter (\<lambda>t. t_user_id t \<noteq> u) (map ?f ts) = filter (\<lambda>t. t_user_id t \<noteq> u) ts"
      if "\<forall>t \<in> set ts. t_id t = i \<longrightarrow> t_user_id t = u" for ts
      using that by (induction ts) auto
    moreover have "\<forall>t \<in> set (db_tasks db). t_id t = i \<longrightarrow> t_user_id t = u"
      using own assms UpdateTask by auto
    ultimately show ?thesis
      using assms own UpdateTask
      by (auto simp: others_tasks_def others_history_def split: if_splits)
  next
    case (DeleteTask i)
    have "filter (\<lambda>t. t_user_id t \<noteq> u) (filter (\<lambda>t. \<not> (t_id t = i \<and> task_allowed cx (t_user_id t))) (db_tasks db))
        = filter (\<lambda>t. t_user_id t \<noteq> u) (db_tasks db)"
      unfolding filter_filter_conj using own assms DeleteTask by (intro filter_cong) auto
    then show ?thesis
      using assms own DeleteTask by (auto simp: others_tasks_def others_history_def)
  qed (use assms own in \<open>auto simp: others_tasks_def others_history_def split: if_splits\<close>)
qed

interpretation isolation: step_relation
  "apply_write cx now" "touches u ids" "isolated u ids" for cx now u ids
proof unfold_locales
  show "isolated u ids db db" for db by (simp add: isolated_def)
  show "isolated u ids a b \<Longrightarrow> isolated u ids b c \<Longrightarrow> isolated u ids a c" for a b c
    by (simp add: isolated_def)
qed (rule apply_write_isolated)

lemma apply_writes_isolated:
  "list_all (touches u ids) ws \<Longrightarrow> apply_writes cx now ws db = Inr db' \<Longrightarrow> isolated u ids db db'"
  using isolation.run_R by (simp add: apply_writes_def)

end
