(* ===== verification/Triggers.thy ===== *)
theory Triggers
  imports Models
begin

text \<open>
  \<^verbatim>\<open>app/scheduler/triggers.py\<close>: from a trigger specification to a trigger object of the
  scheduling library and to the dictionary that is stored, back from the stored dictionary, and
  the fire times that the routes report. The library (APScheduler) is the record \<open>aps\<close> of the
  constructors that the code calls and of \<^verbatim>\<open>trigger.next()\<close>; a trigger object is a value of the
  type \<^typ>\<open>'t\<close>, and a call of \<^verbatim>\<open>next\<close> returns the object as the call leaves it. The cron and
  interval constructors read the clock, which is their first argument.
\<close>

section \<open>The scheduling library\<close>

record 't aps =
  date_trigger :: "datetime \<Rightarrow> 't result"
  from_crontab :: "datetime \<Rightarrow> string \<Rightarrow> zone \<Rightarrow> 't result"
  interval_trigger :: "datetime \<Rightarrow> int \<Rightarrow> 't result"
  trigger_next :: "'t \<Rightarrow> (datetime option \<times> 't) result"

text \<open>
  The documented behaviour that termination and order rest on: a trigger gives its fire times in
  strictly increasing order. \<open>prev t\<close> is an instant between the fire times that \<open>t\<close> gave and those
  that it will give.
\<close>

definition aps_advances :: "'t aps \<Rightarrow> ('t \<Rightarrow> int) \<Rightarrow> bool" where
  "aps_advances aps prev \<longleftrightarrow>
     (\<forall>t d t'. trigger_next aps t = Inr (Some d, t') \<longrightarrow>
        prev t < instant d \<and> instant d \<le> prev t')"

text \<open>A \<^verbatim>\<open>DateTrigger\<close> fires at its time and then no more.\<close>

definition aps_date_once :: "'t aps \<Rightarrow> bool" where
  "aps_date_once aps \<longleftrightarrow>
     (\<forall>d t. date_trigger aps d = Inr t \<longrightarrow>
        (\<exists>t'. trigger_next aps t = Inr (Some d, t') \<and> (\<exists>t''. trigger_next aps t' = Inr (None, t''))))"

section \<open>Building a trigger\<close>

text \<open>A naive time is taken as UTC.\<close>

definition assume_utc :: "datetime \<Rightarrow> datetime" where
  "assume_utc d = (if dt_tz d = None then replace_tz d TzUTC else d)"

fun build_trigger :: "'t aps \<Rightarrow> runtime \<Rightarrow> datetime \<Rightarrow> structured_trigger \<Rightarrow> 't result" where
  "build_trigger aps rt now (OnceTrigger run_at) = date_trigger aps (assume_utc run_at)"
| "build_trigger aps rt now (CronTriggerSpec expression tz) =
     rbind (zone_info rt tz) (\<lambda>z. from_crontab aps now expression z)"
| "build_trigger aps rt now (IntervalTriggerSpec seconds) = interval_trigger aps now seconds"

section \<open>The stored form\<close>

fun trigger_config_from_spec :: "structured_trigger \<Rightarrow> trigger_config" where
  "trigger_config_from_spec (OnceTrigger run_at) = OnceTriggerConfig (isoformat (assume_utc run_at))"
| "trigger_config_from_spec (CronTriggerSpec expression tz) = CronTriggerConfig expression tz"
| "trigger_config_from_spec (IntervalTriggerSpec seconds) = IntervalTriggerConfig seconds"

text \<open>\<^verbatim>\<open>datetime.fromisoformat\<close> of a value of the dictionary: anything but a text is a type error.\<close>

definition fromisoformat_json :: "runtime \<Rightarrow> json \<Rightarrow> datetime result" where
  "fromisoformat_json rt j =
     (case j of JStr s \<Rightarrow> fromisoformat (iso_other rt) s
      | _ \<Rightarrow> Inl (TypeError ''fromisoformat: argument must be str''))"

text \<open>
  The constructor of a cron specification on values of the dictionary. Both fields are checked
  before a \<open>ValidationError\<close> is raised, so an exception of the zone lookup that pydantic does not
  catch wins over a wrong expression.
\<close>

definition cron_spec_from_json :: "runtime \<Rightarrow> json \<Rightarrow> json \<Rightarrow> structured_trigger result" where
  "cron_spec_from_json rt e z =
     (case rbind (pydantic_str z) (\<lambda>s. pydantic_validator (validate_timezone rt s)) of
        Inl err \<Rightarrow> Inl err
      | Inr tz \<Rightarrow> rbind (pydantic_str e) (\<lambda>expression. Inr (CronTriggerSpec expression tz)))"

definition task_to_trigger_spec :: "runtime \<Rightarrow> scheduled_task \<Rightarrow> structured_trigger result" where
  "task_to_trigger_spec rt task =
     (let config = t_trigger_config task
      in if t_trigger_type task = trigger_type_value ONCE then
           rbind (dict_item config ''run_at'') (\<lambda>j.
           rbind (fromisoformat_json rt j) (\<lambda>d. Inr (OnceTrigger d)))
         else if t_trigger_type task = trigger_type_value CRON then
           rbind (dict_item config ''expression'') (\<lambda>e.
           cron_spec_from_json rt e (dict_get config ''timezone'' (JStr ''UTC'')))
         else if t_trigger_type task = trigger_type_value INTERVAL then
           rbind (dict_item config ''seconds'') (\<lambda>j.
           rbind (pydantic_int rt j) mk_interval_spec)
         else Inl (ValueError (''Unsupported trigger type: '' @ t_trigger_type task)))"

definition build_trigger_from_task ::
  "'t aps \<Rightarrow> runtime \<Rightarrow> datetime \<Rightarrow> scheduled_task \<Rightarrow> 't result" where
  "build_trigger_from_task aps rt now task =
     rbind (task_to_trigger_spec rt task) (build_trigger aps rt now)"

section \<open>The next fire time\<close>

definition compute_next_run_at ::
  "'t aps \<Rightarrow> runtime \<Rightarrow> datetime \<Rightarrow> structured_trigger \<Rightarrow> datetime option result" where
  "compute_next_run_at aps rt now spec =
     rbind (build_trigger aps rt now spec) (\<lambda>trigger.
     rbind (trigger_next aps trigger) (\<lambda>r.
     case fst r of None \<Rightarrow> Inr None
     | Some next_fire \<Rightarrow>
         if dt_tz next_fire = None then Inr (Some (replace_tz next_fire TzUTC))
         else Inr (Some next_fire)))"

definition compute_next_run_at_for_task ::
  "'t aps \<Rightarrow> runtime \<Rightarrow> datetime \<Rightarrow> scheduled_task \<Rightarrow> datetime option result" where
  "compute_next_run_at_for_task aps rt now task =
     rbind (task_to_trigger_spec rt task) (compute_next_run_at aps rt now)"

section \<open>Upcoming fire times\<close>

text \<open>
  The loop \<^verbatim>\<open>while nxt := trigger.next()\<close> of the generator, run by \<^verbatim>\<open>islice\<close> until \<open>n\<close> times
  were yielded. Nothing in the code bounds the number of past times that are skipped, so the
  result is \<open>None\<close> where the loop does not end.
\<close>

definition fire_time_utc :: "datetime \<Rightarrow> datetime result" where
  "fire_time_utc nxt =
     (if dt_tz nxt = None then Inr (replace_tz nxt TzUTC) else astimezone nxt TzUTC)"

partial_function (option) iter_upcoming ::
  "'t aps \<Rightarrow> datetime \<Rightarrow> bool \<Rightarrow> nat \<Rightarrow> 't \<Rightarrow> datetime list result option" where
  "iter_upcoming aps now is_once n trigger =
     (if n = 0 then Some (Inr [])
      else
        case trigger_next aps trigger of
          Inl e \<Rightarrow> Some (Inl e)
        | Inr r \<Rightarrow>
            (case fst r of
               None \<Rightarrow> Some (Inr [])
             | Some d \<Rightarrow>
                 (case fire_time_utc d of
                    Inl e \<Rightarrow> Some (Inl e)
                  | Inr nxt \<Rightarrow>
                      if instant now \<le> instant nxt
                      then Option.bind (iter_upcoming aps now is_once (n - 1) (snd r))
                             (\<lambda>rest. Some (rbind rest (\<lambda>ds. Inr (nxt # ds))))
                      else if is_once then Some (Inr [])
                      else iter_upcoming aps now is_once n (snd r))))"

definition compute_upcoming_run_times ::
  "'t aps \<Rightarrow> runtime \<Rightarrow> datetime \<Rightarrow> scheduled_task \<Rightarrow> int \<Rightarrow> datetime list result option" where
  "compute_upcoming_run_times aps rt now task n =
     (case build_trigger_from_task aps rt now task of
        Inl e \<Rightarrow> Some (Inl e)
      | Inr trigger \<Rightarrow>
          iter_upcoming aps now (t_trigger_type task = trigger_type_value ONCE) (nat n) trigger)"

section \<open>Round trip of the stored form\<close>

text \<open>The specification that is read back, and the specifications whose stored form can be read.\<close>

fun restored :: "structured_trigger \<Rightarrow> structured_trigger" where
  "restored (OnceTrigger t) = OnceTrigger (reparsed (assume_utc t))"
| "restored s = s"

definition schedulable :: "runtime \<Rightarrow> structured_trigger \<Rightarrow> bool" where
  "schedulable rt s \<longleftrightarrow>
     (case s of
        OnceTrigger t \<Rightarrow> dt_ok t
      | CronTriggerSpec e z \<Rightarrow> (\<exists>zn. zone_info rt z = Inr zn)
      | IntervalTriggerSpec n \<Rightarrow> 0 < n)"

definition with_spec :: "scheduled_task \<Rightarrow> structured_trigger \<Rightarrow> scheduled_task" where
  "with_spec task s =
     task\<lparr>t_trigger_type := trigger_type_value (spec_type s),
          t_trigger_config := config_dump (trigger_config_from_spec s)\<rparr>"

lemma assume_utc_aware [simp]: "is_aware (assume_utc d)"
  by (simp add: assume_utc_def is_aware_def replace_tz_def)

lemma assume_utc_id: "is_aware d \<Longrightarrow> assume_utc d = d"
  by (auto simp: assume_utc_def is_aware_def)

lemma dt_ok_assume_utc: "dt_ok d \<Longrightarrow> dt_ok (assume_utc d)"
  by (simp add: assume_utc_def dt_ok_def replace_tz_def)

lemma instant_assume_utc [simp]: "instant (assume_utc d) = instant d"
  by (auto simp: assume_utc_def instant_def replace_tz_def utcoffset_def)

lemma assume_utc_reparsed [simp]: "assume_utc (reparsed (assume_utc t)) = reparsed (assume_utc t)"
  by (simp add: assume_utc_id)

lemma task_to_trigger_spec_stored:
  assumes "schedulable rt s"
  shows "task_to_trigger_spec rt (with_spec task s) = Inr (restored s)"
  using assms
  by (cases s)
    (auto simp: with_spec_def task_to_trigger_spec_def dict_item_def dict_get_def schedulable_def
      fromisoformat_json_def fromisoformat_isoformat dt_ok_assume_utc cron_spec_from_json_def
      validate_timezone_def mk_interval_spec_def rbind_eq_Inr split: sum.splits)

interpretation stored_spec: codec
  "with_spec task" "task_to_trigger_spec rt" "schedulable rt" restored for task rt
proof unfold_locales
  fix s
  assume s: "schedulable rt s"
  show "task_to_trigger_spec rt (with_spec task s) = Inr (restored s)"
    using s by (rule task_to_trigger_spec_stored)
  show "schedulable rt (restored s)"
    using s by (cases s) (simp_all add: schedulable_def dt_ok_reparsed dt_ok_assume_utc)
  show "restored (restored s) = restored s"
    by (cases s) simp_all
qed

section \<open>The upcoming fire times\<close>

text \<open>
  The reference: the UTC fire times of the first \<open>k\<close> calls of \<^verbatim>\<open>next\<close>, up to the end of the
  trigger or to the first call that raises.
\<close>

fun fires :: "'t aps \<Rightarrow> nat \<Rightarrow> 't \<Rightarrow> datetime list" where
  "fires aps 0 t = []"
| "fires aps (Suc k) t =
     (case trigger_next aps t of
        Inr (Some d, t') \<Rightarrow>
          (case fire_time_utc d of Inr nxt \<Rightarrow> nxt # fires aps k t' | Inl e \<Rightarrow> [])
      | _ \<Rightarrow> [])"

definition due :: "datetime \<Rightarrow> datetime \<Rightarrow> bool" where
  "due now d \<longleftrightarrow> instant now \<le> instant d"

lemma fire_time_utc_facts:
  assumes "fire_time_utc d = Inr u"
  shows "instant u = instant d" "is_aware u"
proof -
  show "instant u = instant d"
    using assms astimezone_instant [of d TzUTC u]
    by (auto simp: fire_time_utc_def instant_def replace_tz_def utcoffset_def split: if_splits)
  show "is_aware u"
    using assms astimezone_aware by (auto simp: fire_time_utc_def split: if_splits)
qed

text \<open>One turn of the loop, by what the call of \<^verbatim>\<open>next\<close> gives.\<close>

lemma iter_upcoming_0 [simp]: "iter_upcoming aps now once 0 t = Some (Inr [])"
  by (simp add: iter_upcoming.simps)

lemma iter_upcoming_stop:
  assumes "0 < n"
  shows "trigger_next aps t = Inl e \<Longrightarrow> iter_upcoming aps now once n t = Some (Inl e)"
    and "trigger_next aps t = Inr (None, t') \<Longrightarrow> iter_upcoming aps now once n t = Some (Inr [])"
    and "trigger_next aps t = Inr (Some d, t') \<Longrightarrow> fire_time_utc d = Inl e \<Longrightarrow>
           iter_upcoming aps now once n t = Some (Inl e)"
  using assms by (simp_all add: iter_upcoming.simps [of aps now once n])

lemma iter_upcoming_fire:
  assumes "0 < n" "trigger_next aps t = Inr (Some d, t')" "fire_time_utc d = Inr u"
  shows "due now u \<Longrightarrow> iter_upcoming aps now once n t =
           Option.bind (iter_upcoming aps now once (n - 1) t') (\<lambda>r. Some (rbind r (\<lambda>ds. Inr (u # ds))))"
    and "\<not> due now u \<Longrightarrow> once \<Longrightarrow> iter_upcoming aps now once n t = Some (Inr [])"
    and "\<not> due now u \<Longrightarrow> \<not> once \<Longrightarrow>
           iter_upcoming aps now once n t = iter_upcoming aps now once n t'"
  using assms by (subst iter_upcoming.simps, simp add: due_def)+

lemmas iter_upcoming_turn = iter_upcoming_stop iter_upcoming_fire

text \<open>
  The loop ends: a fire time that is skipped brings the trigger closer to \<open>now\<close>, one that is
  yielded leaves one less to yield. The same induction serves every fact about the loop.
\<close>

lemma upcoming_induct:
  fixes P :: "nat \<Rightarrow> 't \<Rightarrow> bool"
  assumes adv: "aps_advances aps prev"
    and zero: "\<And>t. P 0 t"
    and err: "\<And>n t e. 0 < n \<Longrightarrow> trigger_next aps t = Inl e \<Longrightarrow> P n t"
    and fin: "\<And>n t t'. 0 < n \<Longrightarrow> trigger_next aps t = Inr (None, t') \<Longrightarrow> P n t"
    and bad: "\<And>n t d t' e. 0 < n \<Longrightarrow> trigger_next aps t = Inr (Some d, t') \<Longrightarrow>
                fire_time_utc d = Inl e \<Longrightarrow> P n t"
    and yields: "\<And>n t d t' u. 0 < n \<Longrightarrow> trigger_next aps t = Inr (Some d, t') \<Longrightarrow>
                fire_time_utc d = Inr u \<Longrightarrow> due now u \<Longrightarrow> P (n - 1) t' \<Longrightarrow> P n t"
    and skip: "\<And>n t d t' u. 0 < n \<Longrightarrow> trigger_next aps t = Inr (Some d, t') \<Longrightarrow>
                fire_time_utc d = Inr u \<Longrightarrow> \<not> due now u \<Longrightarrow> P n t' \<Longrightarrow> P n t"
  shows "P n t"
proof (induction "n + nat (instant now - prev t)" arbitrary: n t rule: less_induct)
  case less
  show ?case
  proof (cases "n = 0")
    case True
    then show ?thesis using zero by simp
  next
    case False
    then have n: "0 < n" by simp
    show ?thesis
    proof (cases "trigger_next aps t")
      case (Inl e)
      then show ?thesis using err n by blast
    next
      case (Inr r)
      obtain ft t' where r: "r = (ft, t')" by (cases r)
      show ?thesis
      proof (cases ft)
        case None
        then show ?thesis using fin n Inr r by blast
      next
        case (Some d)
        then have nx: "trigger_next aps t = Inr (Some d, t')" using Inr r by simp
        then have step: "prev t < instant d" "instant d \<le> prev t'"
          using adv by (auto simp: aps_advances_def)
        show ?thesis
        proof (cases "fire_time_utc d")
          case (Inl e)
          then show ?thesis using bad n nx by blast
        next
          case u: (Inr u)
          note ud = fire_time_utc_facts(1) [OF u]
          show ?thesis
          proof (cases "due now u")
            case True
            have "P (n - 1) t'"
              using less [of "n - 1" t'] n step by simp
            then show ?thesis using yields n nx u True by blast
          next
            case False
            have "P n t'"
              using less [of n t'] step ud False by (simp add: due_def)
            then show ?thesis using skip n nx u False by blast
          qed
        qed
      qed
    qed
  qed
qed

lemma iter_upcoming_total:
  assumes "aps_advances aps prev"
  shows "\<exists>r. iter_upcoming aps now once n t = Some r"
proof (induction n t rule: upcoming_induct [OF assms, where now = now])
  case (6 n t d t' u)
  then show ?case by (cases once) (auto simp: iter_upcoming_turn)
qed (auto simp: iter_upcoming_turn)

lemma iter_upcoming_fires:
  assumes "aps_advances aps prev"
  shows "iter_upcoming aps now False n t = Some (Inr ds) \<Longrightarrow>
    \<exists>k. \<forall>j \<ge> k. ds = take n (filter (due now) (fires aps j t))"
proof (induction n t arbitrary: ds rule: upcoming_induct [OF assms, where now = now])
  case (1 t)
  then show ?case by simp
next
  case (3 n t t')
  then have "ds = take n (filter (due now) (fires aps j t))" for j
    by (cases j) (simp_all add: iter_upcoming_turn)
  then show ?case by blast
next
  case (5 n t d t' u)
  then obtain rest where rest: "iter_upcoming aps now False (n - 1) t' = Some (Inr rest)" "ds = u # rest"
    by (auto simp: iter_upcoming_turn rbind_eq_Inr bind_eq_Some_conv)
  obtain k where k: "\<forall>j \<ge> k. rest = take (n - 1) (filter (due now) (fires aps j t'))"
    using 5(5) rest by blast
  have "ds = take n (filter (due now) (fires aps j t))" if "Suc k \<le> j" for j
    using that 5(1-4) rest k by (cases j; cases n) auto
  then show ?case by blast
next
  case (6 n t d t' u)
  then have "iter_upcoming aps now False n t' = Some (Inr ds)"
    by (simp add: iter_upcoming_turn)
  then obtain k where k: "\<forall>j \<ge> k. ds = take n (filter (due now) (fires aps j t'))"
    using 6 by blast
  have "ds = take n (filter (due now) (fires aps j t))" if "Suc k \<le> j" for j
    using that 6(1-4) k by (cases j) auto
  then show ?case by blast
qed (auto simp: iter_upcoming_turn)

lemma fires_increasing:
  assumes "aps_advances aps prev"
  shows "sorted_wrt (\<lambda>a b. instant a < instant b) (fires aps k t)
    \<and> (\<forall>d \<in> set (fires aps k t). prev t < instant d \<and> is_aware d)"
proof (induction k arbitrary: t)
  case 0
  then show ?case by simp
next
  case (Suc k)
  show ?case
  proof (cases "\<exists>d t' u. trigger_next aps t = Inr (Some d, t') \<and> fire_time_utc d = Inr u")
    case True
    then obtain d t' u where u: "trigger_next aps t = Inr (Some d, t')" "fire_time_utc d = Inr u"
      by blast
    then have "prev t < instant u" "instant u \<le> prev t'" "is_aware u"
      using assms fire_time_utc_facts [OF u(2)] by (auto simp: aps_advances_def)
    then show ?thesis using Suc [of t'] u by fastforce
  next
    case False
    then have "fires aps (Suc k) t = []" by (auto split: sum.splits option.splits)
    then show ?thesis by simp
  qed
qed

section \<open>Properties\<close>

text \<open>
  (C24) The schedule of a task survives storage: from the columns \<^verbatim>\<open>trigger_type\<close> and
  \<^verbatim>\<open>trigger_config\<close> that are written for a specification the code reads a specification of the
  same type back, the same one for cron and interval, and for a one-time run an aware time with
  the same wall clock reading and the same instant (a naive time counts as UTC).
\<close>

theorem stored_schedule_roundtrip:
  assumes "schedulable rt s"
    and "t_trigger_type task = trigger_type_value (spec_type s)"
    and "t_trigger_config task = config_dump (trigger_config_from_spec s)"
  shows "\<exists>s'. task_to_trigger_spec rt task = Inr s' \<and> spec_type s' = spec_type s
    \<and> (case s of
         OnceTrigger t \<Rightarrow>
           (\<exists>t'. s' = OnceTrigger t' \<and> is_aware t' \<and> instant t' = instant t \<and> dt_wall t' = dt_wall t)
       | _ \<Rightarrow> s' = s)"
proof -
  have "with_spec task s = task" using assms by (simp add: with_spec_def)
  then have "task_to_trigger_spec rt task = Inr (restored s)"
    using stored_spec.dec_enc [OF assms(1)] by metis
  moreover have "dt_wall (assume_utc t) = dt_wall t" for t
    by (simp add: assume_utc_def replace_tz_def)
  ultimately show ?thesis by (cases s) simp_all
qed

text \<open>
  (C23) The preview of a recurring task: for every trigger library that gives increasing fire
  times the computation ends, and when it succeeds the times are exactly the first \<open>n\<close> fire times
  that are not before now, in strictly increasing order, all aware; no fire time is skipped.
\<close>

theorem upcoming_run_times_correct:
  assumes "aps_advances aps prev"
    and "t_trigger_type task \<noteq> trigger_type_value ONCE"
    and "build_trigger_from_task aps rt now task = Inr t"
  shows "\<exists>r. compute_upcoming_run_times aps rt now task n = Some r
    \<and> (\<forall>ds. r = Inr ds \<longrightarrow>
         (\<exists>k. \<forall>j \<ge> k. ds = take (nat n) (filter (due now) (fires aps j t)))
         \<and> sorted_wrt (\<lambda>a b. instant a < instant b) ds
         \<and> (\<forall>d \<in> set ds. is_aware d \<and> instant now \<le> instant d))"
proof -
  have run: "compute_upcoming_run_times aps rt now task n = iter_upcoming aps now False (nat n) t"
    using assms by (simp add: compute_upcoming_run_times_def)
  obtain r where r: "iter_upcoming aps now False (nat n) t = Some r"
    using iter_upcoming_total [OF assms(1)] by blast
  have "(\<exists>k. \<forall>j \<ge> k. ds = take (nat n) (filter (due now) (fires aps j t)))
      \<and> sorted_wrt (\<lambda>a b. instant a < instant b) ds
      \<and> (\<forall>d \<in> set ds. is_aware d \<and> instant now \<le> instant d)" if "r = Inr ds" for ds
  proof -
    have "iter_upcoming aps now False (nat n) t = Some (Inr ds)" using r that by simp
    then obtain k where k: "\<forall>j \<ge> k. ds = take (nat n) (filter (due now) (fires aps j t))"
      using iter_upcoming_fires [OF assms(1)] by blast
    then have ds: "ds = take (nat n) (filter (due now) (fires aps k t))" by simp
    note inc = fires_increasing [OF assms(1), of k t]
    have "sorted_wrt (\<lambda>a b. instant a < instant b) ds"
      unfolding ds using inc by (intro sorted_wrt_take sorted_wrt_filter) simp
    moreover have "is_aware d \<and> instant now \<le> instant d" if "d \<in> set ds" for d
      using that inc unfolding ds by (auto simp: due_def dest: in_set_takeD)
    ultimately show ?thesis using k by blast
  qed
  then show ?thesis using run r by auto
qed

text \<open>
  The preview of a one-time task: its time when that is not in the past, and nothing
  otherwise; the loop ends at the first past time.
\<close>

theorem upcoming_once:
  assumes "aps_date_once aps" "t_trigger_type task = trigger_type_value ONCE"
    and "task_to_trigger_spec rt task = Inr (OnceTrigger d)"
    and "date_trigger aps (assume_utc d) = Inr t" "fire_time_utc (assume_utc d) = Inr u" "2 \<le> n"
  shows "compute_upcoming_run_times aps rt now task n
           = Some (Inr (if instant now \<le> instant d then [u] else []))"
proof -
  obtain t' t'' where t: "trigger_next aps t = Inr (Some (assume_utc d), t')"
    "trigger_next aps t' = Inr (None, t'')"
    using assms(1,4) unfolding aps_date_once_def by blast
  have "iter_upcoming aps now True (nat n - 1) t' = Some (Inr [])"
    using t assms by (simp add: iter_upcoming_turn)
  then have "iter_upcoming aps now True (nat n) t
      = Some (Inr (if instant now \<le> instant d then [u] else []))"
    using t assms fire_time_utc_facts(1) [OF assms(5)]
    by (simp add: iter_upcoming_turn due_def)
  then show ?thesis
    using assms by (simp add: compute_upcoming_run_times_def build_trigger_from_task_def)
qed

text \<open>
  The next fire time of a one-time specification is its own time, as an aware time, also
  when that time is in the past: the clock does not matter, so this computation never refuses
  an expired one-time schedule.
\<close>

theorem once_next_run_ignores_now:
  assumes "aps_date_once aps" "date_trigger aps (assume_utc d) = Inr t"
  shows "compute_next_run_at aps rt now (OnceTrigger d) = Inr (Some (assume_utc d))"
proof -
  obtain t' where "trigger_next aps t = Inr (Some (assume_utc d), t')"
    using assms by (auto simp: aps_date_once_def)
  moreover obtain z where "dt_tz (assume_utc d) = Some z"
    using assume_utc_aware [of d] by (auto simp: is_aware_def)
  ultimately show ?thesis
    using assms(2) by (simp add: compute_next_run_at_def)
qed

lemma next_run_at_aware:
  assumes "compute_next_run_at aps rt now s = Inr (Some d)"
  shows "is_aware d"
proof -
  obtain trigger r where "trigger_next aps trigger = Inr r" and "(case fst r of None \<Rightarrow> Inr None
     | Some next_fire \<Rightarrow>
         if dt_tz next_fire = None then Inr (Some (replace_tz next_fire TzUTC))
         else Inr (Some next_fire)) = (Inr (Some d) :: datetime option result)"
    using assms unfolding compute_next_run_at_def rbind_eq_Inr by blast
  then show ?thesis
    by (cases "fst r") (auto simp: is_aware_def replace_tz_def split: if_splits)
qed

section \<open>A concrete library and witnesses\<close>

datatype demo_trigger = DemoDate datetime bool | DemoEvery int int

fun demo_next :: "demo_trigger \<Rightarrow> (datetime option \<times> demo_trigger) result" where
  "demo_next (DemoDate d fired) = Inr (if fired then None else Some d, DemoDate d True)"
| "demo_next (DemoEvery u step) =
     (if 0 < step \<and> wall_ok u then Inr (Some (utc_datetime u), DemoEvery (u + step) step)
      else Inr (None, DemoEvery u step))"

fun demo_prev :: "demo_trigger \<Rightarrow> int" where
  "demo_prev (DemoDate d fired) = (if fired then instant d else instant d - 1)"
| "demo_prev (DemoEvery u step) = u - 1"

definition demo_aps :: "demo_trigger aps" where
  "demo_aps =
     \<lparr>date_trigger = (\<lambda>d. Inr (DemoDate d False)),
      from_crontab = (\<lambda>now e z.
        if e = ''0 9 * * *''
        then Inr (DemoEvery ((instant now div us_per_day) * us_per_day + 9 * us_per_hour) us_per_day)
        else Inl (ValueError ''Wrong number of fields'')),
      interval_trigger = (\<lambda>now s.
        if s div 86400 \<le> 999999999 then Inr (DemoEvery (instant now) (s * us_per_second))
        else Inl (OverflowError ''days out of range'')),
      trigger_next = demo_next\<rparr>"

lemma demo_advances: "aps_advances demo_aps demo_prev"
  unfolding aps_advances_def
proof (intro allI impI)
  fix t d t'
  assume "trigger_next demo_aps t = Inr (Some d, t')"
  then show "demo_prev t < instant d \<and> instant d \<le> demo_prev t'"
    by (cases t) (auto simp: demo_aps_def split: if_splits)
qed

lemma demo_date_once: "aps_date_once demo_aps"
  by (auto simp: aps_date_once_def demo_aps_def)

definition demo_task :: scheduled_task where
  "demo_task =
     \<lparr>t_id = 1, t_user_id = ''user-1'', t_webhook_url = ''https://example.com/hook'',
      t_parameters = [(''key'', ''value'')], t_trigger_type = ''interval'',
      t_trigger_config = [(''seconds'', JInt 3600)], t_next_run_at = Some frozen_time,
      t_is_active = True, t_created_at = frozen_time, t_updated_at = frozen_time\<rparr>"

definition demo_once_task :: scheduled_task where
  "demo_once_task = demo_task
     \<lparr>t_trigger_type := ''once'',
      t_trigger_config := [(''run_at'', JStr ''2026-05-24T08:00:00+00:00'')]\<rparr>"

lemma stored_schedule_roundtrip_witness:
  "\<exists>t'. task_to_trigger_spec demo_runtime demo_once_task = Inr (OnceTrigger t')
      \<and> instant t' = instant frozen_time"
proof -
  have s: "schedulable demo_runtime (OnceTrigger frozen_time)"
    by (simp add: schedulable_def dt_ok_def frozen_time_def wall_ok_def max_wall_def us_per_day_def)
  have c: "config_dump (trigger_config_from_spec (OnceTrigger frozen_time))
      = [(''run_at'', JStr ''2026-05-24T08:00:00+00:00'')]"
    using frozen_time_iso by (simp add: assume_utc_def frozen_time_def)
  show ?thesis
    using stored_schedule_roundtrip [OF s, of demo_once_task] c by (auto simp: demo_once_task_def)
qed

lemma demo_interval_trigger:
  "build_trigger_from_task demo_aps demo_runtime frozen_time demo_task
     = Inr (DemoEvery (instant frozen_time) (3600 * us_per_second))"
  by (simp add: build_trigger_from_task_def task_to_trigger_spec_def demo_task_def dict_item_def
      mk_interval_spec_def demo_aps_def)

lemma upcoming_run_times_correct_witness:
  "\<exists>r. compute_upcoming_run_times demo_aps demo_runtime frozen_time demo_task 5 = Some r"
proof -
  have "t_trigger_type demo_task \<noteq> trigger_type_value ONCE" by (simp add: demo_task_def)
  from upcoming_run_times_correct [OF demo_advances this demo_interval_trigger, of 5]
  show ?thesis by blast
qed

lemma fire_time_frozen: "fire_time_utc (assume_utc (reparsed frozen_time)) = Inr frozen_time"
  by (simp add: fire_time_utc_def reparsed_def assume_utc_def mk_tz_def astimezone_def
      frozen_time_def utc_datetime_def utcoffset_def)

lemma upcoming_once_witness:
  "compute_upcoming_run_times demo_aps demo_runtime frozen_time demo_once_task 5
     = Some (Inr [frozen_time])
   \<and> compute_upcoming_run_times demo_aps demo_runtime
       (utc_datetime (dt_wall frozen_time + 1)) demo_once_task 5 = Some (Inr [])"
proof -
  have spec: "task_to_trigger_spec demo_runtime demo_once_task = Inr (OnceTrigger (reparsed frozen_time))"
  proof -
    have "fromisoformat io ''2026-05-24T08:00:00+00:00'' = Inr (reparsed frozen_time)" for io
      using fromisoformat_isoformat [of frozen_time] frozen_time_iso
      by (simp add: dt_ok_def frozen_time_def wall_ok_def max_wall_def us_per_day_def)
    then show ?thesis
      by (simp add: task_to_trigger_spec_def demo_once_task_def dict_item_def fromisoformat_json_def)
  qed
  have ty: "t_trigger_type demo_once_task = trigger_type_value ONCE"
    by (simp add: demo_once_task_def)
  have d: "date_trigger demo_aps (assume_utc (reparsed frozen_time))
      = Inr (DemoDate (assume_utc (reparsed frozen_time)) False)"
    by (simp add: demo_aps_def)
  note run = upcoming_once [OF demo_date_once ty spec d fire_time_frozen, of 5]
  show ?thesis
    using run [of frozen_time] run [of "utc_datetime (dt_wall frozen_time + 1)"]
    by (simp add: frozen_time_def)
qed

text \<open>A time of the year 1 is reported as the next run.\<close>

lemma once_next_run_ignores_now_witness:
  "compute_next_run_at demo_aps demo_runtime frozen_time (OnceTrigger (utc_datetime 0))
     = Inr (Some (utc_datetime 0))"
  using once_next_run_ignores_now [OF demo_date_once, of "utc_datetime 0"]
  by (simp add: demo_aps_def assume_utc_id)

end
