(* ===== verification/Task_History.thy ===== *)
theory Task_History
  imports Store Triggers
begin

text \<open>
  The audit log: the rows that \<^verbatim>\<open>app/services/task_history.py\<close> builds, and the entries that
  \<^verbatim>\<open>app/schemas/history.py\<close> makes of rows. The constraint on the table describes the rows that are
  built, and an entry shows the schedule that was recorded.

  A column that gets a JSON value of another type than its own is refused by the driver; the
  model raises that error when the row is built, the program when the row is flushed.
\<close>

section \<open>Building rows\<close>

definition text_column :: "json \<Rightarrow> string option result" where
  "text_column j =
     (case j of
        JStr s \<Rightarrow> Inr (Some s)
      | JNull \<Rightarrow> Inr None
      | _ \<Rightarrow> Inl (DatabaseError ''invalid input for query argument''))"

definition integer_column :: "json \<Rightarrow> int option result" where
  "integer_column j =
     (case j of
        JInt n \<Rightarrow> Inr (Some n)
      | JNull \<Rightarrow> Inr None
      | _ \<Rightarrow> Inl (DatabaseError ''invalid input for query argument''))"

record trigger_cols =
  tcol_cron_expression :: "string option"
  tcol_cron_timezone :: "string option"
  tcol_interval_seconds :: "int option"
  tcol_once_run_at :: "datetime option"

definition no_trigger_cols :: trigger_cols where
  "no_trigger_cols =
     \<lparr>tcol_cron_expression = None, tcol_cron_timezone = None, tcol_interval_seconds = None,
      tcol_once_run_at = None\<rparr>"

text \<open>\<^verbatim>\<open>datetime.fromisoformat(run_at.replace("Z", "+00:00"))\<close> of a text\<close>

definition parse_run_at :: "runtime \<Rightarrow> json \<Rightarrow> datetime option result" where
  "parse_run_at rt run_at =
     (case run_at of
        JStr s \<Rightarrow>
          rbind (fromisoformat (iso_other rt) (py_replace ''Z'' ''+00:00'' s)) (\<lambda>d. Inr (Some d))
      | JNull \<Rightarrow> Inr None
      | _ \<Rightarrow> Inl (DatabaseError ''invalid input for query argument''))"

definition trigger_columns :: "runtime \<Rightarrow> string \<Rightarrow> dict \<Rightarrow> trigger_cols result" where
  "trigger_columns rt ty config =
     (if ty = trigger_type_value CRON then
        rbind (dict_item config ''expression'') (\<lambda>e.
        rbind (text_column e) (\<lambda>expression.
        rbind (text_column (dict_get config ''timezone'' (JStr ''UTC''))) (\<lambda>tz.
        Inr (no_trigger_cols\<lparr>tcol_cron_expression := expression, tcol_cron_timezone := tz\<rparr>))))
      else if ty = trigger_type_value INTERVAL then
        rbind (dict_item config ''seconds'') (\<lambda>s.
        rbind (integer_column s) (\<lambda>seconds.
        Inr (no_trigger_cols\<lparr>tcol_interval_seconds := seconds\<rparr>)))
      else if ty = trigger_type_value ONCE then
        rbind (dict_item config ''run_at'') (\<lambda>run_at.
        rbind (parse_run_at rt run_at) (\<lambda>parsed.
        Inr (no_trigger_cols\<lparr>tcol_once_run_at := parsed\<rparr>)))
      else Inl (ValueError (''Unsupported trigger type: '' @ ty)))"

text \<open>A row with the columns that every kind has; \<open>now\<close> stands for the default of \<^verbatim>\<open>created_at\<close>.\<close>

definition history_row ::
  "uuid \<Rightarrow> string \<Rightarrow> uuid \<Rightarrow> task_history_event_type \<Rightarrow> datetime \<Rightarrow> task_history" where
  "history_row i user_id task_id event now =
     \<lparr>h_id = i, h_user_id = user_id, h_task_id = task_id, h_event_type = event_type_value event,
      h_webhook_url = None, h_trigger_type = None, h_cron_expression = None, h_cron_timezone = None,
      h_interval_seconds = None, h_once_run_at = None, h_execution_source = None,
      h_http_status = None, h_error_message = None, h_success = None, h_created_at = now\<rparr>"

definition snapshot_from_task ::
  "runtime \<Rightarrow> scheduled_task \<Rightarrow> task_history \<Rightarrow> task_history result" where
  "snapshot_from_task rt task row =
     rbind (trigger_columns rt (t_trigger_type task) (t_trigger_config task)) (\<lambda>columns.
       Inr (row\<lparr>h_webhook_url := Some (t_webhook_url task), h_trigger_type := Some (t_trigger_type task),
             h_cron_expression := tcol_cron_expression columns,
             h_cron_timezone := tcol_cron_timezone columns,
             h_interval_seconds := tcol_interval_seconds columns,
             h_once_run_at := tcol_once_run_at columns\<rparr>))"

text \<open>The four recorders give the write that they add to the session; \<open>i\<close> is \<^verbatim>\<open>uuid4()\<close>.\<close>

definition record_task_created ::
  "runtime \<Rightarrow> uuid \<Rightarrow> datetime \<Rightarrow> string \<Rightarrow> scheduled_task \<Rightarrow> db_write result" where
  "record_task_created rt i now user_id task =
     rbind (snapshot_from_task rt task (history_row i user_id (t_id task) TASK_CREATED now))
       (\<lambda>row. Inr (InsertHistory row))"

definition record_task_lifecycle ::
  "uuid \<Rightarrow> datetime \<Rightarrow> string \<Rightarrow> uuid \<Rightarrow> task_history_event_type \<Rightarrow> db_write" where
  "record_task_lifecycle i now user_id task_id event =
     InsertHistory (history_row i user_id task_id event now)"

definition record_task_deleted ::
  "runtime \<Rightarrow> uuid \<Rightarrow> datetime \<Rightarrow> string \<Rightarrow> scheduled_task \<Rightarrow> db_write result" where
  "record_task_deleted rt i now user_id task =
     rbind (snapshot_from_task rt task (history_row i user_id (t_id task) TASK_DELETED now))
       (\<lambda>row. Inr (InsertHistory row))"

definition record_execution ::
  "uuid \<Rightarrow> datetime \<Rightarrow> string \<Rightarrow> uuid \<Rightarrow> execution_source \<Rightarrow> string \<Rightarrow> bool \<Rightarrow> int option
     \<Rightarrow> string option \<Rightarrow> db_write" where
  "record_execution i now user_id task_id source webhook_url success http_status error_message =
     InsertHistory ((history_row i user_id task_id EXECUTION now)
       \<lparr>h_webhook_url := Some webhook_url, h_execution_source := Some (execution_source_value source),
        h_http_status := http_status, h_error_message := error_message, h_success := Some success\<rparr>)"

section \<open>Reading rows\<close>

record history_list_query =
  hq_event_type :: "task_history_event_type option"
  hq_task_id :: "uuid option"
  hq_since :: "datetime option"
  hq_until :: "datetime option"
  hq_order :: sort_order
  hq_limit :: int
  hq_offset :: int

definition default_history_list_query :: history_list_query where
  "default_history_list_query =
     \<lparr>hq_event_type = None, hq_task_id = None, hq_since = None, hq_until = None, hq_order = DESC,
      hq_limit = 50, hq_offset = 0\<rparr>"

definition valid_history_list_query :: "history_list_query \<Rightarrow> bool" where
  "valid_history_list_query q \<longleftrightarrow> valid_page (hq_limit q) (hq_offset q)"

record entry_base =
  eb_id :: string
  eb_task_id :: string
  eb_created_at :: datetime

record webhook_fire_outcome =
  wo_http_status :: "int option"
  wo_error_message :: "string option"
  wo_success :: bool

record webhook_fire_result =
  wr_execution_source :: execution_source
  wr_webhook_url :: string
  wr_http_status :: "int option"
  wr_error_message :: "string option"
  wr_success :: bool

definition webhook_fire_result ::
  "execution_source \<Rightarrow> string \<Rightarrow> webhook_fire_outcome \<Rightarrow> webhook_fire_result" where
  "webhook_fire_result source url outcome =
     \<lparr>wr_execution_source = source, wr_webhook_url = url, wr_http_status = wo_http_status outcome,
      wr_error_message = wo_error_message outcome, wr_success = wo_success outcome\<rparr>"

datatype history_entry =
    TaskCreatedEntry entry_base string trigger_type trigger_config
  | TaskActivatedEntry entry_base
  | TaskDeactivatedEntry entry_base
  | TaskDeletedEntry entry_base string trigger_type trigger_config
  | ExecutionEntry entry_base webhook_fire_result

text \<open>A text of an enumeration as its member; pydantic refuses any other text, and \<open>None\<close>.\<close>

definition trigger_type_member :: "string \<Rightarrow> trigger_type option" where
  "trigger_type_member s =
     (if s = ''once'' then Some ONCE else if s = ''cron'' then Some CRON
      else if s = ''interval'' then Some INTERVAL else None)"

definition execution_source_member :: "string \<Rightarrow> execution_source option" where
  "execution_source_member s =
     (if s = ''scheduled'' then Some SCHEDULED else if s = ''manual'' then Some MANUAL else None)"

definition pydantic_member :: "(string \<Rightarrow> 'a option) \<Rightarrow> string option \<Rightarrow> 'a result" where
  "pydantic_member f c =
     (case c of
        None \<Rightarrow> Inl (ValidationError ''Input should be a member'')
      | Some s \<Rightarrow> (case f s of None \<Rightarrow> Inl (ValidationError ''Input should be a member'') | Some x \<Rightarrow> Inr x))"

text \<open>Python's \<^verbatim>\<open>or\<close> on an optional column: an empty text or a zero counts as missing.\<close>

definition text_or :: "string option \<Rightarrow> string \<Rightarrow> string" where
  "text_or c d = (case c of None \<Rightarrow> d | Some s \<Rightarrow> if s = [] then d else s)"

definition datetime_min :: datetime where
  "datetime_min = \<lparr>dt_wall = 0, dt_tz = None, dt_fold = False\<rparr>"

definition trigger_config_from_row :: "task_history \<Rightarrow> trigger_config result" where
  "trigger_config_from_row row =
     (if h_trigger_type row = Some (trigger_type_value CRON) then
        Inr (CronTriggerConfig (text_or (h_cron_expression row) '''')
               (text_or (h_cron_timezone row) ''UTC''))
      else if h_trigger_type row = Some (trigger_type_value INTERVAL) then
        Inr (IntervalTriggerConfig (case h_interval_seconds row of None \<Rightarrow> 0 | Some n \<Rightarrow> n))
      else if h_trigger_type row = Some (trigger_type_value ONCE) then
        Inr (OnceTriggerConfig (isoformat
               (case h_once_run_at row of None \<Rightarrow> datetime_min | Some d \<Rightarrow> d)))
      else Inl (ValueError ''Unsupported trigger type''))"

definition entry_from_row :: "task_history \<Rightarrow> history_entry result" where
  "entry_from_row row =
     (let base = \<lparr>eb_id = uuid_str (h_id row), eb_task_id = uuid_str (h_task_id row),
                  eb_created_at = h_created_at row\<rparr>
      in if h_event_type row = event_type_value TASK_CREATED then
           rbind (trigger_config_from_row row) (\<lambda>config.
           rbind (pydantic_member trigger_type_member (h_trigger_type row)) (\<lambda>ty.
           Inr (TaskCreatedEntry base (text_or (h_webhook_url row) '''') ty config)))
         else if h_event_type row = event_type_value TASK_ACTIVATED then Inr (TaskActivatedEntry base)
         else if h_event_type row = event_type_value TASK_DEACTIVATED then Inr (TaskDeactivatedEntry base)
         else if h_event_type row = event_type_value TASK_DELETED then
           rbind (trigger_config_from_row row) (\<lambda>config.
           rbind (pydantic_member trigger_type_member (h_trigger_type row)) (\<lambda>ty.
           Inr (TaskDeletedEntry base (text_or (h_webhook_url row) '''') ty config)))
         else if h_event_type row = event_type_value EXECUTION then
           rbind (pydantic_member execution_source_member (h_execution_source row)) (\<lambda>source.
           Inr (ExecutionEntry base
             \<lparr>wr_execution_source = source, wr_webhook_url = text_or (h_webhook_url row) '''',
              wr_http_status = h_http_status row, wr_error_message = h_error_message row,
              wr_success = (case h_success row of None \<Rightarrow> False | Some b \<Rightarrow> b)\<rparr>))
         else Inl (ValueError (''Unsupported event type: '' @ h_event_type row)))"

section \<open>Facts\<close>

definition stores_spec :: "scheduled_task \<Rightarrow> structured_trigger \<Rightarrow> bool" where
  "stores_spec task s \<longleftrightarrow>
     t_trigger_type task = trigger_type_value (spec_type s)
     \<and> t_trigger_config task = config_dump (trigger_config_from_spec s)"

fun spec_columns :: "structured_trigger \<Rightarrow> trigger_cols" where
  "spec_columns (OnceTrigger t) = no_trigger_cols\<lparr>tcol_once_run_at := Some (reparsed (assume_utc t))\<rparr>"
| "spec_columns (CronTriggerSpec e z) =
     no_trigger_cols\<lparr>tcol_cron_expression := Some e, tcol_cron_timezone := Some z\<rparr>"
| "spec_columns (IntervalTriggerSpec n) = no_trigger_cols\<lparr>tcol_interval_seconds := Some n\<rparr>"

lemma parse_run_at_isoformat:
  assumes "dt_ok d"
  shows "parse_run_at rt (JStr (isoformat d)) = Inr (Some (reparsed d))"
proof -
  have "CHR ''Z'' \<notin> set (isoformat d)" by (rule isoformat_no) simp_all
  then show ?thesis
    using assms by (simp add: parse_run_at_def py_replace_absent fromisoformat_isoformat)
qed

lemma trigger_columns_spec:
  assumes "schedulable rt s"
  shows "trigger_columns rt (trigger_type_value (spec_type s)) (config_dump (trigger_config_from_spec s))
    = Inr (spec_columns s)"
  using assms
  by (cases s)
    (simp_all add: trigger_columns_def dict_item_def dict_get_def text_column_def integer_column_def
      schedulable_def parse_run_at_isoformat dt_ok_assume_utc)

text \<open>A snapshot row of a stored schedule, as it is built.\<close>

definition spec_row :: "scheduled_task \<Rightarrow> structured_trigger \<Rightarrow> task_history \<Rightarrow> task_history" where
  "spec_row task s row =
     row\<lparr>h_webhook_url := Some (t_webhook_url task),
         h_trigger_type := Some (trigger_type_value (spec_type s)),
         h_cron_expression := tcol_cron_expression (spec_columns s),
         h_cron_timezone := tcol_cron_timezone (spec_columns s),
         h_interval_seconds := tcol_interval_seconds (spec_columns s),
         h_once_run_at := tcol_once_run_at (spec_columns s)\<rparr>"

lemma snapshot_from_task_spec:
  assumes "schedulable rt s" "stores_spec task s"
  shows "snapshot_from_task rt task row = Inr (spec_row task s row)"
  using trigger_columns_spec [OF assms(1)] assms(2)
  by (simp add: snapshot_from_task_def stores_spec_def spec_row_def)

lemma spec_row_shape:
  assumes "event = TASK_CREATED \<or> event = TASK_DELETED"
  shows "task_history_event_shape (spec_row task s (history_row i u tid event now))"
  using assms
  by (cases s) (auto simp: task_history_event_shape_def snapshot_shape_def spec_row_def
      history_row_def no_trigger_cols_def)

lemma lifecycle_row_shape:
  "event = TASK_ACTIVATED \<or> event = TASK_DEACTIVATED \<Longrightarrow>
     task_history_event_shape (history_row i u tid event now)"
  by (auto simp: task_history_event_shape_def lifecycle_shape_def history_row_def)

lemma execution_row_shape:
  assumes "record_execution i now u tid source url success status msg = InsertHistory row"
  shows "task_history_event_shape row \<longleftrightarrow> success = False \<or> status \<noteq> None"
proof -
  let ?row = "(history_row i u tid EXECUTION now)
       \<lparr>h_webhook_url := Some url, h_execution_source := Some (execution_source_value source),
        h_http_status := status, h_error_message := msg, h_success := Some success\<rparr>"
  have "row = ?row" using assms by (simp add: record_execution_def)
  moreover have "\<not> snapshot_shape ?row" "\<not> lifecycle_shape ?row"
    by (simp_all add: snapshot_shape_def lifecycle_shape_def)
  moreover have "execution_shape ?row \<longleftrightarrow> success = False \<or> status \<noteq> None"
    by (simp add: execution_shape_def history_row_def)
  ultimately show ?thesis by (simp only: task_history_event_shape_def simp_thms)
qed

lemma trigger_type_member_value [simp]: "trigger_type_member (trigger_type_value ty) = Some ty"
  by (cases ty) (simp_all add: trigger_type_member_def)

lemma execution_source_member_value [simp]:
  "execution_source_member (execution_source_value s) = Some s"
  by (cases s) (simp_all add: execution_source_member_def)

text \<open>The configuration that an entry shows for a recorded schedule.\<close>

definition shown_config :: "structured_trigger \<Rightarrow> trigger_config" where
  "shown_config s =
     (case s of
        OnceTrigger t \<Rightarrow> OnceTriggerConfig (isoformat (stored_time t))
      | CronTriggerSpec e z \<Rightarrow> CronTriggerConfig e (if z = [] then ''UTC'' else z)
      | IntervalTriggerSpec n \<Rightarrow> IntervalTriggerConfig n)"

lemma stored_spec_row:
  "h_trigger_type (stored_history now (spec_row task s row)) = Some (trigger_type_value (spec_type s))"
  "h_webhook_url (stored_history now (spec_row task s row)) = Some (t_webhook_url task)"
  "h_event_type (stored_history now (spec_row task s row)) = h_event_type row"
  "h_cron_expression (stored_history now (spec_row task s row)) = tcol_cron_expression (spec_columns s)"
  "h_cron_timezone (stored_history now (spec_row task s row)) = tcol_cron_timezone (spec_columns s)"
  "h_interval_seconds (stored_history now (spec_row task s row)) = tcol_interval_seconds (spec_columns s)"
  "h_once_run_at (stored_history now (spec_row task s row))
     = map_option stored_time (tcol_once_run_at (spec_columns s))"
  by (simp_all add: stored_history_def spec_row_def)

lemma spec_row_seconds:
  "h_interval_seconds (spec_row task s row) = tcol_interval_seconds (spec_columns s)"
  by (simp add: spec_row_def)

lemma stored_time_same: "instant a = instant b \<Longrightarrow> stored_time a = stored_time b"
  by (simp add: stored_time_def)

lemma trigger_config_from_spec_row:
  "trigger_config_from_row (stored_history now (spec_row task s row)) = Inr (shown_config s)"
proof (cases s)
  case (OnceTrigger t)
  have "stored_time (reparsed (assume_utc t)) = stored_time t" by (rule stored_time_same) simp
  then show ?thesis
    by (simp add: trigger_config_from_row_def stored_spec_row OnceTrigger shown_config_def)
qed (simp_all add: trigger_config_from_row_def stored_spec_row no_trigger_cols_def shown_config_def
    text_or_def spec_row_seconds)

lemma entry_from_spec_row:
  "h_event_type row = event_type_value TASK_CREATED \<Longrightarrow>
     \<exists>base. entry_from_row (stored_history now (spec_row task s row))
       = Inr (TaskCreatedEntry base (t_webhook_url task) (spec_type s) (shown_config s))"
  "h_event_type row = event_type_value TASK_DELETED \<Longrightarrow>
     \<exists>base. entry_from_row (stored_history now (spec_row task s row))
       = Inr (TaskDeletedEntry base (t_webhook_url task) (spec_type s) (shown_config s))"
  by (simp_all add: entry_from_row_def trigger_config_from_spec_row stored_spec_row pydantic_member_def
      text_or_def)

lemma shaped_row_readable:
  assumes "task_history_event_shape row"
    and "\<forall>s. h_execution_source row = Some s \<longrightarrow> (\<exists>src. s = execution_source_value src)"
  shows "\<exists>e. entry_from_row row = Inr e"
proof -
  have "snapshot_shape row \<or> lifecycle_shape row \<or> execution_shape row"
    using assms(1) by (simp add: task_history_event_shape_def)
  then show ?thesis
  proof (elim disjE)
    assume s: "snapshot_shape row"
    then have "\<exists>ty c. h_trigger_type row = Some (trigger_type_value ty) \<and> trigger_config_from_row row = Inr c"
      by (auto simp: snapshot_shape_def trigger_config_from_row_def
          intro: exI [of _ CRON] exI [of _ INTERVAL] exI [of _ ONCE])
    then show ?thesis
      using s by (auto simp: snapshot_shape_def entry_from_row_def pydantic_member_def)
  next
    assume "lifecycle_shape row"
    then show ?thesis by (auto simp: lifecycle_shape_def entry_from_row_def)
  next
    assume e: "execution_shape row"
    then obtain src where "h_execution_source row = Some (execution_source_value src)"
      using assms(2) by (auto simp: execution_shape_def)
    then show ?thesis
      using e by (simp add: execution_shape_def entry_from_row_def pydantic_member_def)
  qed
qed

section \<open>Properties\<close>

text \<open>
  (C29) The audit log shows the schedule that was stored: the row that is recorded when a task is
  created or deleted satisfies the constraint of the table, and the entry made of the stored row
  has the task's address, the type and the configuration of the schedule: the same expression
  and zone, the same number of seconds, or a time in UTC of the same instant.
\<close>

theorem audit_entry_shows_schedule:
  assumes "schedulable rt s" "stores_spec task s" "\<forall>e z. s = CronTriggerSpec e z \<longrightarrow> z \<noteq> []"
  shows "\<exists>row base. record_task_created rt i now u task = Inr (InsertHistory row)
    \<and> task_history_event_shape row
    \<and> entry_from_row (stored_history now row)
        = Inr (TaskCreatedEntry base (t_webhook_url task) (spec_type s) (shown_config s))
    \<and> (case s of
         OnceTrigger t \<Rightarrow> (\<exists>d. shown_config s = OnceTriggerConfig (isoformat d) \<and> instant d = instant t)
       | _ \<Rightarrow> shown_config s = trigger_config_from_spec s)
    \<and> (\<exists>row' base'. record_task_deleted rt i now u task = Inr (InsertHistory row')
         \<and> task_history_event_shape row'
         \<and> entry_from_row (stored_history now row')
             = Inr (TaskDeletedEntry base' (t_webhook_url task) (spec_type s) (shown_config s)))"
proof -
  let ?row = "\<lambda>ev. spec_row task s (history_row i u (t_id task) ev now)"
  have entry: "\<exists>base. entry_from_row (stored_history now (?row TASK_CREATED))
      = Inr (TaskCreatedEntry base (t_webhook_url task) (spec_type s) (shown_config s))"
    "\<exists>base. entry_from_row (stored_history now (?row TASK_DELETED))
      = Inr (TaskDeletedEntry base (t_webhook_url task) (spec_type s) (shown_config s))"
    by (rule entry_from_spec_row, simp add: history_row_def)+
  have "case s of
         OnceTrigger t \<Rightarrow> (\<exists>d. shown_config s = OnceTriggerConfig (isoformat d) \<and> instant d = instant t)
       | _ \<Rightarrow> shown_config s = trigger_config_from_spec s"
    using assms(3) by (cases s) (auto simp: shown_config_def intro: exI [of _ "stored_time _"])
  then show ?thesis
    using entry spec_row_shape [of TASK_CREATED] spec_row_shape [of TASK_DELETED]
    by (simp add: record_task_created_def record_task_deleted_def snapshot_from_task_spec [OF assms(1,2)])
qed

text \<open>
  Every row that satisfies the constraint of the table, with an execution source that the
  recorders write, is turned into an entry; listing the history never fails on such rows.
\<close>

theorem checked_row_readable:
  assumes "task_history_event_shape row"
    and "\<forall>s. h_execution_source row = Some s \<longrightarrow> (\<exists>src. s = execution_source_value src)"
  shows "\<exists>e. entry_from_row row = Inr e"
  by (rule shaped_row_readable [OF assms])

section \<open>Witnesses\<close>

lemma demo_stores: "stores_spec demo_task (IntervalTriggerSpec 3600)"
  by (simp add: stores_spec_def demo_task_def)

lemma audit_entry_shows_schedule_witness:
  "\<exists>row base. record_task_created demo_runtime 7 frozen_time ''user-1'' demo_task = Inr (InsertHistory row)
    \<and> entry_from_row (stored_history frozen_time row)
        = Inr (TaskCreatedEntry base ''https://example.com/hook'' INTERVAL (IntervalTriggerConfig 3600))"
proof -
  have "schedulable demo_runtime (IntervalTriggerSpec 3600)" by (simp add: schedulable_def)
  from audit_entry_shows_schedule [OF this demo_stores, of 7 frozen_time "''user-1''"]
  show ?thesis by (auto simp: shown_config_def demo_task_def)
qed

lemma checked_row_readable_witness:
  "\<exists>e. entry_from_row ((history_row 1 ''user-1'' 2 EXECUTION frozen_time)
     \<lparr>h_webhook_url := Some ''https://example.com/hook'', h_execution_source := Some ''manual'',
      h_http_status := Some 500, h_success := Some False\<rparr>) = Inr e"
  by (rule checked_row_readable)
    (auto simp: task_history_event_shape_def execution_shape_def history_row_def
      intro: exI [of _ MANUAL])

end
