(* ===== verification/Auth.thy ===== *)
theory Auth
  imports Schemas Py_Text
begin

text \<open>
  Authentication: \<^verbatim>\<open>app/auth/\<close>. The middleware decides whether a request goes on, and with which
  user in its state; the dependency \<^verbatim>\<open>get_current_user\<close> hands that user to the protected routes.
  The token library (PyJWT) is the record \<open>jwt_lib\<close>: signing a payload, and the payload of a token
  at a time, which may raise.
\<close>

section \<open>Settings and the token library\<close>

record auth_settings =
  as_jwt_secret :: string
  as_jwt_algorithm :: string

definition default_auth_settings :: "string \<Rightarrow> auth_settings" where
  "default_auth_settings secret = \<lparr>as_jwt_secret = secret, as_jwt_algorithm = ''HS256''\<rparr>"

text \<open>A claim to sign is a text or a time.\<close>

datatype claim = ClaimText string | ClaimTime datetime

type_synonym payload = "(string \<times> claim) list"

record jwt_lib =
  jwt_encode :: "payload \<Rightarrow> string \<Rightarrow> string \<Rightarrow> string result"
  jwt_decode :: "datetime \<Rightarrow> string \<Rightarrow> string \<Rightarrow> string list \<Rightarrow> dict result"

text \<open>
  The documented behaviour of the library, for the algorithms that sign with a shared secret and
  payloads of texts without the claims \<^verbatim>\<open>nbf\<close>, \<^verbatim>\<open>iat\<close>, \<^verbatim>\<open>aud\<close>, \<^verbatim>\<open>iss\<close> and \<^verbatim>\<open>jti\<close>, which it checks in
  ways of their own: a token decodes with the secret and the algorithm that signed it, to a payload
  with the texts that were signed, as long as the time is before the expiry. The token has the
  expiry in whole seconds.
\<close>

definition hmac_algorithms :: "string set" where
  "hmac_algorithms = {''HS256'', ''HS384'', ''HS512''}"

definition plain_claims :: "payload \<Rightarrow> bool" where
  "plain_claims p \<longleftrightarrow>
     distinct (map fst p) \<and> set (map fst p) \<inter> {''nbf'', ''iat'', ''aud'', ''iss'', ''jti''} = {}"

definition whole_second :: "int \<Rightarrow> int" where
  "whole_second us = us div us_per_second * us_per_second"

definition jwt_ok :: "jwt_lib \<Rightarrow> bool" where
  "jwt_ok lib \<longleftrightarrow>
     (\<forall>p secret alg token now exp.
        alg \<in> hmac_algorithms \<and> plain_claims p \<and> jwt_encode lib p secret alg = Inr token
        \<and> map_of p ''exp'' = Some (ClaimTime exp) \<and> dt_tz exp = Some TzUTC \<and> dt_tz now = Some TzUTC
        \<and> instant now < whole_second (instant exp) \<longrightarrow>
        (\<exists>d. jwt_decode lib now token secret [alg] = Inr d
           \<and> (\<forall>k s. map_of p k = Some (ClaimText s) \<longrightarrow> map_of d k = Some (JStr s))))"

section \<open>Tokens\<close>

definition decode_token :: "jwt_lib \<Rightarrow> datetime \<Rightarrow> string \<Rightarrow> auth_settings \<Rightarrow> dict result" where
  "decode_token lib now token settings =
     jwt_decode lib now token (as_jwt_secret settings) [as_jwt_algorithm settings]"

text \<open>\<^verbatim>\<open>payload.update(extra_claims)\<close>\<close>

fun claim_put :: "string \<Rightarrow> claim \<Rightarrow> payload \<Rightarrow> payload" where
  "claim_put k v [] = [(k, v)]"
| "claim_put k v ((k', v') # p) = (if k = k' then (k, v) # p else (k', v') # claim_put k v p)"

definition claims_update :: "payload \<Rightarrow> payload \<Rightarrow> payload" where
  "claims_update p extra = foldl (\<lambda>q (k, v). claim_put k v q) p extra"

definition encode_token ::
  "jwt_lib \<Rightarrow> datetime \<Rightarrow> auth_settings \<Rightarrow> string \<Rightarrow> int \<Rightarrow> payload \<Rightarrow> string result" where
  "encode_token lib now settings sub expires_in extra_claims =
     rbind (dt_add now expires_in) (\<lambda>exp.
       jwt_encode lib (claims_update [(''sub'', ClaimText sub), (''exp'', ClaimTime exp)] extra_claims)
         (as_jwt_secret settings) (as_jwt_algorithm settings))"

section \<open>The middleware\<close>

text \<open>
  A JSON value as Python sees it: its truth, and \<^verbatim>\<open>str()\<close> of it. The texts of a number with a
  fraction and of a container are left to \<open>str_other\<close>, and so is whether such a number is zero.
\<close>

record py_values =
  str_other :: "json \<Rightarrow> string"
  float_is_zero :: "string \<Rightarrow> bool"

fun json_true :: "py_values \<Rightarrow> json \<Rightarrow> bool" where
  "json_true pv JNull = False"
| "json_true pv (JBool b) = b"
| "json_true pv (JInt n) = (n \<noteq> 0)"
| "json_true pv (JFloat s) = (\<not> float_is_zero pv s)"
| "json_true pv (JStr s) = (s \<noteq> [])"
| "json_true pv (JArr xs) = (xs \<noteq> [])"
| "json_true pv (JObj d) = (d \<noteq> [])"

fun json_str :: "py_values \<Rightarrow> json \<Rightarrow> string" where
  "json_str pv (JStr s) = s"
| "json_str pv JNull = ''None''"
| "json_str pv (JBool b) = (if b then ''True'' else ''False'')"
| "json_str pv (JInt n) = int_str n"
| "json_str pv j = str_other pv j"

definition PUBLIC_PATHS :: "string set" where
  "PUBLIC_PATHS = {''/health'', ''/docs'', ''/openapi.json'', ''/redoc''}"

record http_request =
  rq_path :: string
  rq_authorization :: "string option"

text \<open>A request is answered by the middleware, or goes on with \<^verbatim>\<open>request.state.user_id\<close>.\<close>

datatype gate =
    Refused int string
  | Passed "string option"

record auth_env =
  ae_lib :: jwt_lib
  ae_settings :: auth_settings
  ae_values :: py_values

fun is_PyJWTError :: "exn \<Rightarrow> bool" where
  "is_PyJWTError (PyJWTError _) = True"
| "is_PyJWTError _ = False"

definition auth_dispatch :: "auth_env \<Rightarrow> datetime \<Rightarrow> http_request \<Rightarrow> gate result" where
  "auth_dispatch env now request =
     (if rq_path request \<in> PUBLIC_PATHS then Inr (Passed None)
      else
        case rq_authorization request of
          None \<Rightarrow> Inr (Refused 401 ''Missing bearer token'')
        | Some header \<Rightarrow>
            if header = [] \<or> \<not> is_prefix ''Bearer '' header
            then Inr (Refused 401 ''Missing bearer token'')
            else
              (case decode_token (ae_lib env) now (drop (length ''Bearer '') header) (ae_settings env) of
                 Inl e \<Rightarrow>
                   if is_PyJWTError e then Inr (Refused 401 ''Invalid token'') else Inl e
               | Inr payload \<Rightarrow>
                   let user_id = dict_get payload ''sub'' JNull
                   in if \<not> json_true (ae_values env) user_id
                      then Inr (Refused 401 ''Missing sub claim'')
                      else Inr (Passed (Some (json_str (ae_values env) user_id)))))"

record current_user =
  cu_user_id :: string

definition get_current_user :: "string option \<Rightarrow> current_user result" where
  "get_current_user user_id =
     (case user_id of
        None \<Rightarrow> Inl (HTTPException 401 ''Not authenticated'')
      | Some u \<Rightarrow>
          if u = [] then Inl (HTTPException 401 ''Not authenticated'')
          else Inr \<lparr>cu_user_id = u\<rparr>)"

text \<open>
  What a protected route gets: the user of the request, the exception of the dependency, or the
  answer of the middleware as an exception of its status. The other dependency of these routes,
  \<^verbatim>\<open>require_bearer_token\<close>, belongs to \<open>solve_dependencies\<close> of \<open>Http_Routing\<close>.
\<close>

definition authenticate :: "auth_env \<Rightarrow> datetime \<Rightarrow> http_request \<Rightarrow> current_user result" where
  "authenticate env now request =
     rbind (auth_dispatch env now request) (\<lambda>g.
       case g of
         Refused status detail \<Rightarrow> Inl (HTTPException status detail)
       | Passed user_id \<Rightarrow> get_current_user user_id)"

text \<open>\<^verbatim>\<open>scripts/mint_dev_jwt.py\<close>\<close>

definition mint_dev_jwt ::
  "jwt_lib \<Rightarrow> datetime \<Rightarrow> auth_settings \<Rightarrow> string \<Rightarrow> int \<Rightarrow> string result" where
  "mint_dev_jwt lib now auth sub expires_in_hours =
     rbind (mk_timedelta (expires_in_hours * us_per_hour)) (\<lambda>delta.
     rbind (dt_add now delta) (\<lambda>exp.
       jwt_encode lib [(''sub'', ClaimText sub), (''exp'', ClaimTime exp)]
         (as_jwt_secret auth) (as_jwt_algorithm auth)))"

section \<open>Properties\<close>

text \<open>
  (C22) A protected route runs for a user exactly when the path is not public and the request
  carries a bearer token that decodes, with a true \<^verbatim>\<open>sub\<close> claim whose text is not empty; the user
  is that text. Everything else is refused with status 401, or fails with what the token library
  raises outside its own class of errors.
\<close>

theorem authenticated_iff_token:
  "authenticate env now request = Inr user \<longleftrightarrow>
     rq_path request \<notin> PUBLIC_PATHS
     \<and> (\<exists>token payload sub. rq_authorization request = Some (''Bearer '' @ token)
          \<and> decode_token (ae_lib env) now token (ae_settings env) = Inr payload
          \<and> sub = dict_get payload ''sub'' JNull \<and> json_true (ae_values env) sub
          \<and> cu_user_id user = json_str (ae_values env) sub \<and> cu_user_id user \<noteq> [])"
proof (cases "\<exists>token. rq_authorization request = Some (''Bearer '' @ token)")
  case True
  then obtain token where h: "rq_authorization request = Some (''Bearer '' @ token)" by blast
  have p: "is_prefix ''Bearer '' (''Bearer '' @ token)" by (simp add: is_prefix_iff)
  show ?thesis
    by (cases user)
      (auto simp: authenticate_def auth_dispatch_def h get_current_user_def Let_def rbind_eq_Inr
        split: sum.splits if_splits)
next
  case False
  then have "authenticate env now request \<noteq> Inr user"
    by (auto simp: authenticate_def auth_dispatch_def get_current_user_def is_prefix_iff
        split: option.splits if_splits)
  then show ?thesis using False by blast
qed

section \<open>A concrete token library\<close>

text \<open>It signs the payload of the webhooks of one user, with any expiry time.\<close>

fun text_claims :: "payload \<Rightarrow> (string \<times> string) list" where
  "text_claims [] = []"
| "text_claims ((k, c) # p) =
     (case c of ClaimText s \<Rightarrow> (k, s) # text_claims p | ClaimTime _ \<Rightarrow> text_claims p)"

definition demo_encode :: "payload \<Rightarrow> string \<Rightarrow> string \<Rightarrow> string result" where
  "demo_encode p secret alg =
     (if map fst (text_claims p) = [''sub'', ''task_id'', ''purpose'']
         \<and> text_claims p ! 0 = (''sub'', ''user-1'') \<and> text_claims p ! 2 = (''purpose'', ''webhook'')
      then Inr (''token '' @ snd (text_claims p ! 1)) else Inl (PyJWTError ''unsupported''))"

definition demo_jwt :: jwt_lib where
  "demo_jwt =
     \<lparr>jwt_encode = demo_encode,
      jwt_decode = (\<lambda>now token secret algs.
        if is_prefix ''token '' token
        then Inr [(''sub'', JStr ''user-1''), (''task_id'', JStr (drop 6 token)), (''purpose'', JStr ''webhook'')]
        else Inl (PyJWTError ''Invalid token''))\<rparr>"

definition demo_auth :: auth_env where
  "demo_auth =
     \<lparr>ae_lib = demo_jwt, ae_settings = default_auth_settings ''secret'',
      ae_values = \<lparr>str_other = (\<lambda>_. []), float_is_zero = (\<lambda>_. False)\<rparr>\<rparr>"

lemma text_claims_member: "map_of p k = Some (ClaimText s) \<Longrightarrow> (k, s) \<in> set (text_claims p)"
  by (induction p rule: text_claims.induct) (auto split: claim.splits if_splits)

lemma demo_jwt_ok: "jwt_ok demo_jwt"
  unfolding jwt_ok_def
proof (intro allI impI, elim conjE)
  fix p secret alg token now exp
  assume enc: "jwt_encode demo_jwt p secret alg = Inr token"
  then obtain tid where
    c: "text_claims p = [(''sub'', ''user-1''), (''task_id'', tid), (''purpose'', ''webhook'')]"
    by (auto simp: demo_jwt_def demo_encode_def map_eq_Cons_conv split: if_splits)
  then have t: "token = ''token '' @ tid"
    using enc by (simp add: demo_jwt_def demo_encode_def)
  show "\<exists>d. jwt_decode demo_jwt now token secret [alg] = Inr d
      \<and> (\<forall>k s. map_of p k = Some (ClaimText s) \<longrightarrow> map_of d k = Some (JStr s))"
    using text_claims_member [of p] unfolding c by (auto simp: demo_jwt_def t)
qed

end
