(* ===== verification/Executor.thy ===== *)
theory Executor
  imports Task_History Auth
begin

text \<open>
  Firing webhooks: \<^verbatim>\<open>app/scheduler/executor.py\<close> and \<^verbatim>\<open>app/scheduler/service.py\<close>, with the settings
  of \<^verbatim>\<open>app/config/settings.py\<close> that they read. The HTTP client is a function from a request to
  what becomes of it, and every request that is sent is listed in the result. What the code asks of
  the scheduling library is the list of its calls \<open>sched_call\<close>, and the schedules that the library
  holds are a map that these calls change.

  A scheduled run reads the database when it starts and writes when the webhook has answered, so
  that other requests may have changed the database in between: it is the composition of
  \<open>execution_begin\<close> on the first database and \<open>execution_finish\<close> on the second.
\<close>

section \<open>Settings\<close>

record database_settings =
  dbs_host :: string
  dbs_port :: int
  dbs_user :: string
  dbs_password :: string
  dbs_name :: string
  dbs_min_pool_size :: int
  dbs_max_pool_size :: int
  dbs_connect_timeout :: string
  dbs_connect_retries :: int
  dbs_connect_retry_delay :: string

definition default_database_settings :: "string \<Rightarrow> string \<Rightarrow> string \<Rightarrow> database_settings" where
  "default_database_settings user password name =
     \<lparr>dbs_host = ''localhost'', dbs_port = 5432, dbs_user = user, dbs_password = password,
      dbs_name = name, dbs_min_pool_size = 1, dbs_max_pool_size = 10,
      dbs_connect_timeout = ''10.0'', dbs_connect_retries = 3, dbs_connect_retry_delay = ''1.0''\<rparr>"

record scheduler_settings =
  sc_webhook_jwt_ttl_minutes :: int
  sc_webhook_timeout_seconds :: string
  sc_scheduler_id :: "string option"

definition default_scheduler_settings :: scheduler_settings where
  "default_scheduler_settings =
     \<lparr>sc_webhook_jwt_ttl_minutes = 5, sc_webhook_timeout_seconds = ''30.0'', sc_scheduler_id = None\<rparr>"

section \<open>The outside world\<close>

record webhook_request =
  wq_url :: string
  wq_params :: "(string \<times> string) list"
  wq_authorization :: string

text \<open>
  \<^verbatim>\<open>http_client.get\<close> gives a response with a status, or raises an \<^verbatim>\<open>httpx.RequestError\<close> or
  something else. \<^verbatim>\<open>raise_for_status\<close> raises unless the status is 2xx.
\<close>

datatype http_outcome =
    HttpResponse int
  | HttpRequestError string
  | HttpRaises exn

type_synonym http_client = "webhook_request \<Rightarrow> http_outcome"

datatype 't sched_call =
    AddSchedule string 't "string list"
  | RemoveSchedule string

type_synonym 't schedules = "string \<Rightarrow> ('t \<times> string list) option"

text \<open>With the policy \<^verbatim>\<open>replace\<close> an added schedule takes the place of the one with its id.\<close>

fun apply_sched :: "'t sched_call \<Rightarrow> 't schedules \<Rightarrow> 't schedules" where
  "apply_sched (AddSchedule i t args) m = m(i \<mapsto> (t, args))"
| "apply_sched (RemoveSchedule i) m = m(i := None)"

definition apply_scheds :: "'t sched_call list \<Rightarrow> 't schedules \<Rightarrow> 't schedules" where
  "apply_scheds calls m = foldl (\<lambda>m c. apply_sched c m) m calls"

section \<open>The executor\<close>

text \<open>
  The module's variables, \<open>None\<close> until \<open>init_executor\<close> sets them. The session factory is the
  context of its new sessions, the scheduler is present or not.
\<close>

record executor_globals =
  g_session_factory :: "rls_ctx option"
  g_settings :: "(auth_settings \<times> scheduler_settings) option"
  g_http_client :: "http_client option"
  g_scheduler :: bool

definition executor_unset :: executor_globals where
  "executor_unset =
     \<lparr>g_session_factory = None, g_settings = None, g_http_client = None, g_scheduler = False\<rparr>"

definition init_executor ::
  "rls_ctx \<Rightarrow> auth_settings \<times> scheduler_settings \<Rightarrow> http_client \<Rightarrow> executor_globals \<Rightarrow> executor_globals"
where
  "init_executor session_factory settings http_client g =
     g\<lparr>g_session_factory := Some session_factory, g_settings := Some settings,
       g_http_client := Some http_client, g_scheduler := True\<rparr>"

definition require_executor ::
  "executor_globals \<Rightarrow> ((auth_settings \<times> scheduler_settings) \<times> http_client) result" where
  "require_executor g =
     (case (g_settings g, g_http_client g) of
        (Some s, Some c) \<Rightarrow> Inr (s, c)
      | _ \<Rightarrow> Inl (RuntimeError ''Scheduler executor not initialized''))"

definition webhook_claims :: "scheduled_task \<Rightarrow> payload" where
  "webhook_claims task =
     [(''task_id'', ClaimText (uuid_str (t_id task))), (''purpose'', ClaimText ''webhook'')]"

definition webhook_request_for :: "scheduled_task \<Rightarrow> string \<Rightarrow> webhook_request" where
  "webhook_request_for task token =
     \<lparr>wq_url = t_webhook_url task, wq_params = t_parameters task,
      wq_authorization = ''Bearer '' @ token\<rparr>"

definition is_success_status :: "int \<Rightarrow> bool" where
  "is_success_status n \<longleftrightarrow> 200 \<le> n \<and> n \<le> 299"

definition outcome_of :: "http_outcome \<Rightarrow> webhook_fire_outcome result" where
  "outcome_of r =
     (case r of
        HttpResponse n \<Rightarrow>
          if is_success_status n
          then Inr \<lparr>wo_http_status = Some n, wo_error_message = None, wo_success = True\<rparr>
          else Inr \<lparr>wo_http_status = Some n,
                    wo_error_message = Some (''Webhook returned '' @ int_str n), wo_success = False\<rparr>
      | HttpRequestError exc \<Rightarrow>
          Inr \<lparr>wo_http_status = None,
               wo_error_message = Some (''Webhook request failed: '' @ exc), wo_success = False\<rparr>
      | HttpRaises e \<Rightarrow> Inl e)"

definition fire_task_webhook ::
  "executor_globals \<Rightarrow> jwt_lib \<Rightarrow> datetime \<Rightarrow> scheduled_task
     \<Rightarrow> webhook_fire_outcome result \<times> webhook_request list" where
  "fire_task_webhook g lib now task =
     (case require_executor g of
        Inl e \<Rightarrow> (Inl e, [])
      | Inr ((auth, sched), http_client) \<Rightarrow>
          (case rbind (mk_timedelta (sc_webhook_jwt_ttl_minutes sched * us_per_minute))
                  (\<lambda>ttl. encode_token lib now auth (t_user_id task) ttl (webhook_claims task)) of
             Inl e \<Rightarrow> (Inl e, [])
           | Inr token \<Rightarrow>
               let request = webhook_request_for task token
               in (outcome_of (http_client request), [request])))"

definition raise_from_outcome :: "webhook_fire_outcome \<Rightarrow> unit result" where
  "raise_from_outcome outcome =
     (if wo_success outcome then Inr ()
      else
        case wo_http_status outcome of
          Some status \<Rightarrow>
            Inl (HTTPStatusError status (text_or (wo_error_message outcome) ''Webhook failed''))
        | None \<Rightarrow> Inl (RequestError (text_or (wo_error_message outcome) ''Webhook request failed'')))"

definition load_task :: "rls_ctx \<Rightarrow> db \<Rightarrow> string \<Rightarrow> scheduled_task option result" where
  "load_task cx db task_id =
     (case uuid_parse task_id of
        Inl e \<Rightarrow> if is_ValueError e then Inr None else Inl e
      | Inr task_uuid \<Rightarrow> scalar_one_or_none (select_tasks cx db (\<lambda>t. t_id t = task_uuid)))"

text \<open>A scheduled run up to the answer of the webhook: it is over, or it goes on to its writes.\<close>

datatype execution_phase =
    ExecutionDone "unit result"
  | ExecutionFired rls_ctx scheduled_task webhook_fire_outcome

definition execution_begin ::
  "executor_globals \<Rightarrow> jwt_lib \<Rightarrow> datetime \<Rightarrow> db \<Rightarrow> string \<Rightarrow> execution_phase \<times> webhook_request list" where
  "execution_begin g lib now db task_id =
     (case g_session_factory g of
        None \<Rightarrow> (ExecutionDone (Inl (RuntimeError ''Scheduler executor not initialized'')), [])
      | Some factory \<Rightarrow>
          let cx = set_scheduler_rls factory
          in case load_task cx db task_id of
               Inl e \<Rightarrow> (ExecutionDone (Inl e), [])
             | Inr None \<Rightarrow> (ExecutionDone (Inr ()), [])
             | Inr (Some task) \<Rightarrow>
                 if \<not> t_is_active task then (ExecutionDone (Inr ()), [])
                 else
                   (case fire_task_webhook g lib now task of
                      (Inl e, sent) \<Rightarrow> (ExecutionDone (Inl e), sent)
                    | (Inr outcome, sent) \<Rightarrow> (ExecutionFired cx task outcome, sent)))"

record 't execution_result =
  er_result :: "unit result"
  er_db :: db
  er_calls :: "'t sched_call list"

text \<open>The rest of the run, on the database as it is when the webhook has answered.\<close>

definition execution_finish ::
  "executor_globals \<Rightarrow> uuid \<Rightarrow> datetime \<Rightarrow> rls_ctx \<Rightarrow> scheduled_task \<Rightarrow> webhook_fire_outcome \<Rightarrow> db
     \<Rightarrow> 't execution_result" where
  "execution_finish g i now cx task outcome db =
     (let row = record_execution i now (t_user_id task) (t_id task) SCHEDULED (t_webhook_url task)
                  (wo_success outcome) (wo_http_status outcome) (wo_error_message outcome);
          once = (t_trigger_type task = trigger_type_value ONCE)
      in if \<not> wo_success outcome then
           (case apply_writes cx now [row] db of
              Inl e \<Rightarrow> \<lparr>er_result = Inl e, er_db = db, er_calls = []\<rparr>
            | Inr db' \<Rightarrow> \<lparr>er_result = raise_from_outcome outcome, er_db = db', er_calls = []\<rparr>)
         else
           (case apply_writes cx now
                   (row # (if once then [UpdateTask (t_id task) False None] else [])) db of
              Inl e \<Rightarrow> \<lparr>er_result = Inl e, er_db = db, er_calls = []\<rparr>
            | Inr db' \<Rightarrow>
                \<lparr>er_result = Inr (), er_db = db',
                 er_calls = (if once \<and> g_scheduler g then [RemoveSchedule (uuid_str (t_id task))] else [])\<rparr>))"

definition execute_scheduled_task ::
  "executor_globals \<Rightarrow> jwt_lib \<Rightarrow> uuid \<Rightarrow> datetime \<Rightarrow> db \<Rightarrow> db \<Rightarrow> string
     \<Rightarrow> 't execution_result \<times> webhook_request list" where
  "execute_scheduled_task g lib i now db_begin db_end task_id =
     (case execution_begin g lib now db_begin task_id of
        (ExecutionDone r, sent) \<Rightarrow> (\<lparr>er_result = r, er_db = db_end, er_calls = []\<rparr>, sent)
      | (ExecutionFired cx task outcome, sent) \<Rightarrow>
          (execution_finish g i now cx task outcome db_end, sent))"

definition run_task_manually ::
  "executor_globals \<Rightarrow> jwt_lib \<Rightarrow> datetime \<Rightarrow> db \<Rightarrow> string
     \<Rightarrow> webhook_fire_outcome result \<times> webhook_request list" where
  "run_task_manually g lib now db task_id =
     (case g_session_factory g of
        None \<Rightarrow> (Inl (RuntimeError ''Scheduler executor not initialized''), [])
      | Some factory \<Rightarrow>
          (case load_task (set_scheduler_rls factory) db task_id of
             Inl e \<Rightarrow> (Inl e, [])
           | Inr None \<Rightarrow> (Inl (ValueError (''Task '' @ task_id @ '' not found'')), [])
           | Inr (Some task) \<Rightarrow> fire_task_webhook g lib now task))"

section \<open>The scheduling service\<close>

definition WEBHOOK_EXECUTOR_TASK_ID :: string where
  "WEBHOOK_EXECUTOR_TASK_ID = ''webhook_executor''"

definition asyncpg_dsn :: "database_settings \<Rightarrow> string" where
  "asyncpg_dsn db =
     ''postgresql://'' @ dbs_user db @ '':'' @ dbs_password db @ ''@'' @ dbs_host db @ '':''
       @ int_str (dbs_port db) @ ''/'' @ dbs_name db"

text \<open>The identity that \<^verbatim>\<open>create_scheduler\<close> passes on, if any, with the address of its broker.\<close>

definition create_scheduler ::
  "database_settings \<Rightarrow> scheduler_settings \<Rightarrow> string \<times> string option" where
  "create_scheduler db sched = (asyncpg_dsn db, sc_scheduler_id sched)"

text \<open>The variables are set and the executor is made known under its task id.\<close>

definition configure_scheduler ::
  "rls_ctx \<Rightarrow> auth_settings \<times> scheduler_settings \<Rightarrow> http_client \<Rightarrow> executor_globals
     \<Rightarrow> executor_globals \<times> string" where
  "configure_scheduler session_factory settings http_client g =
     (init_executor session_factory settings http_client g, WEBHOOK_EXECUTOR_TASK_ID)"

definition register_schedule ::
  "'t aps \<Rightarrow> runtime \<Rightarrow> datetime \<Rightarrow> scheduled_task \<Rightarrow> 't sched_call result" where
  "register_schedule aps rt now task =
     rbind (build_trigger_from_task aps rt now task) (\<lambda>trigger.
       Inr (AddSchedule (uuid_str (t_id task)) trigger [uuid_str (t_id task)]))"

definition unregister_schedule :: "uuid \<Rightarrow> 't sched_call result" where
  "unregister_schedule task_id = Inr (RemoveSchedule (uuid_str task_id))"

section \<open>Facts\<close>

lemma outcome_of_success:
  "outcome_of r = Inr x \<Longrightarrow> wo_success x \<longleftrightarrow> (\<exists>n. r = HttpResponse n \<and> 200 \<le> n \<and> n \<le> 299 \<and> wo_http_status x = Some n)"
  by (auto simp: outcome_of_def is_success_status_def split: http_outcome.splits if_splits)

lemma fire_task_webhook_Inr:
  assumes "fire_task_webhook g lib now task = (Inr x, sent)"
  shows "\<exists>client token. g_http_client g = Some client \<and> sent = [webhook_request_for task token]
    \<and> outcome_of (client (webhook_request_for task token)) = Inr x"
  using assms
  by (auto simp: fire_task_webhook_def require_executor_def Let_def
      split: sum.splits option.splits prod.splits)

lemma fire_task_webhook_status:
  assumes "fire_task_webhook g lib now task = (Inr x, sent)" "wo_success x"
  shows "\<exists>n. wo_http_status x = Some n \<and> 200 \<le> n \<and> n \<le> 299"
proof -
  obtain r where "outcome_of r = Inr x" using fire_task_webhook_Inr [OF assms(1)] by blast
  then show ?thesis using assms(2) outcome_of_success by blast
qed

lemma select_tasks_scheduler:
  "select_tasks (set_scheduler_rls (new_session bypass returning)) db P = filter P (db_tasks db)"
  by (simp add: select_tasks_def set_scheduler_rls_def new_session_def in_scope_def task_allowed_def
      scheduled_tasks_scheduler_def)

text \<open>In a well-formed table an id finds its row.\<close>

lemma filter_by_id:
  assumes "distinct (map f xs)" "x \<in> set xs"
  shows "filter (\<lambda>y. f y = f x) xs = [x]"
  using assms by (induction xs) (auto simp: filter_empty_conv, metis image_eqI)

lemma scalar_by_id:
  "distinct (map f xs) \<Longrightarrow> x \<in> set xs \<Longrightarrow> scalar_one_or_none (filter (\<lambda>y. f y = f x) xs) = Inr (Some x)"
  by (simp add: filter_by_id scalar_one_or_none_def)

lemma load_task_found:
  assumes "db_ok db" "t \<in> set (db_tasks db)"
  shows "load_task (set_scheduler_rls (new_session bypass returning)) db (uuid_str (t_id t)) = Inr (Some t)"
  using assms scalar_by_id [of t_id "db_tasks db" t]
  by (simp add: load_task_def uuid_parse_str select_tasks_scheduler db_ok_def)

lemma load_task_missing:
  assumes "\<forall>t \<in> set (db_tasks db). uuid_parse task_id \<noteq> Inr (t_id t)"
  shows "load_task (set_scheduler_rls (new_session bypass returning)) db task_id = Inr None"
proof (cases "uuid_parse task_id")
  case (Inl e)
  then have "is_ValueError e" by (auto simp: uuid_parse_def Let_def split: if_splits option.splits)
  then show ?thesis using Inl by (simp add: load_task_def)
next
  case (Inr u)
  then have "filter (\<lambda>t. t_id t = u) (db_tasks db) = []" using assms by (auto simp: filter_empty_conv)
  then show ?thesis using Inr by (simp add: load_task_def select_tasks_scheduler scalar_one_or_none_def)
qed

lemma execution_inserted:
  assumes "bypass \<or> \<not> returning" "int4_ok (wo_http_status x)" "i \<notin> h_id ` set (db_history db)"
    and "wo_success x \<Longrightarrow> wo_http_status x \<noteq> None"
  shows "\<exists>row. apply_write (set_scheduler_rls (new_session bypass returning)) now
        (record_execution i now u tid SCHEDULED url (wo_success x) (wo_http_status x) (wo_error_message x)) db
      = Inr (db\<lparr>db_history := db_history db @ [row]\<rparr>)
    \<and> h_user_id row = u \<and> h_task_id row = tid \<and> h_event_type row = ''execution''
    \<and> h_success row = Some (wo_success x) \<and> h_http_status row = wo_http_status x"
proof -
  let ?cx = "set_scheduler_rls (new_session bypass returning)"
  let ?row = "(history_row i u tid EXECUTION now)
       \<lparr>h_webhook_url := Some url, h_execution_source := Some ''scheduled'',
        h_http_status := wo_http_status x, h_error_message := wo_error_message x,
        h_success := Some (wo_success x)\<rparr>"
  have rec: "record_execution i now u tid SCHEDULED url (wo_success x) (wo_http_status x) (wo_error_message x)
      = InsertHistory ?row"
    by (simp add: record_execution_def)
  have "task_history_event_shape ?row" using execution_row_shape [OF rec] assms(4) by auto
  moreover have "history_insertable ?cx v" for v
    using assms(1) by (auto simp: history_insertable_def set_scheduler_rls_def new_session_def
        task_history_scheduler_insert_def)
  ultimately have "apply_write ?cx now (InsertHistory ?row) db
      = Inr (db\<lparr>db_history := db_history db @ [stored_history now ?row]\<rparr>)"
    using assms(2,3) by (simp add: history_row_def int4_ok_def)
  then show ?thesis
    unfolding rec by (intro exI [of _ "stored_history now ?row"]) (simp add: stored_history_def history_row_def)
qed

text \<open>The end of a run, case by case, once its row can be inserted.\<close>

lemma execution_finish_cases:
  assumes "apply_write cx now (record_execution i now (t_user_id t) (t_id t) SCHEDULED (t_webhook_url t)
      (wo_success x) (wo_http_status x) (wo_error_message x)) db = Inr (db\<lparr>db_history := rows\<rparr>)"
    and "\<And>u. task_allowed cx u"
  shows "execution_finish g i now cx t x db =
    (if \<not> (wo_success x \<and> t_trigger_type t = ''once'')
     then \<lparr>er_result = raise_from_outcome x, er_db = db\<lparr>db_history := rows\<rparr>, er_calls = []\<rparr>
     else if t_id t \<in> t_id ` set (db_tasks db)
     then \<lparr>er_result = Inr (),
           er_db = db\<lparr>db_tasks := map (\<lambda>y. if t_id y = t_id t then updated_task now False None y else y)
                     (db_tasks db), db_history := rows\<rparr>,
           er_calls = (if g_scheduler g then [RemoveSchedule (uuid_str (t_id t))] else [])\<rparr>
     else \<lparr>er_result = Inl (DatabaseError
             ''UPDATE statement on table 'scheduled_tasks' expected to update 1 row(s); 0 were matched.''),
           er_db = db, er_calls = []\<rparr>)"
proof -
  have "(\<exists>y \<in> set (db_tasks db). t_id y = t_id t \<and> task_allowed cx (t_user_id y)) \<longleftrightarrow>
      t_id t \<in> t_id ` set (db_tasks db)"
    using assms(2) by (simp add: image_iff) metis
  moreover have "wo_success x \<Longrightarrow> raise_from_outcome x = Inr ()" by (simp add: raise_from_outcome_def)
  ultimately show ?thesis
    using assms by (cases "wo_success x") (simp_all add: execution_finish_def apply_writes_def)
qed

section \<open>Properties\<close>

text \<open>
  (C14) A scheduled run of an active task, where the history may be written, on the database \<open>db\<close>
  when it starts and on any \<open>db'\<close> when the webhook has answered: exactly one request is sent, and
  exactly one row is appended to the history, with the owner, the task, the status and the
  success of the outcome; the run raises when the webhook failed. A one-time task is deactivated
  and taken from the scheduler only when the webhook succeeded: after a failed run it stays active
  and nothing fires it again. Other tasks do not change. The exception: when a one-time task was
  deleted while its webhook was on its way, and the webhook succeeded, the commit fails and the
  run is not recorded at all.
\<close>

theorem scheduled_run_recorded:
  assumes "g_session_factory g = Some (new_session bypass returning)" "g_scheduler g"
    and "bypass \<or> \<not> returning"
    and "db_ok db" "t \<in> set (db_tasks db)" "t_is_active t"
    and "fire_task_webhook g lib now t = (Inr x, sent)"
    and "int4_ok (wo_http_status x)" "i \<notin> h_id ` set (db_history db')"
  shows "\<exists>r row. execute_scheduled_task g lib i now db db' (uuid_str (t_id t))
        = (r :: 't execution_result, sent)
    \<and> length sent = 1
    \<and> h_user_id row = t_user_id t \<and> h_task_id row = t_id t \<and> h_event_type row = ''execution''
    \<and> h_success row = Some (wo_success x) \<and> h_http_status row = wo_http_status x
    \<and> (if \<not> (wo_success x \<and> t_trigger_type t = ''once'')
       then er_result r = raise_from_outcome x \<and> er_calls r = []
         \<and> er_db r = db'\<lparr>db_history := db_history db' @ [row]\<rparr>
       else if t_id t \<in> t_id ` set (db_tasks db')
       then er_result r = Inr () \<and> er_calls r = [RemoveSchedule (uuid_str (t_id t))]
         \<and> er_db r = db'\<lparr>db_tasks := map (\<lambda>y. if t_id y = t_id t then updated_task now False None y else y)
                            (db_tasks db'),
                          db_history := db_history db' @ [row]\<rparr>
       else (\<exists>m. er_result r = Inl (DatabaseError m)) \<and> er_calls r = [] \<and> er_db r = db')"
proof -
  let ?cx = "set_scheduler_rls (new_session bypass returning)"
  have allowed: "task_allowed ?cx u" for u
    by (simp add: task_allowed_def set_scheduler_rls_def scheduled_tasks_scheduler_def)
  have started: "execution_begin g lib now db (uuid_str (t_id t)) = (ExecutionFired ?cx t x, sent)"
    using assms load_task_found [OF assms(4,5)] by (simp add: execution_begin_def)
  have "length sent = 1" using fire_task_webhook_Inr [OF assms(7)] by auto
  moreover have "wo_success x \<Longrightarrow> wo_http_status x \<noteq> None"
    using fire_task_webhook_status [OF assms(7)] by auto
  from execution_inserted [OF assms(3,8,9) this] obtain row where
    row: "apply_write ?cx now (record_execution i now (t_user_id t) (t_id t) SCHEDULED (t_webhook_url t)
        (wo_success x) (wo_http_status x) (wo_error_message x)) db'
      = Inr (db'\<lparr>db_history := db_history db' @ [row]\<rparr>)"
    and facts: "h_user_id row = t_user_id t" "h_task_id row = t_id t" "h_event_type row = ''execution''"
      "h_success row = Some (wo_success x)" "h_http_status row = wo_http_status x"
    by blast
  ultimately show ?thesis
    using started facts assms(2) execution_finish_cases [OF row allowed, of g, where 'a = 't]
    by (intro exI [of _ "execution_finish g i now ?cx t x db'"] exI [of _ row])
      (simp add: execute_scheduled_task_def)
qed

text \<open>
  A scheduled run of a task that is not there, of an id that is no UUID, or of an inactive
  task sends nothing, writes nothing, calls the scheduler for nothing, and ends without an error.
\<close>

theorem scheduled_run_skips:
  assumes "g_session_factory g = Some (new_session bypass returning)" "db_ok db"
    and "\<forall>t \<in> set (db_tasks db). uuid_parse task_id = Inr (t_id t) \<longrightarrow> \<not> t_is_active t"
  shows "execute_scheduled_task g lib i now db db' task_id
    = (\<lparr>er_result = Inr (), er_db = db', er_calls = []\<rparr>, [])"
proof -
  let ?cx = "set_scheduler_rls (new_session bypass returning)"
  have "load_task ?cx db task_id = Inr None \<or>
      (\<exists>t. load_task ?cx db task_id = Inr (Some t) \<and> \<not> t_is_active t)"
  proof (cases "\<forall>t \<in> set (db_tasks db). uuid_parse task_id \<noteq> Inr (t_id t)")
    case True
    then show ?thesis using load_task_missing by blast
  next
    case False
    then obtain t where t: "t \<in> set (db_tasks db)" "uuid_parse task_id = Inr (t_id t)" by blast
    then have "load_task ?cx db task_id = Inr (Some t)"
      using load_task_found [OF assms(2) t(1), of bypass returning]
      by (simp add: load_task_def uuid_parse_str)
    then show ?thesis using assms(3) t by blast
  qed
  then show ?thesis
    using assms(1) by (auto simp: execute_scheduled_task_def execution_begin_def)
qed

text \<open>
  (C38) Under enforced row security, with a mapper that reads inserted rows back, a scheduled run
  sends its webhook and then cannot record it: the insert is refused, because the scheduler may
  insert into the history but not read it. Nothing is written; a one-time task stays active.
\<close>

theorem scheduled_run_refused_by_row_security:
  assumes "g_session_factory g = Some (new_session False True)"
    and "db_ok db" "t \<in> set (db_tasks db)" "t_is_active t"
    and "fire_task_webhook g lib now t = (Inr x, sent)" "int4_ok (wo_http_status x)"
  shows "length sent = 1
    \<and> execute_scheduled_task g lib i now db db (uuid_str (t_id t))
        = (\<lparr>er_result = Inl (DatabaseError ''new row violates row-level security policy''),
            er_db = db, er_calls = []\<rparr>, sent)"
proof -
  let ?cx = "set_scheduler_rls (new_session False True)"
  have "\<not> history_insertable ?cx u" for u
    by (simp add: history_insertable_def set_scheduler_rls_def new_session_def history_readable_def
        task_history_user_select_def)
  then have "apply_writes ?cx now (record_execution i now (t_user_id t) (t_id t) SCHEDULED (t_webhook_url t)
      b (wo_http_status x) (wo_error_message x) # ws) db
      = Inl (DatabaseError ''new row violates row-level security policy'')" for b ws
    using assms(6) by (simp add: apply_writes_def record_execution_def history_row_def int4_ok_def)
  moreover have "execution_begin g lib now db (uuid_str (t_id t)) = (ExecutionFired ?cx t x, sent)"
    using assms load_task_found [OF assms(2,3)] by (simp add: execution_begin_def)
  moreover have "length sent = 1" using fire_task_webhook_Inr [OF assms(5)] by auto
  ultimately show ?thesis
    by (simp add: execute_scheduled_task_def execution_finish_def Let_def)
qed

text \<open>
  (C40) The token that goes out with a webhook, of a scheduled run or of a manual one, when it is
  signed with a shared secret. Until the whole second in which its lifetime ends, its receiver can put it
  into a request to any protected path and is authenticated as the owner of the task: the claims
  \<^verbatim>\<open>purpose\<close> and \<^verbatim>\<open>task_id\<close> are not looked at.
\<close>

theorem webhook_token_is_full_access:
  assumes "jwt_ok (ae_lib env)" "as_jwt_algorithm (ae_settings env) \<in> hmac_algorithms"
    and "g_settings g = Some (ae_settings env, sched)"
    and "fire_task_webhook g (ae_lib env) now task = (r, sent)" "w \<in> set sent"
    and "t_user_id task \<noteq> []" "dt_tz now = Some TzUTC" "dt_tz later = Some TzUTC"
    and "instant later < whole_second (dt_wall now + sc_webhook_jwt_ttl_minutes sched * us_per_minute)"
    and "path \<notin> PUBLIC_PATHS"
  shows "authenticate env later \<lparr>rq_path = path, rq_authorization = Some (wq_authorization w)\<rparr>
           = Inr \<lparr>cu_user_id = t_user_id task\<rparr>"
proof -
  let ?s = "ae_settings env" and ?lib = "ae_lib env"
  let ?ttl = "sc_webhook_jwt_ttl_minutes sched * us_per_minute"
  let ?p = "\<lambda>exp. [(''sub'', ClaimText (t_user_id task)), (''exp'', ClaimTime exp),
      (''task_id'', ClaimText (uuid_str (t_id task))), (''purpose'', ClaimText ''webhook'')]"
  obtain token where w: "w = webhook_request_for task token"
    and "encode_token ?lib now ?s (t_user_id task) ?ttl (webhook_claims task) = Inr token"
    using assms(3-5)
    by (auto simp: fire_task_webhook_def require_executor_def Let_def rbind_eq_Inr mk_timedelta_def
        split: sum.splits option.splits prod.splits if_splits)
  then obtain exp where exp: "dt_add now ?ttl = Inr exp"
    and enc: "jwt_encode ?lib (?p exp) (as_jwt_secret ?s) (as_jwt_algorithm ?s) = Inr token"
    by (auto simp: encode_token_def rbind_eq_Inr claims_update_def webhook_claims_def)
  have e: "dt_tz exp = Some TzUTC" "instant exp = dt_wall now + ?ttl"
    using exp assms(7) by (auto simp: dt_add_Inr instant_def utcoffset_def)
  have "plain_claims (?p exp)" by (simp add: plain_claims_def)
  moreover have "map_of (?p exp) ''exp'' = Some (ClaimTime exp)" by simp
  ultimately obtain d where "jwt_decode ?lib later token (as_jwt_secret ?s) [as_jwt_algorithm ?s] = Inr d"
    and "\<forall>k s. map_of (?p exp) k = Some (ClaimText s) \<longrightarrow> map_of d k = Some (JStr s)"
    using assms(1) [unfolded jwt_ok_def, rule_format,
        of "as_jwt_algorithm ?s" "?p exp" "as_jwt_secret ?s" token exp later] assms(2,8,9) enc e by auto
  then have "decode_token ?lib later token ?s = Inr d" "map_of d ''sub'' = Some (JStr (t_user_id task))"
    by (simp_all add: decode_token_def)
  then show ?thesis
    using assms(6,10)
    by (simp add: w webhook_request_for_def authenticate_def auth_dispatch_def dict_get_def get_current_user_def)
qed

section \<open>Witnesses\<close>

definition demo_globals :: "bool \<Rightarrow> bool \<Rightarrow> int \<Rightarrow> executor_globals" where
  "demo_globals bypass returning status =
     init_executor (new_session bypass returning)
       (default_auth_settings ''secret'', default_scheduler_settings) (\<lambda>_. HttpResponse status) executor_unset"

definition demo_db :: "scheduled_task \<Rightarrow> db" where
  "demo_db t = \<lparr>db_tasks = [t], db_history = []\<rparr>"

lemma demo_db_ok: "db_ok (demo_db t)"
  by (simp add: demo_db_def db_ok_def)

lemma demo_fire:
  assumes "t_user_id t = ''user-1''"
  shows "\<exists>sent. fire_task_webhook (demo_globals bypass returning status) demo_jwt frozen_time t
    = (outcome_of (HttpResponse status), sent)"
  using assms
  by (simp add: fire_task_webhook_def demo_globals_def init_executor_def require_executor_def
      default_scheduler_settings_def mk_timedelta_def time_units encode_token_def frozen_time_def
      dt_add_def wall_ok_def claims_update_def webhook_claims_def demo_jwt_def demo_encode_def)

text \<open>
  The webhook of a one-time task answers 500: the task stays active. The webhook answers 200, but
  the task was deleted meanwhile: nothing is recorded.
\<close>

lemma scheduled_run_recorded_witness:
  "(\<exists>(r :: demo_trigger execution_result) row sent.
     execute_scheduled_task (demo_globals True True 500) demo_jwt 9 frozen_time (demo_db demo_once_task)
       (demo_db demo_once_task) (uuid_str 1) = (r, sent)
     \<and> db_history (er_db r) = [row] \<and> h_success row = Some False \<and> h_http_status row = Some 500
     \<and> db_tasks (er_db r) = [demo_once_task] \<and> t_is_active demo_once_task \<and> er_calls r = [])
   \<and> (\<exists>(r :: demo_trigger execution_result) m sent.
     execute_scheduled_task (demo_globals True True 200) demo_jwt 9 frozen_time (demo_db demo_once_task)
       \<lparr>db_tasks = [], db_history = []\<rparr> (uuid_str 1) = (r, sent)
     \<and> length sent = 1 \<and> er_result r = Inl (DatabaseError m) \<and> db_history (er_db r) = [])"
proof -
  have t: "t_user_id demo_once_task = ''user-1''" "t_is_active demo_once_task" "t_id demo_once_task = 1"
    "t_trigger_type demo_once_task = ''once''"
    by (simp_all add: demo_once_task_def demo_task_def)
  have g: "g_session_factory (demo_globals True True n) = Some (new_session True True)"
    "g_scheduler (demo_globals True True n)" for n
    by (simp_all add: demo_globals_def init_executor_def)
  have here: "demo_once_task \<in> set (db_tasks (demo_db demo_once_task))" by (simp add: demo_db_def)
  obtain sent where failed: "fire_task_webhook (demo_globals True True 500) demo_jwt frozen_time demo_once_task
      = (Inr \<lparr>wo_http_status = Some 500, wo_error_message = Some (''Webhook returned '' @ int_str 500),
          wo_success = False\<rparr>, sent)"
    using demo_fire [OF t(1), of True True 500] by (auto simp: outcome_of_def is_success_status_def)
  obtain sent' where worked: "fire_task_webhook (demo_globals True True 200) demo_jwt frozen_time demo_once_task
      = (Inr \<lparr>wo_http_status = Some 200, wo_error_message = None, wo_success = True\<rparr>, sent')"
    using demo_fire [OF t(1), of True True 200] by (auto simp: outcome_of_def is_success_status_def)
  from scheduled_run_recorded [OF g _ demo_db_ok here t(2) failed, where i = 9
      and db' = "demo_db demo_once_task" and 't = demo_trigger]
    scheduled_run_recorded [OF g _ demo_db_ok here t(2) worked, where i = 9
      and db' = "\<lparr>db_tasks = [], db_history = []\<rparr>" and 't = demo_trigger]
  show ?thesis using t by (auto simp: int4_ok_def demo_db_def)
qed

lemma scheduled_run_skips_witness:
  "execute_scheduled_task (demo_globals True True 200) demo_jwt 9 frozen_time (demo_db demo_task)
     (demo_db demo_task) ''not a uuid'' = (\<lparr>er_result = Inr (), er_db = demo_db demo_task, er_calls = []\<rparr>, [])"
proof -
  have "uuid_parse ''not a uuid'' = Inl (ValueError ''badly formed hexadecimal UUID string'')"
    by code_simp
  then show ?thesis
    by (intro scheduled_run_skips demo_db_ok) (simp_all add: demo_globals_def init_executor_def)
qed

lemma scheduled_run_refused_by_row_security_witness:
  "\<exists>sent. execute_scheduled_task (demo_globals False True 200) demo_jwt 9 frozen_time (demo_db demo_once_task)
       (demo_db demo_once_task) (uuid_str 1)
     = (\<lparr>er_result = Inl (DatabaseError ''new row violates row-level security policy''),
         er_db = demo_db demo_once_task, er_calls = []\<rparr> :: demo_trigger execution_result, sent)
       \<and> length sent = 1"
proof -
  have t: "t_user_id demo_once_task = ''user-1''" "t_is_active demo_once_task" "t_id demo_once_task = 1"
    by (simp_all add: demo_once_task_def demo_task_def)
  obtain sent where f: "fire_task_webhook (demo_globals False True 200) demo_jwt frozen_time demo_once_task
      = (Inr \<lparr>wo_http_status = Some 200, wo_error_message = None, wo_success = True\<rparr>, sent)"
    using demo_fire [OF t(1), of False True 200] by (auto simp: outcome_of_def is_success_status_def)
  have g: "g_session_factory (demo_globals False True 200) = Some (new_session False True)"
    by (simp add: demo_globals_def init_executor_def)
  have "demo_once_task \<in> set (db_tasks (demo_db demo_once_task))" by (simp add: demo_db_def)
  from scheduled_run_refused_by_row_security [OF g demo_db_ok this t(2) f, of 9, where 'a = demo_trigger]
  show ?thesis using t by (simp add: int4_ok_def)
qed

text \<open>The receiver of a webhook of the first user lists the tasks of that user.\<close>

lemma webhook_token_is_full_access_witness:
  "\<exists>outcome w. fire_task_webhook (demo_globals True True 200) demo_jwt frozen_time demo_once_task = (outcome, [w])
    \<and> authenticate demo_auth frozen_time \<lparr>rq_path = ''/api/v1/tasks'', rq_authorization = Some (wq_authorization w)\<rparr>
        = Inr \<lparr>cu_user_id = ''user-1''\<rparr>"
proof -
  have t: "t_user_id demo_once_task = ''user-1''" by (simp add: demo_once_task_def demo_task_def)
  obtain x sent where fired: "fire_task_webhook (demo_globals True True 200) demo_jwt frozen_time demo_once_task = (Inr x, sent)"
    using demo_fire [OF t, of True True 200] by (auto simp: outcome_of_def is_success_status_def)
  then obtain w where w: "sent = [w]" using fire_task_webhook_Inr by blast
  have env: "jwt_ok (ae_lib demo_auth)" "as_jwt_algorithm (ae_settings demo_auth) \<in> hmac_algorithms"
    "g_settings (demo_globals True True 200) = Some (ae_settings demo_auth, default_scheduler_settings)"
    "fire_task_webhook (demo_globals True True 200) (ae_lib demo_auth) frozen_time demo_once_task = (Inr x, sent)"
    "w \<in> set sent" "t_user_id demo_once_task \<noteq> []" "dt_tz frozen_time = Some TzUTC"
    using fired
    by (simp_all add: demo_auth_def demo_jwt_ok default_auth_settings_def hmac_algorithms_def demo_globals_def
        init_executor_def w t frozen_time_def utc_datetime_def)
  have "instant frozen_time
      < whole_second (dt_wall frozen_time + sc_webhook_jwt_ttl_minutes default_scheduler_settings * us_per_minute)"
    by (simp add: frozen_time_def whole_second_def default_scheduler_settings_def time_units)
  from webhook_token_is_full_access [OF env env(7) this, of "''/api/v1/tasks''"] fired w t
  show ?thesis by (simp add: PUBLIC_PATHS_def)
qed

end
