(* ===== verification/Relative_Schedule.thy ===== *)
theory Relative_Schedule
  imports Py_Regex Schemas
begin

text \<open>
  \<^verbatim>\<open>app/parsing/relative_schedule.py\<close>: the recognition of one-time phrases ("in 30 minutes",
  "tomorrow at 8:15 am", "next friday at 5pm") without the language model. The tables and the
  patterns are the source's, the functions follow its branches in order; every exception that
  the code lets through is a value of the result.
\<close>

section \<open>Tables and patterns\<close>

definition RECURRING_WORDS :: "string list" where
  "RECURRING_WORDS =
     [''every'', ''each'', ''daily'', ''weekly'', ''hourly'', ''biweekly'', ''fortnightly'',
      ''weekday'', ''weekdays'', ''weekend'', ''weekends'']"

definition RECURRING_PATTERN :: rx where
  "RECURRING_PATTERN = word_pattern RECURRING_WORDS"

definition WEEKDAY_NAMES :: "(string \<times> int) list" where
  "WEEKDAY_NAMES =
     [(''monday'', 0), (''tuesday'', 1), (''wednesday'', 2), (''thursday'', 3), (''friday'', 4),
      (''saturday'', 5), (''sunday'', 6)]"

definition WORD_NUMBERS :: "(string \<times> int) list" where
  "WORD_NUMBERS =
     [(''a'', 1), (''an'', 1), (''one'', 1), (''two'', 2), (''three'', 3), (''four'', 4),
      (''five'', 5), (''six'', 6), (''seven'', 7), (''eight'', 8), (''nine'', 9), (''ten'', 10)]"

definition TIME_OF_DAY :: "(string \<times> int \<times> int) list" where
  "TIME_OF_DAY =
     [(''morning'', 9, 0), (''noon'', 12, 0), (''afternoon'', 14, 0), (''evening'', 18, 0),
      (''midnight'', 0, 0)]"

definition DEFAULT_HOUR_MINUTE :: "int \<times> int" where
  "DEFAULT_HOUR_MINUTE = (9, 0)"

definition rspace1 :: rx where "rspace1 = RPlus is_space"

text \<open>\<^verbatim>\<open>\s*\<close> and \<^verbatim>\<open>\d{1,2}\<close>\<close>

definition rspace0 :: rx where "rspace0 = ROpt (RPlus is_space)"

definition rdigit :: rx where "rdigit = RCls is_decimal"

definition AT_TIME_PATTERN :: rx where
  "AT_TIME_PATTERN =
     RSeq (ROpt (RSeq RWordB (RSeq (rlit ''at'') rspace1)))
       (RSeq (RGroup 1 (RSeq rdigit (ROpt rdigit)))
         (RSeq (ROpt (RSeq (rlit '':'') (RGroup 2 (RSeq rdigit rdigit))))
           (RSeq rspace0
             (RSeq (RGroup 3 (ralts [''am'', ''pm''])) RWordB))))"

definition DURATION_UNITS :: "string list" where
  "DURATION_UNITS =
     [''second'', ''seconds'', ''minute'', ''minutes'', ''hour'', ''hours'', ''day'', ''days'']"

definition IN_DURATION_PATTERN :: rx where
  "IN_DURATION_PATTERN =
     RSeq RWordB
       (RSeq (rlit ''in'')
         (RSeq rspace1
           (RSeq (RGroup 1 (RAlt (RPlus is_ascii_letter) (RPlus is_decimal)))
             (RSeq rspace1
               (RSeq (RGroup 2 (ralts DURATION_UNITS)) RWordB)))))"

definition TOMORROW_PATTERN :: rx where
  "TOMORROW_PATTERN = RSeq RWordB (RSeq (rlit ''tomorrow'') RWordB)"

definition NEXT_WEEKDAY_PATTERN :: rx where
  "NEXT_WEEKDAY_PATTERN =
     RSeq RWordB
       (RSeq (rlit ''next'')
         (RSeq rspace1 (RSeq (RGroup 1 (ralts (map fst WEEKDAY_NAMES))) RWordB)))"

section \<open>Functions\<close>

definition localize :: "runtime \<Rightarrow> datetime \<Rightarrow> string \<Rightarrow> datetime result" where
  "localize rt now tzname =
     rbind (zone_info rt tzname) (\<lambda>tz.
       if dt_tz now = None then Inr (replace_tz now (TzZone tz))
       else astimezone now (TzZone tz))"

definition parse_at_time :: "string \<Rightarrow> (int \<times> int) option" where
  "parse_at_time text =
     (case rsearch AT_TIME_PATTERN text of
        None \<Rightarrow> None
      | Some m \<Rightarrow>
          let hour0 = py_int (the (m 1));
              minute = (case m 2 of None \<Rightarrow> 0 | Some g \<Rightarrow> py_int g);
              meridiem = py_lower (the (m 3));
              hour = (if meridiem = ''pm'' \<and> hour0 \<noteq> 12 then hour0 + 12
                      else if meridiem = ''am'' \<and> hour0 = 12 then 0 else hour0)
          in if \<not> (0 \<le> hour \<and> hour \<le> 23 \<and> 0 \<le> minute \<and> minute \<le> 59) then None
             else Some (hour, minute))"

fun find_keyword :: "(string \<times> int \<times> int) list \<Rightarrow> string \<Rightarrow> (int \<times> int) option" where
  "find_keyword [] lower = None"
| "find_keyword ((keyword, hour_minute) # rest) lower =
     (if rsearch (RSeq RWordB (RSeq (rlit keyword) RWordB)) lower \<noteq> None then Some hour_minute
      else find_keyword rest lower)"

definition parse_time_of_day :: "string \<Rightarrow> (int \<times> int) option" where
  "parse_time_of_day text =
     (case find_keyword TIME_OF_DAY (py_lower text) of
        Some hm \<Rightarrow> Some hm
      | None \<Rightarrow> parse_at_time text)"

definition apply_time :: "datetime \<Rightarrow> int \<times> int \<Rightarrow> datetime result" where
  "apply_time base hour_minute = replace_time base (fst hour_minute) (snd hour_minute) 0 0"

text \<open>The microseconds of one unit; a unit that no branch names has none.\<close>

definition unit_delta :: "string \<Rightarrow> int option" where
  "unit_delta u =
     (if u \<in> {''second'', ''seconds''} then Some us_per_second
      else if u \<in> {''minute'', ''minutes''} then Some us_per_minute
      else if u \<in> {''hour'', ''hours''} then Some us_per_hour
      else if u \<in> {''day'', ''days''} then Some us_per_day
      else None)"

definition parse_amount :: "string \<Rightarrow> int option" where
  "parse_amount amount_raw =
     (if amount_raw \<noteq> [] \<and> list_all is_decimal amount_raw then Some (py_int amount_raw)
      else map_of WORD_NUMBERS amount_raw)"

text \<open>\<^verbatim>\<open>int\<close> refuses a text of more than 4300 digits.\<close>

definition schedule_in :: "datetime \<Rightarrow> string \<Rightarrow> string \<Rightarrow> structured_trigger option result" where
  "schedule_in localized amount_raw unit =
     (if list_all is_decimal amount_raw \<and> 4300 < length amount_raw
      then Inl (ValueError ''Exceeds the limit (4300 digits) for integer string conversion'')
      else case parse_amount amount_raw of
        None \<Rightarrow> Inr None
      | Some amount \<Rightarrow>
          (case unit_delta unit of
             None \<Rightarrow> Inr None
           | Some us \<Rightarrow>
               rbind (mk_timedelta (amount * us)) (\<lambda>delta.
               rbind (dt_add localized delta) (\<lambda>run_at. Inr (Some (OnceTrigger run_at))))))"

definition schedule_on :: "datetime \<Rightarrow> int \<Rightarrow> string \<Rightarrow> structured_trigger option result" where
  "schedule_on localized days text =
     rbind (dt_add localized (days * us_per_day)) (\<lambda>target.
     rbind (apply_time target
              (case parse_time_of_day text of Some hm \<Rightarrow> hm | None \<Rightarrow> DEFAULT_HOUR_MINUTE))
       (\<lambda>run_at. Inr (Some (OnceTrigger run_at))))"

definition days_ahead :: "int \<Rightarrow> int \<Rightarrow> int" where
  "days_ahead wd today = (let n = wd - today in if n \<le> 0 then n + 7 else n)"

definition try_parse_once_schedule ::
  "runtime \<Rightarrow> string \<Rightarrow> datetime \<Rightarrow> string \<Rightarrow> structured_trigger option result" where
  "try_parse_once_schedule rt text now tzname =
     (if rsearch RECURRING_PATTERN text \<noteq> None then Inr None
      else
        rbind (localize rt now tzname) (\<lambda>localized.
        case rsearch IN_DURATION_PATTERN text of
          Some m \<Rightarrow> schedule_in localized (py_lower (the (m 1))) (py_lower (the (m 2)))
        | None \<Rightarrow>
            if rsearch TOMORROW_PATTERN text \<noteq> None then schedule_on localized 1 text
            else
              (case rsearch NEXT_WEEKDAY_PATTERN text of
                 None \<Rightarrow> Inr None
               | Some m \<Rightarrow>
                   (case map_of WEEKDAY_NAMES (py_lower (the (m 1))) of
                      None \<Rightarrow> Inl (KeyError (py_lower (the (m 1))))
                    | Some wd \<Rightarrow> schedule_on localized (days_ahead wd (weekday localized)) text))))"

section \<open>Facts about the patterns\<close>

lemma sure_groups_ralts [simp]: "sure_groups (ralts ws) = []"
  by (cases ws) simp_all

lemma recurring_iff: "rsearch RECURRING_PATTERN text \<noteq> None \<longleftrightarrow> has_word RECURRING_WORDS text"
  by (simp only: RECURRING_PATTERN_def rsearch_word_pattern)

lemma single_word_iff:
  "rsearch (RSeq RWordB (RSeq (rlit w) RWordB)) t \<noteq> None \<longleftrightarrow> has_word [w] t"
proof -
  have "rx_lang (RSeq RWordB (RSeq (rlit w) RWordB)) p v s \<longleftrightarrow>
      py_lower v = w \<and> at_boundary p (v @ s) \<and> at_boundary (rev v @ p) s" for p v s
    by (auto simp: rx_lang_rlit)
  then show ?thesis by (auto simp: rsearch_None_iff has_word_def)
qed

lemma find_keyword_Cons:
  "find_keyword ((k, hm) # rest) s = (if has_word [k] s then Some hm else find_keyword rest s)"
  by (simp only: find_keyword.simps single_word_iff)

text \<open>The parser after its first test, with the two single-word patterns read declaratively.\<close>

lemma try_once_recurring:
  "has_word RECURRING_WORDS text \<Longrightarrow> try_parse_once_schedule rt text now tzname = Inr None"
  by (simp only: try_parse_once_schedule_def recurring_iff if_True)

lemma try_once_not_recurring:
  assumes "\<not> has_word RECURRING_WORDS text"
  shows "try_parse_once_schedule rt text now tzname =
     rbind (localize rt now tzname) (\<lambda>localized.
        case rsearch IN_DURATION_PATTERN text of
          Some m \<Rightarrow> schedule_in localized (py_lower (the (m 1))) (py_lower (the (m 2)))
        | None \<Rightarrow>
            if has_word [''tomorrow''] text then schedule_on localized 1 text
            else
              (case rsearch NEXT_WEEKDAY_PATTERN text of
                 None \<Rightarrow> Inr None
               | Some m \<Rightarrow>
                   (case map_of WEEKDAY_NAMES (py_lower (the (m 1))) of
                      None \<Rightarrow> Inl (KeyError (py_lower (the (m 1))))
                    | Some wd \<Rightarrow> schedule_on localized (days_ahead wd (weekday localized)) text)))"
  using assms
  by (simp only: try_parse_once_schedule_def recurring_iff TOMORROW_PATTERN_def single_word_iff if_False)

lemma next_weekday_group:
  assumes "rsearch NEXT_WEEKDAY_PATTERN text = Some m"
  obtains wd where "map_of WEEKDAY_NAMES (py_lower (the (m 1))) = Some wd"
proof -
  have sure: "1 \<in> set (sure_groups NEXT_WEEKDAY_PATTERN)"
    by (simp add: NEXT_WEEKDAY_PATTERN_def rspace1_def)
  obtain w where w: "m 1 = Some w" by (rule rsearch_sure_group [OF assms sure])
  have "py_lower w \<in> set (map fst WEEKDAY_NAMES)"
    using rsearch_group [OF assms w]
    by (auto simp: NEXT_WEEKDAY_PATTERN_def rspace1_def rx_lang_ralts)
  then obtain wd where "map_of WEEKDAY_NAMES (py_lower w) = Some wd"
    by (metis list.set_map map_of_eq_None_iff not_None_eq)
  then show thesis using that w by simp
qed

lemma weekday_names_range: "map_of WEEKDAY_NAMES w = Some wd \<Longrightarrow> 0 \<le> wd \<and> wd \<le> 6"
  by (auto simp: WEEKDAY_NAMES_def split: if_splits)

lemma in_duration_groups:
  assumes "rsearch IN_DURATION_PATTERN text = Some m"
  obtains a u where "m 1 = Some a" "m 2 = Some u"
    "a \<noteq> [] \<and> (list_all is_ascii_letter a \<or> list_all is_decimal a)"
    "py_lower u \<in> set DURATION_UNITS"
proof -
  have sure: "1 \<in> set (sure_groups IN_DURATION_PATTERN)" "2 \<in> set (sure_groups IN_DURATION_PATTERN)"
    by (simp_all add: IN_DURATION_PATTERN_def rspace1_def)
  obtain a where a: "m 1 = Some a" by (rule rsearch_sure_group [OF assms sure(1)])
  obtain u where u: "m 2 = Some u" by (rule rsearch_sure_group [OF assms sure(2)])
  have "a \<noteq> [] \<and> (list_all is_ascii_letter a \<or> list_all is_decimal a)"
    using rsearch_group [OF assms a] by (auto simp: IN_DURATION_PATTERN_def rspace1_def)
  moreover have "py_lower u \<in> set DURATION_UNITS"
    using rsearch_group [OF assms u]
    by (auto simp: IN_DURATION_PATTERN_def rspace1_def rx_lang_ralts)
  ultimately show thesis using that a u by blast
qed

lemma unit_delta_known: "u \<in> set DURATION_UNITS \<Longrightarrow> unit_delta u \<noteq> None"
  by (auto simp: DURATION_UNITS_def unit_delta_def)

lemma unit_delta_pos: "unit_delta u = Some us \<Longrightarrow> 0 < us"
  by (auto simp: unit_delta_def time_units split: if_splits)

section \<open>Times of day\<close>

lemma parse_at_time_range:
  "parse_at_time text = Some (h, m) \<Longrightarrow> 0 \<le> h \<and> h \<le> 23 \<and> 0 \<le> m \<and> m \<le> 59"
  by (auto simp: parse_at_time_def Let_def split: option.splits if_splits)

lemma find_keyword_TIME_OF_DAY_range:
  "find_keyword TIME_OF_DAY s = Some (h, m) \<Longrightarrow> 0 \<le> h \<and> h \<le> 23 \<and> 0 \<le> m \<and> m \<le> 59"
  by (auto simp: TIME_OF_DAY_def split: if_splits)

definition chosen_time :: "string \<Rightarrow> int \<times> int" where
  "chosen_time text =
     (case parse_time_of_day text of Some hm \<Rightarrow> hm | None \<Rightarrow> DEFAULT_HOUR_MINUTE)"

lemma chosen_time_range:
  "0 \<le> fst (chosen_time text)" "fst (chosen_time text) \<le> 23"
  "0 \<le> snd (chosen_time text)" "snd (chosen_time text) \<le> 59"
  by (cases "chosen_time text";
      use parse_at_time_range find_keyword_TIME_OF_DAY_range in
        \<open>fastforce simp: chosen_time_def parse_time_of_day_def DEFAULT_HOUR_MINUTE_def
           split: option.splits\<close>)+

lemma apply_time_chosen:
  "apply_time d (chosen_time text) =
     Inr (d\<lparr>dt_wall := dt_day d * us_per_day + fst (chosen_time text) * us_per_hour
                        + snd (chosen_time text) * us_per_minute\<rparr>)"
  by (simp add: apply_time_def replace_time_valid chosen_time_range)

lemma schedule_on_eq:
  "schedule_on loc days text =
     rbind (dt_add loc (days * us_per_day)) (\<lambda>d.
       Inr (Some (OnceTrigger
         (d\<lparr>dt_wall := dt_day d * us_per_day + fst (chosen_time text) * us_per_hour
                        + snd (chosen_time text) * us_per_minute\<rparr>))))"
  by (simp add: schedule_on_def apply_time_chosen flip: chosen_time_def)

lemma schedule_on_Inr:
  assumes "schedule_on loc days text = Inr (Some (OnceTrigger t))"
  shows "dt_day t = dt_day loc + days" and "dt_hour t = fst (chosen_time text)"
    and "dt_minute t = snd (chosen_time text)" and "dt_wall t mod us_per_minute = 0"
    and "dt_tz t = dt_tz loc" and "wall_ok (dt_wall t)"
proof -
  obtain d where d: "dt_add loc (days * us_per_day) = Inr d"
    and t: "t = d\<lparr>dt_wall := dt_day d * us_per_day + fst (chosen_time text) * us_per_hour
                        + snd (chosen_time text) * us_per_minute\<rparr>"
    using assms by (auto simp: schedule_on_eq rbind_eq_Inr)
  have day: "dt_day d = dt_day loc + days"
    using d by (auto simp: dt_add_Inr dt_day_def us_per_day_def)
  show "dt_day t = dt_day loc + days"
    using day by (simp add: t dt_day_def [of "d\<lparr>dt_wall := _\<rparr>"] day_time_parts chosen_time_range)
  show "dt_hour t = fst (chosen_time text)" "dt_minute t = snd (chosen_time text)"
    by (simp_all add: t dt_hour_def dt_minute_def day_time_parts chosen_time_range)
  have "dt_wall t = (dt_day d * 1440 + fst (chosen_time text) * 60 + snd (chosen_time text)) * us_per_minute"
    by (simp add: t time_units)
  then show "dt_wall t mod us_per_minute = 0" by simp
  show "dt_tz t = dt_tz loc" using d by (auto simp: t dt_add_Inr)
  show "wall_ok (dt_wall t)"
    using d by (auto simp: t dt_add_Inr dt_day_def wall_ok_day chosen_time_range)
qed

section \<open>Weekdays\<close>

lemma days_ahead_range:
  assumes "0 \<le> wd" "wd \<le> 6" "0 \<le> today" "today \<le> 6"
  shows "1 \<le> days_ahead wd today" "days_ahead wd today \<le> 7"
    and "(today + days_ahead wd today) mod 7 = wd"
    and "1 \<le> k \<Longrightarrow> k < days_ahead wd today \<Longrightarrow> (today + k) mod 7 \<noteq> wd"
proof -
  show "1 \<le> days_ahead wd today" "days_ahead wd today \<le> 7"
    using assms by (auto simp: days_ahead_def Let_def)
  show "(today + days_ahead wd today) mod 7 = wd"
    using assms by (auto simp: days_ahead_def Let_def)
  show "(today + k) mod 7 \<noteq> wd" if "1 \<le> k" "k < days_ahead wd today"
  proof (cases "today + k < 7")
    case True
    then show ?thesis using that assms by (auto simp: days_ahead_def Let_def split: if_splits)
  next
    case False
    have "(today + k - 7) mod 7 = today + k - 7"
      using False that assms by (intro mod_pos_pos_trivial)
        (auto simp: days_ahead_def Let_def split: if_splits)
    then have "(today + k) mod 7 = today + k - 7" by (simp add: minus_mod_self2)
    then show ?thesis using that assms by (auto simp: days_ahead_def Let_def split: if_splits)
  qed
qed

lemma weekday_range: "0 \<le> weekday d" "weekday d \<le> 6"
  by (simp_all add: weekday_def)

lemma weekday_day: "weekday d = dt_day d mod 7"
  by (simp add: weekday_def dt_day_def)

section \<open>Properties\<close>

lemma localize_aware: "localize rt now z = Inr loc \<Longrightarrow> is_aware loc"
  by (auto simp: localize_def rbind_eq_Inr astimezone_aware split: if_splits)

lemma localize_error:
  "localize rt now z = Inl e \<Longrightarrow> zone_info rt z = Inl e \<or> e = OverflowError ''date value out of range''"
  by (auto simp: localize_def rbind_eq_Inl astimezone_error split: if_splits)

lemma schedule_in_cases:
  assumes "length a \<le> 4300"
  obtains (none) "parse_amount a = None \<or> unit_delta u = None" "schedule_in loc a u = Inr None"
  | (overflow) s where "schedule_in loc a u = Inl (OverflowError s)"
  | (once) n us t where "parse_amount a = Some n" "unit_delta u = Some us"
      "dt_add loc (n * us) = Inr t" "schedule_in loc a u = Inr (Some (OnceTrigger t))"
proof (cases "parse_amount a = None \<or> unit_delta u = None")
  case True
  then have "schedule_in loc a u = Inr None"
    using assms by (auto simp: schedule_in_def split: option.splits)
  then show ?thesis using True by (intro none)
next
  case False
  then obtain n us where nu: "parse_amount a = Some n" "unit_delta u = Some us" by auto
  have eq: "schedule_in loc a u =
      rbind (mk_timedelta (n * us)) (\<lambda>d. rbind (dt_add loc d) (\<lambda>t. Inr (Some (OnceTrigger t))))"
    using nu assms by (simp add: schedule_in_def)
  show ?thesis
  proof (cases "mk_timedelta (n * us)")
    case (Inl e)
    then show ?thesis
      using eq by (intro overflow) (auto simp: mk_timedelta_def split: if_splits)
  next
    case (Inr d)
    then have d: "d = n * us" by (simp add: mk_timedelta_def split: if_splits)
    show ?thesis
    proof (cases "dt_add loc d")
      case (Inl e)
      then show ?thesis
        using eq \<open>mk_timedelta (n * us) = Inr d\<close>
        by (intro overflow) (auto simp: dt_add_def split: if_splits)
    next
      case Inr2: (Inr t)
      then show ?thesis using eq Inr d nu by (intro once [of n us t]) simp_all
    qed
  qed
qed

lemma schedule_on_error:
  "schedule_on loc d text = Inl e \<Longrightarrow> e = OverflowError ''date value out of range''"
  by (auto simp: schedule_on_eq rbind_eq_Inl dt_add_def split: if_splits)

text \<open>
  A text with one of the recurrence words as a whole word, in any letter case, is left to
  the language model: the one-time parser answers \<open>None\<close> without consulting the time zone.
\<close>

theorem recurring_text_not_once:
  assumes "has_word RECURRING_WORDS text"
  shows "try_parse_once_schedule rt text now tzname = Inr None"
  using assms by (rule try_once_recurring)

text \<open>
  (C31) "next <weekday>": the run is on the first day strictly after today that is the named
  weekday, at most seven days ahead, at the time of day that the text names (09:00 otherwise) with
  zero seconds, in the zone asked for.
\<close>

theorem next_weekday_schedule:
  assumes "\<not> has_word RECURRING_WORDS text" "rsearch IN_DURATION_PATTERN text = None"
    and "\<not> has_word [''tomorrow''] text" "rsearch NEXT_WEEKDAY_PATTERN text = Some m"
    and "localize rt now tzname = Inr loc"
    and "try_parse_once_schedule rt text now tzname = Inr r"
  shows "\<exists>t wd. r = Some (OnceTrigger t) \<and> map_of WEEKDAY_NAMES (py_lower (the (m 1))) = Some wd
           \<and> weekday t = wd \<and> dt_day loc < dt_day t \<and> dt_day t \<le> dt_day loc + 7
           \<and> (\<forall>k. dt_day loc < k \<and> k < dt_day t \<longrightarrow> k mod 7 \<noteq> wd)
           \<and> (dt_hour t, dt_minute t) = chosen_time text \<and> dt_wall t mod us_per_minute = 0
           \<and> dt_tz t = dt_tz loc"
proof -
  obtain wd where wd: "map_of WEEKDAY_NAMES (py_lower (the (m 1))) = Some wd"
    using next_weekday_group assms(4) by blast
  let ?n = "days_ahead wd (weekday loc)"
  have "schedule_on loc ?n text = Inr r"
    using assms wd by (simp add: try_once_not_recurring)
  moreover from this obtain t where t: "r = Some (OnceTrigger t)"
    by (auto simp: schedule_on_eq rbind_eq_Inr)
  ultimately have on: "schedule_on loc ?n text = Inr (Some (OnceTrigger t))" by simp
  note day = schedule_on_Inr [OF on]
  note range = days_ahead_range [OF conjunct1 [OF weekday_names_range [OF wd]]
      conjunct2 [OF weekday_names_range [OF wd]] weekday_range [of loc]]
  have "weekday t = wd"
    using range(3) by (simp add: weekday_day day(1) mod_add_left_eq)
  moreover have "k mod 7 \<noteq> wd" if "dt_day loc < k" "k < dt_day t" for k
    using range(4) [of "k - dt_day loc"] that day(1) by (simp add: weekday_day mod_add_left_eq)
  ultimately show ?thesis
    using t wd day range by (auto simp: prod_eq_iff)
qed

text \<open>
  "tomorrow": the run is on the day after today, at the time of day that the text names
  (09:00 otherwise), in the zone asked for.
\<close>

theorem tomorrow_schedule:
  assumes "\<not> has_word RECURRING_WORDS text" "rsearch IN_DURATION_PATTERN text = None"
    and "has_word [''tomorrow''] text" "localize rt now tzname = Inr loc"
    and "try_parse_once_schedule rt text now tzname = Inr r"
  shows "\<exists>t. r = Some (OnceTrigger t) \<and> dt_day t = dt_day loc + 1
           \<and> (dt_hour t, dt_minute t) = chosen_time text \<and> dt_wall t mod us_per_minute = 0
           \<and> dt_tz t = dt_tz loc"
proof -
  have "schedule_on loc 1 text = Inr r"
    using assms by (simp add: try_once_not_recurring)
  moreover from this obtain t where t: "r = Some (OnceTrigger t)"
    by (auto simp: schedule_on_eq rbind_eq_Inr)
  ultimately show ?thesis using schedule_on_Inr [of loc 1 "text" t] by (simp add: prod_eq_iff)
qed

lemma in_duration_length:
  assumes "rsearch IN_DURATION_PATTERN text = Some m" "length text \<le> 4300"
  shows "length (py_lower (the (m 1))) \<le> 4300"
proof -
  obtain a where "m 1 = Some a" using in_duration_groups [OF assms(1)] by blast
  then show ?thesis using rsearch_group_length [OF assms(1)] assms(2) by fastforce
qed

text \<open>
  (C32) "in N units" moves the wall clock by N units, so the time that really passes until the run
  differs from the duration by the change of the UTC offset in between.
\<close>

theorem in_duration_elapsed:
  assumes "\<not> has_word RECURRING_WORDS text" "rsearch IN_DURATION_PATTERN text = Some m"
    and "localize rt now tzname = Inr loc" "length text \<le> 4300"
    and "try_parse_once_schedule rt text now tzname = Inr (Some (OnceTrigger t))"
  shows "\<exists>n us. parse_amount (py_lower (the (m 1))) = Some n
           \<and> unit_delta (py_lower (the (m 2))) = Some us
           \<and> dt_wall t = dt_wall loc + n * us
           \<and> instant t - instant loc =
               n * us + (the (utcoffset loc) - the (utcoffset t)) * us_per_second"
proof -
  let ?a = "py_lower (the (m 1))" and ?u = "py_lower (the (m 2))"
  have "schedule_in loc ?a ?u = Inr (Some (OnceTrigger t))"
    using assms by (simp add: try_once_not_recurring)
  then obtain n us where
    nu: "parse_amount ?a = Some n" "unit_delta ?u = Some us" and t: "dt_add loc (n * us) = Inr t"
    by (cases rule: schedule_in_cases [OF in_duration_length [OF assms(2,4)], of ?u loc]) auto
  have wall: "dt_wall t = dt_wall loc + n * us" and tz: "dt_tz t = dt_tz loc"
    using t by (auto simp: dt_add_Inr)
  obtain ol where ol: "utcoffset loc = Some ol"
    using localize_aware [OF assms(3)] aware_utcoffset by blast
  obtain ot where ot: "utcoffset t = Some ot"
    using localize_aware [OF assms(3)] tz aware_utcoffset [of t] by (auto simp: is_aware_def)
  have "instant t - instant loc = n * us + (ol - ot) * us_per_second"
    by (simp add: instant_def ol ot wall algebra_simps)
  then show ?thesis using nu wall ol ot by auto
qed

text \<open>
  The parser raises nothing but an overflow of the date range, or what the zone database
  raises for the zone name: the lookups of the matched words and the setting of the time of day
  never fail.
\<close>

theorem once_schedule_errors:
  assumes "try_parse_once_schedule rt text now tzname = Inl e" "length text \<le> 4300"
  shows "zone_info rt tzname = Inl e \<or> (\<exists>s. e = OverflowError s)"
proof (rule ccontr)
  assume no: "\<not> ?thesis"
  have nr: "\<not> has_word RECURRING_WORDS text"
    using assms(1) try_once_recurring by fastforce
  obtain loc where loc: "localize rt now tzname = Inr loc"
    using assms no localize_error [of rt now tzname e]
    by (cases "localize rt now tzname") (auto simp: try_once_not_recurring [OF nr])
  note run = assms(1) [unfolded try_once_not_recurring [OF nr] loc rbind_Inr]
  have on: "schedule_on loc d text \<noteq> Inl e" for d
    using no schedule_on_error by blast
  show False
  proof (cases "rsearch IN_DURATION_PATTERN text")
    case (Some m)
    then have "schedule_in loc (py_lower (the (m 1))) (py_lower (the (m 2))) = Inl e"
      using run by simp
    then show False
      using no
      by (cases rule: schedule_in_cases [OF in_duration_length [OF Some assms(2)], of "py_lower (the (m 2))" loc])
        auto
  next
    case None
    show False
    proof (cases "rsearch NEXT_WEEKDAY_PATTERN text")
      case (Some m)
      obtain wd where "map_of WEEKDAY_NAMES (py_lower (the (m 1))) = Some wd"
        using next_weekday_group Some by blast
      then show False using run None Some on by (auto split: if_splits)
    next
      case none: None
      then show False using run None on by (auto split: if_splits)
    qed
  qed
qed

text \<open>
  A duration that a \<^verbatim>\<open>timedelta\<close> cannot hold raises \<open>OverflowError\<close>; it is not reported as a
  phrase that the parser does not understand.
\<close>

theorem in_duration_overflow:
  assumes "\<not> has_word RECURRING_WORDS text" "rsearch IN_DURATION_PATTERN text = Some m"
    and "localize rt now tzname = Inr loc" "length text \<le> 4300"
    and "parse_amount (py_lower (the (m 1))) = Some n"
    and "unit_delta (py_lower (the (m 2))) = Some us" "999999999 < n * us div us_per_day"
  shows "try_parse_once_schedule rt text now tzname = Inl (OverflowError ''days out of range'')"
proof -
  have "schedule_in loc (py_lower (the (m 1))) (py_lower (the (m 2)))
      = Inl (OverflowError ''days out of range'')"
    using assms in_duration_length [OF assms(2,4)] by (simp add: schedule_in_def mk_timedelta_def)
  then show ?thesis using assms by (simp add: try_once_not_recurring)
qed

text \<open>
  A time-of-day word wins over a clock time in the same phrase: with "morning" in the text
  the run is at 09:00, whatever clock time the text also names.
\<close>

theorem time_of_day_word_wins:
  assumes "has_word [''morning''] (py_lower text)"
  shows "parse_time_of_day text = Some (9, 0)"
  using assms by (simp add: parse_time_of_day_def TIME_OF_DAY_def find_keyword_Cons del: find_keyword.simps)

section \<open>Witnesses\<close>

definition demo_localized :: datetime where
  "demo_localized = \<lparr>dt_wall = dt_wall frozen_time, dt_tz = Some (TzZone utc_zone), dt_fold = False\<rparr>"

lemma localize_demo: "localize demo_runtime frozen_time ''UTC'' = Inr demo_localized"
  by (simp add: localize_def demo_runtime_def demo_localized_def astimezone_def frozen_time_def
      utc_zone_def wall_ok_def max_wall_def us_per_day_def)

lemma recurring_text_not_once_witness:
  "try_parse_once_schedule demo_runtime ''Every day at 9am'' frozen_time ''UTC'' = Inr None"
proof -
  have "rsearch RECURRING_PATTERN ''Every day at 9am'' \<noteq> None" by code_simp
  then have "has_word RECURRING_WORDS ''Every day at 9am''" by (simp only: recurring_iff)
  then show ?thesis by (rule recurring_text_not_once)
qed

lemma not_recurring: "rsearch RECURRING_PATTERN t = None \<Longrightarrow> \<not> has_word RECURRING_WORDS t"
  using recurring_iff by blast

text \<open>"Next Friday at 5pm", said on a Sunday.\<close>

lemma next_friday_facts:
  "rsearch RECURRING_PATTERN ''Next Friday at 5pm'' = None"
  "rsearch IN_DURATION_PATTERN ''Next Friday at 5pm'' = None"
  "rsearch (RSeq RWordB (RSeq (rlit ''tomorrow'') RWordB)) ''Next Friday at 5pm'' = None"
  "map_option (\<lambda>m. m 1) (rsearch NEXT_WEEKDAY_PATTERN ''Next Friday at 5pm'') = Some (Some ''Friday'')"
  "chosen_time ''Next Friday at 5pm'' = (17, 0)"
  by code_simp+

lemma next_weekday_schedule_witness:
  "\<exists>t. try_parse_once_schedule demo_runtime ''Next Friday at 5pm'' frozen_time ''UTC''
         = Inr (Some (OnceTrigger t))
       \<and> weekday t = 4 \<and> dt_day t = dt_day frozen_time + 5 \<and> dt_hour t = 17 \<and> dt_minute t = 0"
proof -
  let ?s = "''Next Friday at 5pm''"
  note nr = not_recurring [OF next_friday_facts(1)]
  have nt: "\<not> has_word [''tomorrow''] ?s" using next_friday_facts(3) single_word_iff by blast
  obtain m where m: "rsearch NEXT_WEEKDAY_PATTERN ?s = Some m" "m 1 = Some ''Friday''"
    using next_friday_facts(4) by auto
  have wd: "map_of WEEKDAY_NAMES (py_lower (the (m 1))) = Some 4"
    unfolding m(2) by code_simp
  have run: "try_parse_once_schedule demo_runtime ?s frozen_time ''UTC''
      = schedule_on demo_localized (days_ahead 4 (weekday demo_localized)) ?s"
    using nr nt m wd next_friday_facts(2) localize_demo
    by (simp add: try_once_not_recurring)
  have days: "days_ahead 4 (weekday demo_localized) = 5"
    by (simp add: days_ahead_def weekday_def demo_localized_def frozen_time_def us_per_day_def)
  obtain r where r: "schedule_on demo_localized 5 ?s = Inr r"
    by (simp add: schedule_on_eq dt_add_def demo_localized_def frozen_time_def wall_ok_def time_units)
  from next_weekday_schedule [OF nr next_friday_facts(2) nt m(1) localize_demo run [unfolded days r]]
  obtain t where t: "r = Some (OnceTrigger t)" "weekday t = 4"
    "(dt_hour t, dt_minute t) = chosen_time ?s"
    using wd by auto
  moreover have "dt_day t = dt_day frozen_time + 5"
    using schedule_on_Inr(1) [OF r [unfolded t(1)]] by (simp add: demo_localized_def dt_day_def)
  ultimately show ?thesis using run days r next_friday_facts(5) by auto
qed

text \<open>
  "tomorrow at 14:30": the pattern for clock times wants \<open>am\<close> or \<open>pm\<close>, so the run is at the
  default time, 09:00.
\<close>

lemma tomorrow_1430_facts:
  "rsearch RECURRING_PATTERN ''tomorrow at 14:30'' = None"
  "rsearch IN_DURATION_PATTERN ''tomorrow at 14:30'' = None"
  "rsearch (RSeq RWordB (RSeq (rlit ''tomorrow'') RWordB)) ''tomorrow at 14:30'' \<noteq> None"
  "chosen_time ''tomorrow at 14:30'' = (9, 0)"
  by code_simp+

lemma tomorrow_schedule_witness:
  "\<exists>t. try_parse_once_schedule demo_runtime ''tomorrow at 14:30'' frozen_time ''UTC''
         = Inr (Some (OnceTrigger t))
       \<and> dt_day t = dt_day frozen_time + 1 \<and> dt_hour t = 9 \<and> dt_minute t = 0"
proof -
  let ?s = "''tomorrow at 14:30''"
  note nr = not_recurring [OF tomorrow_1430_facts(1)]
  have t: "has_word [''tomorrow''] ?s" using tomorrow_1430_facts(3) by (simp only: single_word_iff)
  have run: "try_parse_once_schedule demo_runtime ?s frozen_time ''UTC'' = schedule_on demo_localized 1 ?s"
    using nr t tomorrow_1430_facts(2) localize_demo by (simp add: try_once_not_recurring)
  obtain r where r: "schedule_on demo_localized 1 ?s = Inr r"
    by (simp add: schedule_on_eq dt_add_def demo_localized_def frozen_time_def wall_ok_def time_units)
  from tomorrow_schedule [OF nr tomorrow_1430_facts(2) t localize_demo run [unfolded r]]
  show ?thesis using run r tomorrow_1430_facts(4)
    by (auto simp: demo_localized_def dt_day_def)
qed

text \<open>
  A zone whose clocks go back from UTC-4 to UTC-5 at 2026-11-01T06:00Z, as in New York. At
  00:30 local time "in 2 hours" gives 02:30 local time, which is three hours later.
\<close>

definition fall_back :: int where "fall_back = 63929109600000000"

definition new_york :: zone where
  "new_york =
     \<lparr>z_key = ''America/New_York'',
      z_utcoffset = (\<lambda>w f. if w < fall_back - 5 * us_per_hour then -14400
                           else if w < fall_back - 4 * us_per_hour
                           then (if f then -18000 else -14400) else -18000),
      z_fromutc = (\<lambda>u. if u < fall_back then (u - 4 * us_per_hour, False)
                        else (u - 5 * us_per_hour, u < fall_back + us_per_hour))\<rparr>"

lemma zone_ok_new_york: "zone_ok new_york"
  by (auto simp: zone_ok_def new_york_def fall_back_def time_units)

definition new_york_runtime :: runtime where
  "new_york_runtime = demo_runtime\<lparr>zone_info := (\<lambda>_. Inr new_york)\<rparr>"

definition before_fall_back :: datetime where
  "before_fall_back = \<lparr>dt_wall = fall_back - 5 * us_per_hour - 30 * us_per_minute,
     dt_tz = Some (TzZone new_york), dt_fold = False\<rparr>"

lemma fall_back_iso:
  "isoformat (utc_datetime fall_back) = ''2026-11-01T06:00:00+00:00''"
  by code_simp

lemma in_2_hours_facts:
  "rsearch RECURRING_PATTERN ''in 2 hours'' = None"
  "map_option (\<lambda>m. (m 1, m 2)) (rsearch IN_DURATION_PATTERN ''in 2 hours'')
     = Some (Some ''2'', Some ''hours'')"
  "parse_amount (py_lower ''2'') = Some 2" "unit_delta (py_lower ''hours'') = Some us_per_hour"
  "\<not> (list_all is_decimal (py_lower ''2'') \<and> 4300 < length (py_lower ''2''))"
  by code_simp+

lemma in_duration_elapsed_witness:
  "\<exists>t. try_parse_once_schedule new_york_runtime ''in 2 hours'' before_fall_back ''America/New_York''
         = Inr (Some (OnceTrigger t))
       \<and> instant t - instant before_fall_back = 3 * us_per_hour"
proof -
  note nr = not_recurring [OF in_2_hours_facts(1)]
  obtain m where m: "rsearch IN_DURATION_PATTERN ''in 2 hours'' = Some m" "m 1 = Some ''2''"
    "m 2 = Some ''hours''"
    using in_2_hours_facts(2) by auto
  have loc: "localize new_york_runtime before_fall_back ''America/New_York'' = Inr before_fall_back"
    by (simp add: localize_def new_york_runtime_def before_fall_back_def astimezone_def)
  let ?t = "before_fall_back\<lparr>dt_wall := dt_wall before_fall_back + 2 * us_per_hour, dt_fold := False\<rparr>"
  have "schedule_in before_fall_back (py_lower ''2'') (py_lower ''hours'')
      = Inr (Some (OnceTrigger ?t))"
    using in_2_hours_facts(3-5)
    by (simp add: schedule_in_def mk_timedelta_def dt_add_def wall_ok_def before_fall_back_def
        fall_back_def time_units)
  then have run: "try_parse_once_schedule new_york_runtime ''in 2 hours'' before_fall_back
      ''America/New_York'' = Inr (Some (OnceTrigger ?t))"
    using nr m loc by (simp add: try_once_not_recurring)
  from in_duration_elapsed [OF nr m(1) loc _ run]
  have "instant ?t - instant before_fall_back
      = 2 * us_per_hour + (the (utcoffset before_fall_back) - the (utcoffset ?t)) * us_per_second"
    using m in_2_hours_facts(3,4) by simp
  also have "\<dots> = 3 * us_per_hour"
    by (simp add: utcoffset_def before_fall_back_def new_york_def fall_back_def time_units)
  finally show ?thesis using run by blast
qed

text \<open>A zone name that the zone database does not know.\<close>

lemma once_schedule_errors_witness:
  "try_parse_once_schedule demo_runtime ''in 2 hours'' frozen_time ''Mars/Base''
     = Inl (ZoneInfoNotFoundError ''Mars/Base'')
   \<and> zone_info demo_runtime ''Mars/Base'' = Inl (ZoneInfoNotFoundError ''Mars/Base'')"
proof -
  have run: "try_parse_once_schedule demo_runtime ''in 2 hours'' frozen_time ''Mars/Base''
     = Inl (ZoneInfoNotFoundError ''Mars/Base'')"
    using not_recurring [OF in_2_hours_facts(1)]
    by (simp add: try_once_not_recurring localize_def demo_runtime_def)
  with once_schedule_errors [OF run] show ?thesis by simp
qed

lemma in_duration_overflow_witness:
  "try_parse_once_schedule demo_runtime ''in 9999999999 days'' frozen_time ''UTC''
     = Inl (OverflowError ''days out of range'')"
proof -
  have f: "rsearch RECURRING_PATTERN ''in 9999999999 days'' = None"
    "map_option (\<lambda>m. (m 1, m 2)) (rsearch IN_DURATION_PATTERN ''in 9999999999 days'')
       = Some (Some ''9999999999'', Some ''days'')"
    "parse_amount (py_lower ''9999999999'') = Some 9999999999"
    "unit_delta (py_lower ''days'') = Some us_per_day"
    by code_simp+
  then obtain m where m: "rsearch IN_DURATION_PATTERN ''in 9999999999 days'' = Some m"
    "m 1 = Some ''9999999999''" "m 2 = Some ''days''"
    by auto
  have nz: "us_per_day \<noteq> 0" by (simp add: us_per_day_def)
  have big: "999999999 < (9999999999 :: int) * us_per_day div us_per_day"
    unfolding nonzero_mult_div_cancel_right [OF nz] by simp
  show ?thesis
    by (rule in_duration_overflow [OF not_recurring [OF f(1)] m(1) localize_demo _ _ _ big])
      (use m f(3,4) in simp_all)
qed

lemma time_of_day_word_wins_witness:
  "parse_time_of_day ''Tomorrow morning at 11am'' = Some (9, 0)
   \<and> parse_at_time ''Tomorrow morning at 11am'' = Some (11, 0)"
proof -
  have "rsearch (RSeq RWordB (RSeq (rlit ''morning'') RWordB)) (py_lower ''Tomorrow morning at 11am'')
      \<noteq> None" "parse_at_time ''Tomorrow morning at 11am'' = Some (11, 0)"
    by code_simp+
  then show ?thesis using time_of_day_word_wins by (simp only: single_word_iff)
qed

end
