(* ===== verification/Prompt_Loader.thy ===== *)
theory Prompt_Loader
  imports Relative_Schedule Py_Text
begin

text \<open>
  \<^verbatim>\<open>app/prompts/loader.py\<close>: reading the prompt template and filling in its placeholders. The
  file system is the argument \<open>read_text\<close>, which gives the text of a path or raises. The main
  result is that the one-after-the-other replacement of the placeholders is the substitution of
  all of them at once in a template made of literal text and known placeholders.
\<close>

section \<open>Functions\<close>

definition CURRENT_ISO_DATETIME_PLACEHOLDER :: string where
  "CURRENT_ISO_DATETIME_PLACEHOLDER = ''[INJECT_CURRENT_ISO_DATETIME]''"
definition DEFAULT_TIMEZONE_PLACEHOLDER :: string where
  "DEFAULT_TIMEZONE_PLACEHOLDER = ''[INJECT_DEFAULT_TIMEZONE]''"
definition CURRENT_DATE_PLACEHOLDER :: string where
  "CURRENT_DATE_PLACEHOLDER = ''[INJECT_CURRENT_DATE]''"
definition TOMORROW_MORNING_ISO_PLACEHOLDER :: string where
  "TOMORROW_MORNING_ISO_PLACEHOLDER = ''[INJECT_TOMORROW_MORNING_ISO]''"
definition TOMORROW_0815_ISO_PLACEHOLDER :: string where
  "TOMORROW_0815_ISO_PLACEHOLDER = ''[INJECT_TOMORROW_0815_ISO]''"
definition NEXT_FRIDAY_5PM_ISO_PLACEHOLDER :: string where
  "NEXT_FRIDAY_5PM_ISO_PLACEHOLDER = ''[INJECT_NEXT_FRIDAY_5PM_ISO]''"
definition ONE_HOUR_LATER_ISO_PLACEHOLDER :: string where
  "ONE_HOUR_LATER_ISO_PLACEHOLDER = ''[INJECT_ONE_HOUR_LATER_ISO]''"
definition NEXT_TUESDAY_9AM_ISO_PLACEHOLDER :: string where
  "NEXT_TUESDAY_9AM_ISO_PLACEHOLDER = ''[INJECT_NEXT_TUESDAY_9AM_ISO]''"

lemmas placeholder_defs =
  CURRENT_ISO_DATETIME_PLACEHOLDER_def DEFAULT_TIMEZONE_PLACEHOLDER_def
  CURRENT_DATE_PLACEHOLDER_def TOMORROW_MORNING_ISO_PLACEHOLDER_def
  TOMORROW_0815_ISO_PLACEHOLDER_def NEXT_FRIDAY_5PM_ISO_PLACEHOLDER_def
  ONE_HOUR_LATER_ISO_PLACEHOLDER_def NEXT_TUESDAY_9AM_ISO_PLACEHOLDER_def

text \<open>\<^verbatim>\<open>except OSError\<close> takes an \<open>OSError\<close> alone: a decoding error of the file goes on.\<close>

fun is_OSError :: "exn \<Rightarrow> bool" where
  "is_OSError (OSError _) = True"
| "is_OSError _ = False"

definition load_prompt :: "(string \<Rightarrow> string result) \<Rightarrow> string \<Rightarrow> string result" where
  "load_prompt read_text path =
     rbind (reraise_as is_OSError
              (\<lambda>exc. PromptLoadError (''Failed to read prompt file '' @ path @ '': '' @ exn_str exc))
              (read_text path))
       (\<lambda>raw. let content = py_strip raw
              in if content = [] then Inl (PromptLoadError (''Prompt file '' @ path @ '' is empty''))
                 else Inr content)"

definition localize_now :: "runtime \<Rightarrow> datetime \<Rightarrow> string \<Rightarrow> datetime result" where
  "localize_now rt now tzname =
     rbind (zone_info rt tzname) (\<lambda>tz.
       if dt_tz now = None then Inr (replace_tz now (TzZone tz))
       else astimezone now (TzZone tz))"

definition next_weekday :: "datetime \<Rightarrow> int \<Rightarrow> datetime result" where
  "next_weekday from_dt wd =
     (let n = wd - weekday from_dt; n' = (if n \<le> 0 then n + 7 else n)
      in dt_add from_dt (n' * us_per_day))"

text \<open>The dictionary of the placeholders, in the order in which it is built.\<close>

definition build_trigger_parse_placeholders ::
  "runtime \<Rightarrow> datetime \<Rightarrow> string \<Rightarrow> (string \<times> string) list result" where
  "build_trigger_parse_placeholders rt now tzname =
     rbind (localize_now rt now tzname) (\<lambda>localized.
     rbind (dt_add localized us_per_day) (\<lambda>tomorrow.
     rbind (next_weekday localized 4) (\<lambda>next_friday.
     rbind (replace_time tomorrow 9 0 0 0) (\<lambda>tomorrow_morning.
     rbind (replace_time tomorrow 8 15 0 0) (\<lambda>tomorrow_0815.
     rbind (replace_time next_friday 17 0 0 0) (\<lambda>next_friday_5pm.
     rbind (dt_add localized us_per_hour) (\<lambda>one_hour_later.
     rbind (next_weekday localized 1) (\<lambda>next_tuesday.
     rbind (replace_time next_tuesday 9 0 0 0) (\<lambda>next_tuesday_9am.
     Inr [(CURRENT_ISO_DATETIME_PLACEHOLDER, isoformat localized),
          (DEFAULT_TIMEZONE_PLACEHOLDER, tzname),
          (CURRENT_DATE_PLACEHOLDER, isoformat_date localized),
          (TOMORROW_MORNING_ISO_PLACEHOLDER, isoformat tomorrow_morning),
          (TOMORROW_0815_ISO_PLACEHOLDER, isoformat tomorrow_0815),
          (NEXT_FRIDAY_5PM_ISO_PLACEHOLDER, isoformat next_friday_5pm),
          (ONE_HOUR_LATER_ISO_PLACEHOLDER, isoformat one_hour_later),
          (NEXT_TUESDAY_9AM_ISO_PLACEHOLDER, isoformat next_tuesday_9am)])))))))))"

fun replace_all :: "(string \<times> string) list \<Rightarrow> string \<Rightarrow> string" where
  "replace_all [] rendered = rendered"
| "replace_all ((placeholder, v) # rest) rendered = replace_all rest (py_replace placeholder v rendered)"

definition INJECT :: string where
  "INJECT = ''[INJECT_''"

definition render_trigger_parse_prompt ::
  "runtime \<Rightarrow> string \<Rightarrow> datetime \<Rightarrow> string \<Rightarrow> string result" where
  "render_trigger_parse_prompt rt content now tzname =
     rbind (build_trigger_parse_placeholders rt now tzname) (\<lambda>placeholders.
       let rendered = replace_all placeholders content
       in if contains INJECT rendered
          then Inl (PromptLoadError ''Unreplaced placeholders remain in trigger parse prompt'')
          else Inr rendered)"

section \<open>Templates\<close>

text \<open>
  A template is a list of literal pieces and placeholders. In a literal piece every opening
  bracket is followed by something that cannot be read as the start of a placeholder.
\<close>

datatype piece = Lit string | Ph string

fun piece_text :: "piece \<Rightarrow> string" where
  "piece_text (Lit s) = s"
| "piece_text (Ph p) = p"

definition template_text :: "piece list \<Rightarrow> string" where
  "template_text ps = concat (map piece_text ps)"

fun mismatch :: "string \<Rightarrow> string \<Rightarrow> bool" where
  "mismatch (c # w) (x # s) = (c \<noteq> x \<or> mismatch w s)"
| "mismatch _ _ = False"

fun lit_ok :: "string \<Rightarrow> bool" where
  "lit_ok [] = True"
| "lit_ok (c # s) = ((c \<noteq> CHR ''['' \<or> mismatch INJECT (c # s)) \<and> lit_ok s)"

definition ph_ok :: "string \<Rightarrow> bool" where
  "ph_ok p \<longleftrightarrow>
     is_prefix INJECT p \<and> CHR ''['' \<notin> set (tl p) \<and> p \<noteq> [] \<and> last p = CHR '']''
     \<and> CHR '']'' \<notin> set (butlast p)"

fun piece_ok :: "piece \<Rightarrow> bool" where
  "piece_ok (Lit s) = lit_ok s"
| "piece_ok (Ph p) = ph_ok p"

fun subst_piece :: "string \<Rightarrow> string \<Rightarrow> piece \<Rightarrow> piece" where
  "subst_piece p v (Lit s) = Lit s"
| "subst_piece p v (Ph q) = (if q = p then Lit v else Ph q)"

text \<open>All placeholders at once.\<close>

fun piece_value :: "(string \<times> string) list \<Rightarrow> piece \<Rightarrow> string" where
  "piece_value tab (Lit s) = s"
| "piece_value tab (Ph p) = (case map_of tab p of Some v \<Rightarrow> v | None \<Rightarrow> p)"

lemma mismatch_prefix: "mismatch w s \<Longrightarrow> \<not> is_prefix (w @ r) (s @ t)"
  by (induction w s rule: mismatch.induct) auto

lemma mismatch_append: "mismatch w s \<Longrightarrow> mismatch w (s @ t)"
  by (induction w s rule: mismatch.induct) auto

lemma lit_ok_append: "lit_ok s \<Longrightarrow> lit_ok t \<Longrightarrow> lit_ok (s @ t)"
  using mismatch_append [of INJECT] by (induction s) fastforce+

lemma lit_ok_plain: "CHR ''['' \<notin> set s \<Longrightarrow> lit_ok s"
  by (induction s) auto

lemma lit_ok_no_inject: "lit_ok s \<Longrightarrow> \<not> contains INJECT s"
proof (induction s)
  case Nil
  then show ?case by (simp add: INJECT_def)
next
  case (Cons c s)
  then have "\<not> is_prefix INJECT (c # s)"
    using mismatch_prefix [of INJECT "c # s" "[]" "[]"] by (cases "c = CHR ''[''") (auto simp: INJECT_def)
  then show ?case using Cons by simp
qed

lemma ph_ok_split: "ph_ok p \<Longrightarrow> \<exists>r. p = INJECT @ r"
  by (auto simp: ph_ok_def is_prefix_iff)

lemma py_replace_step:
  "\<not> is_prefix old (c # s) \<Longrightarrow> py_replace old new (c # s) = c # py_replace old new s"
  by (simp add: py_replace.simps [of old new "c # s"])

lemma py_replace_lit:
  assumes "ph_ok p" "lit_ok s"
  shows "py_replace p v (s @ t) = s @ py_replace p v t"
  using assms(2)
proof (induction s)
  case Nil
  then show ?case by simp
next
  case (Cons c s)
  obtain r where r: "p = INJECT @ r" using ph_ok_split assms(1) by blast
  have "\<not> is_prefix p (c # s @ t)"
  proof (cases "c = CHR ''[''")
    case True
    then show ?thesis using Cons(2) mismatch_prefix [of INJECT "c # s" r t] r by simp
  next
    case False
    then show ?thesis using r by (simp add: INJECT_def)
  qed
  then show ?case using Cons by (simp add: py_replace_step)
qed

lemma py_replace_hit:
  assumes "p \<noteq> []"
  shows "py_replace p v (p @ t) = v @ py_replace p v t"
  using assms by (subst py_replace.simps) (auto simp: is_prefix_iff)

lemma takeWhile_upto: "x \<notin> set b \<Longrightarrow> takeWhile (\<lambda>c. c \<noteq> x) ((b @ [x]) @ t) = b"
  by (induction b) auto

text \<open>Two placeholders that are not the same differ within the shorter of them.\<close>

lemma ph_not_prefix:
  assumes "ph_ok p" "ph_ok q" "p \<noteq> q"
  shows "\<not> is_prefix p (q @ t)"
proof
  assume "is_prefix p (q @ t)"
  then obtain u where u: "q @ t = p @ u" by (auto simp: is_prefix_iff)
  have ends: "p = butlast p @ [CHR '']'']" "q = butlast q @ [CHR '']'']"
    using assms by (metis append_butlast_last_id ph_ok_def)+
  have "CHR '']'' \<notin> set (butlast p)" "CHR '']'' \<notin> set (butlast q)"
    using assms by (simp_all add: ph_ok_def)
  then have "takeWhile (\<lambda>c. c \<noteq> CHR '']'') (q @ t) = butlast q"
    "takeWhile (\<lambda>c. c \<noteq> CHR '']'') (p @ u) = butlast p"
    using takeWhile_upto ends by metis+
  then show False using u ends assms(3) by metis
qed

lemma py_replace_other:
  assumes "ph_ok p" "ph_ok q" "p \<noteq> q"
  shows "py_replace p v (q @ t) = q @ py_replace p v t"
proof -
  obtain c s where q: "q = c # s" using assms(2) by (cases q) (auto simp: ph_ok_def)
  then have "lit_ok s" using assms(2) by (simp add: lit_ok_plain ph_ok_def)
  then show ?thesis
    using ph_not_prefix [OF assms, of t] py_replace_lit [OF assms(1)] q
    by (simp add: py_replace_step)
qed

lemma py_replace_template:
  assumes "ph_ok p" "list_all piece_ok ps"
  shows "py_replace p v (template_text ps) = template_text (map (subst_piece p v) ps)"
  using assms(2)
proof (induction ps)
  case Nil
  then show ?case by (simp add: template_text_def py_replace.simps)
next
  case (Cons x ps)
  have "p \<noteq> []" using assms(1) by (simp add: ph_ok_def)
  then show ?case
    using Cons assms(1) py_replace_lit py_replace_hit py_replace_other
    by (cases x) (auto simp: template_text_def)
qed

lemma replace_all_template:
  assumes "list_all (ph_ok \<circ> fst) tab" "list_all (lit_ok \<circ> snd) tab" "list_all piece_ok ps"
  shows "replace_all tab (template_text ps) = concat (map (piece_value tab) ps)"
  using assms
proof (induction tab arbitrary: ps)
  case Nil
  have "piece_value [] x = piece_text x" for x by (cases x) simp_all
  then show ?case by (simp add: template_text_def)
next
  case (Cons e tab)
  obtain p v where e: "e = (p, v)" by (cases e)
  have ok: "list_all piece_ok (map (subst_piece p v) ps)"
    using Cons.prems e by (auto simp: list_all_iff elim!: piece_ok.elims)
  have "piece_value tab (subst_piece p v x) = piece_value (e # tab) x" for x
    using e by (cases x) simp_all
  then show ?case
    using Cons ok e py_replace_template [of p ps v] by (simp add: comp_def)
qed

section \<open>The values of the placeholders\<close>

lemma next_weekday_days_ahead:
  "next_weekday d wd = dt_add d (days_ahead wd (weekday d) * us_per_day)"
  by (simp add: next_weekday_def days_ahead_def Let_def)

lemma next_weekday_Inr:
  assumes "next_weekday d wd = Inr e" "0 \<le> wd" "wd \<le> 6"
  shows "weekday e = wd" "dt_day d < dt_day e" "dt_day e \<le> dt_day d + 7"
proof -
  note range = days_ahead_range [OF assms(2,3) weekday_range [of d]]
  have day: "dt_day e = dt_day d + days_ahead wd (weekday d)"
    using assms(1) by (auto simp: next_weekday_days_ahead dt_add_Inr dt_day_def us_per_day_def)
  then show "dt_day d < dt_day e" "dt_day e \<le> dt_day d + 7" using range by simp_all
  show "weekday e = wd"
    using range(3) by (simp add: weekday_day day mod_add_left_eq)
qed

lemma at_time:
  assumes "replace_time d h m 0 0 = Inr e" "0 \<le> h" "h \<le> 23" "0 \<le> m" "m \<le> 59"
  shows "dt_day e = dt_day d \<and> dt_hour e = h \<and> dt_minute e = m \<and> weekday e = weekday d"
  using assms day_time_parts [OF assms(2-5), of "dt_day d"]
  by (auto simp: replace_time_valid weekday_day dt_hour_def dt_minute_def dt_day_def)

lemma placeholders_ok:
  assumes "build_trigger_parse_placeholders rt now tzname = Inr tab"
  shows "list_all (ph_ok \<circ> fst) tab" and "lit_ok tzname \<Longrightarrow> list_all (lit_ok \<circ> snd) tab"
proof -
  have ph: "ph_ok CURRENT_ISO_DATETIME_PLACEHOLDER" "ph_ok DEFAULT_TIMEZONE_PLACEHOLDER"
    "ph_ok CURRENT_DATE_PLACEHOLDER" "ph_ok TOMORROW_MORNING_ISO_PLACEHOLDER"
    "ph_ok TOMORROW_0815_ISO_PLACEHOLDER" "ph_ok NEXT_FRIDAY_5PM_ISO_PLACEHOLDER"
    "ph_ok ONE_HOUR_LATER_ISO_PLACEHOLDER" "ph_ok NEXT_TUESDAY_9AM_ISO_PLACEHOLDER"
    by (simp_all add: placeholder_defs ph_ok_def INJECT_def)
  show "list_all (ph_ok \<circ> fst) tab"
    using assms ph unfolding build_trigger_parse_placeholders_def rbind_eq_Inr by auto
  have "lit_ok (isoformat d)" "lit_ok (isoformat_date d)" for d
    using isoformat_no [of "CHR ''[''" d] isoformat_date_no [of "CHR ''[''" d]
    by (simp_all add: lit_ok_plain)
  then show "list_all (lit_ok \<circ> snd) tab" if "lit_ok tzname"
    using assms that unfolding build_trigger_parse_placeholders_def rbind_eq_Inr by auto
qed

lemma concat_lit_ok: "\<forall>s \<in> set ss. lit_ok s \<Longrightarrow> lit_ok (concat ss)"
  by (induction ss) (simp_all add: lit_ok_append)

section \<open>Properties\<close>

text \<open>
  Rendering is substitution: for a template made of literal text and of known placeholders,
  replacing the placeholders one after the other gives the text in which each of them stands for
  its value. Rendering then succeeds, and no value is itself taken for a placeholder.
\<close>

theorem render_substitutes:
  assumes "build_trigger_parse_placeholders rt now tzname = Inr tab" "lit_ok tzname"
    and "list_all piece_ok ps" "\<forall>p. Ph p \<in> set ps \<longrightarrow> p \<in> fst ` set tab"
  shows "render_trigger_parse_prompt rt (template_text ps) now tzname
           = Inr (concat (map (piece_value tab) ps))"
proof -
  note tab = placeholders_ok [OF assms(1)]
  have "lit_ok (piece_value tab x)" if x: "x \<in> set ps" for x
  proof (cases x)
    case (Lit s)
    then show ?thesis using assms(3) x by (auto simp: list_all_iff)
  next
    case (Ph p)
    then obtain v where "map_of tab p = Some v"
      using assms(4) x by (metis map_of_eq_None_iff option.exhaust)
    then show ?thesis
      using Ph tab(2) [OF assms(2)] by (auto simp: list_all_iff dest!: map_of_SomeD)
  qed
  then have "lit_ok (concat (map (piece_value tab) ps))" by (intro concat_lit_ok) auto
  then show ?thesis
    using replace_all_template [OF tab(1) tab(2) [OF assms(2)] assms(3)] assms(1)
    by (simp add: render_trigger_parse_prompt_def lit_ok_no_inject)
qed

text \<open>
  The example dates of the prompt: "tomorrow" is the day after today at 09:00, and the two
  "next weekday" examples are on the first Friday and the first Tuesday after today, at 17:00 and
  09:00, all in the zone of the request.
\<close>

theorem placeholder_dates:
  assumes "build_trigger_parse_placeholders rt now tzname = Inr tab"
  shows "\<exists>loc tom fri tue. localize_now rt now tzname = Inr loc
    \<and> map_of tab CURRENT_ISO_DATETIME_PLACEHOLDER = Some (isoformat loc)
    \<and> map_of tab DEFAULT_TIMEZONE_PLACEHOLDER = Some tzname
    \<and> map_of tab TOMORROW_MORNING_ISO_PLACEHOLDER = Some (isoformat tom)
    \<and> dt_day tom = dt_day loc + 1 \<and> dt_hour tom = 9 \<and> dt_minute tom = 0
    \<and> map_of tab NEXT_FRIDAY_5PM_ISO_PLACEHOLDER = Some (isoformat fri)
    \<and> weekday fri = 4 \<and> dt_day loc < dt_day fri \<and> dt_day fri \<le> dt_day loc + 7 \<and> dt_hour fri = 17
    \<and> map_of tab NEXT_TUESDAY_9AM_ISO_PLACEHOLDER = Some (isoformat tue)
    \<and> weekday tue = 1 \<and> dt_day loc < dt_day tue \<and> dt_day tue \<le> dt_day loc + 7 \<and> dt_hour tue = 9"
proof -
  obtain loc tomorrow fri0 tom t815 fri later tue0 tue where
    loc: "localize_now rt now tzname = Inr loc" and d: "dt_add loc us_per_day = Inr tomorrow"
    and f: "next_weekday loc 4 = Inr fri0" and tm: "replace_time tomorrow 9 0 0 0 = Inr tom"
    and fr: "replace_time fri0 17 0 0 0 = Inr fri" and u: "next_weekday loc 1 = Inr tue0"
    and tu: "replace_time tue0 9 0 0 0 = Inr tue"
    and tab: "tab = [(CURRENT_ISO_DATETIME_PLACEHOLDER, isoformat loc),
          (DEFAULT_TIMEZONE_PLACEHOLDER, tzname), (CURRENT_DATE_PLACEHOLDER, isoformat_date loc),
          (TOMORROW_MORNING_ISO_PLACEHOLDER, isoformat tom),
          (TOMORROW_0815_ISO_PLACEHOLDER, isoformat t815),
          (NEXT_FRIDAY_5PM_ISO_PLACEHOLDER, isoformat fri),
          (ONE_HOUR_LATER_ISO_PLACEHOLDER, isoformat later),
          (NEXT_TUESDAY_9AM_ISO_PLACEHOLDER, isoformat tue)]"
    using assms unfolding build_trigger_parse_placeholders_def rbind_eq_Inr by blast
  have "dt_day tomorrow = dt_day loc + 1"
    using d by (auto simp: dt_add_Inr dt_day_def us_per_day_def)
  then show ?thesis
    using loc tab at_time [OF tm] at_time [OF fr] at_time [OF tu] next_weekday_Inr [OF f]
      next_weekday_Inr [OF u]
    by - (rule exI [of _ loc], rule exI [of _ tom], rule exI [of _ fri], rule exI [of _ tue],
        simp add: placeholder_defs)
qed

section \<open>Witnesses\<close>

lemma demo_placeholders:
  "\<exists>tab. build_trigger_parse_placeholders demo_runtime frozen_time ''UTC'' = Inr tab
     \<and> map_of tab DEFAULT_TIMEZONE_PLACEHOLDER = Some ''UTC''"
  using localize_demo
  by (simp add: build_trigger_parse_placeholders_def localize_now_def localize_def
      demo_localized_def frozen_time_def next_weekday_def weekday_def dt_add_def replace_time_def
      wall_ok_def time_units placeholder_defs utc_zone_def)

lemma render_substitutes_witness:
  "render_trigger_parse_prompt demo_runtime ''zone [INJECT_DEFAULT_TIMEZONE], on [weekday]''
     frozen_time ''UTC'' = Inr ''zone UTC, on [weekday]''"
proof -
  obtain tab where tab: "build_trigger_parse_placeholders demo_runtime frozen_time ''UTC'' = Inr tab"
    "map_of tab DEFAULT_TIMEZONE_PLACEHOLDER = Some ''UTC''"
    using demo_placeholders by blast
  let ?ps = "[Lit ''zone '', Ph DEFAULT_TIMEZONE_PLACEHOLDER, Lit '', on [weekday]'']"
  have "list_all piece_ok ?ps" "lit_ok ''UTC''"
    by (simp_all add: DEFAULT_TIMEZONE_PLACEHOLDER_def ph_ok_def INJECT_def)
  moreover have "\<forall>p. Ph p \<in> set ?ps \<longrightarrow> p \<in> fst ` set tab"
    using map_of_SomeD [OF tab(2)] by force
  ultimately have "render_trigger_parse_prompt demo_runtime (template_text ?ps) frozen_time ''UTC''
      = Inr (concat (map (piece_value tab) ?ps))"
    using render_substitutes [OF tab(1)] by blast
  then show ?thesis
    using tab(2) by (simp add: template_text_def) (simp add: DEFAULT_TIMEZONE_PLACEHOLDER_def)
qed

lemma placeholder_dates_witness:
  "\<exists>tab fri. build_trigger_parse_placeholders demo_runtime frozen_time ''UTC'' = Inr tab
     \<and> map_of tab NEXT_FRIDAY_5PM_ISO_PLACEHOLDER = Some (isoformat fri) \<and> weekday fri = 4"
proof -
  obtain tab where tab: "build_trigger_parse_placeholders demo_runtime frozen_time ''UTC'' = Inr tab"
    using demo_placeholders by blast
  show ?thesis using tab placeholder_dates [OF tab] by blast
qed

end
