(* ===== verification/Py_Json.thy ===== *)
theory Py_Json
  imports Schemas Py_Text
begin

text \<open>
  \<^verbatim>\<open>json.loads\<close>. The parser follows the decoder of the standard library: white space, the three
  literals, numbers, strings with their escapes, arrays, and objects, where a repeated key keeps
  its last value. An integer of more than 4300 digits is a \<open>ValueError\<close> that is no
  \<open>JSONDecodeError\<close>. A text with a \<^verbatim>\<open>\u\<close> escape can denote characters that the 8-bit
  characters of the development do not have; such texts are left to the argument \<open>other\<close>. The
  position that the decoder appends to its messages is left out.

  The functions recurse on fuel; \<open>json_fuel_enough\<close> shows that twice the length of the text is
  enough, so that running out of fuel is never the result of \<open>json_loads\<close>.
\<close>

section \<open>The parser\<close>

definition is_json_ws :: "char \<Rightarrow> bool" where
  "is_json_ws c \<longleftrightarrow> code c = 32 \<or> code c = 9 \<or> code c = 10 \<or> code c = 13"

definition skip_ws :: "string \<Rightarrow> string" where
  "skip_ws s = dropWhile is_json_ws s"

definition json_escape :: "char \<Rightarrow> char option" where
  "json_escape c =
     (if c = CHR 0x22 \<or> c = CHR 0x5C \<or> c = CHR ''/'' then Some c
      else if c = CHR ''b'' then Some (CHR 0x08)
      else if c = CHR ''f'' then Some (CHR 0x0C)
      else if c = CHR ''n'' then Some (CHR 0x0A)
      else if c = CHR ''r'' then Some (CHR 0x0D)
      else if c = CHR ''t'' then Some (CHR 0x09)
      else None)"

text \<open>The rest of a string literal after its opening quote.\<close>

fun json_string :: "string \<Rightarrow> (string \<times> string) result" where
  "json_string [] = Inl (JSONDecodeError ''Unterminated string starting at'')"
| "json_string (c # s) =
     (if c = CHR 0x22 then Inr ([], s)
      else if c = CHR 0x5C then
        (case s of
           [] \<Rightarrow> Inl (JSONDecodeError ''Unterminated string starting at'')
         | e # s' \<Rightarrow>
             (case json_escape e of
                None \<Rightarrow> Inl (JSONDecodeError ''Invalid escape'')
              | Some x \<Rightarrow> rbind (json_string s') (\<lambda>(t, r). Inr (x # t, r))))
      else if code c < 32 then Inl (JSONDecodeError ''Invalid control character at'')
      else rbind (json_string s) (\<lambda>(t, r). Inr (c # t, r)))"

definition starts :: "char \<Rightarrow> string \<Rightarrow> bool" where
  "starts c s \<longleftrightarrow> (case s of [] \<Rightarrow> False | x # _ \<Rightarrow> x = c)"

definition json_frac :: "string \<Rightarrow> string" where
  "json_frac s =
     (let d = takeWhile is_decimal (tl s)
      in if starts (CHR ''.'') s \<and> d \<noteq> [] then CHR ''.'' # d else [])"

definition json_exp :: "string \<Rightarrow> string" where
  "json_exp s =
     (case s of
        c # t \<Rightarrow>
          (if c = CHR ''e'' \<or> c = CHR ''E'' then
             (let sg = (if starts (CHR ''-'') t \<or> starts (CHR ''+'') t then take 1 t else []);
                  d = takeWhile is_decimal (drop (length sg) t)
              in if d = [] then [] else c # sg @ d)
           else [])
      | [] \<Rightarrow> [])"

definition json_int_part :: "string \<Rightarrow> string" where
  "json_int_part s =
     (if starts (CHR ''0'') s then ''0'' else takeWhile is_decimal s)"

definition json_number :: "string \<Rightarrow> (json \<times> string) result" where
  "json_number s =
     (let sg = (if starts (CHR ''-'') s then ''-'' else []);
          ip = json_int_part (drop (length sg) s);
          s2 = drop (length sg + length ip) s;
          fr = json_frac s2;
          ex = json_exp (drop (length fr) s2);
          r = drop (length fr + length ex) s2
      in if ip = [] then Inl (JSONDecodeError ''Expecting value'')
         else if fr = [] \<and> ex = [] then
           (if 4300 < length ip
            then Inl (ValueError ''Exceeds the limit (4300 digits) for integer string conversion'')
            else Inr (JInt (if sg = [] then py_int ip else - py_int ip), r))
         else Inr (JFloat (sg @ ip @ fr @ ex), r))"

text \<open>A dictionary from its items in order: a repeated key keeps its place and its last value.\<close>

fun dict_put :: "string \<Rightarrow> json \<Rightarrow> dict \<Rightarrow> dict" where
  "dict_put k v [] = [(k, v)]"
| "dict_put k v ((k', v') # d) = (if k = k' then (k, v) # d else (k', v') # dict_put k v d)"

definition dict_of_pairs :: "(string \<times> json) list \<Rightarrow> dict" where
  "dict_of_pairs ps = foldl (\<lambda>d (k, v). dict_put k v d) [] ps"

definition out_of_fuel :: exn where
  "out_of_fuel = RuntimeError ''maximum recursion depth exceeded''"

fun json_value :: "nat \<Rightarrow> string \<Rightarrow> (json \<times> string) result"
  and json_elems :: "nat \<Rightarrow> string \<Rightarrow> (json list \<times> string) result"
  and json_pairs :: "nat \<Rightarrow> string \<Rightarrow> ((string \<times> json) list \<times> string) result" where
  "json_value 0 s = Inl out_of_fuel"
| "json_value (Suc k) [] = Inl (JSONDecodeError ''Expecting value'')"
| "json_value (Suc k) (c # s) =
     (if c = CHR 0x22 then rbind (json_string s) (\<lambda>(t, r). Inr (JStr t, r))
      else if c = CHR ''{'' then
        (if starts (CHR ''}'') (skip_ws s) then Inr (JObj [], tl (skip_ws s))
         else rbind (json_pairs k (skip_ws s)) (\<lambda>(ps, r). Inr (JObj (dict_of_pairs ps), r)))
      else if c = CHR ''['' then
        (if starts (CHR '']'') (skip_ws s) then Inr (JArr [], tl (skip_ws s))
         else rbind (json_elems k (skip_ws s)) (\<lambda>(vs, r). Inr (JArr vs, r)))
      else if is_prefix ''null'' (c # s) then Inr (JNull, drop 4 (c # s))
      else if is_prefix ''true'' (c # s) then Inr (JBool True, drop 4 (c # s))
      else if is_prefix ''false'' (c # s) then Inr (JBool False, drop 5 (c # s))
      else if is_prefix ''NaN'' (c # s) then Inr (JFloat ''NaN'', drop 3 (c # s))
      else if is_prefix ''Infinity'' (c # s) then Inr (JFloat ''Infinity'', drop 8 (c # s))
      else if is_prefix ''-Infinity'' (c # s) then Inr (JFloat ''-Infinity'', drop 9 (c # s))
      else json_number (c # s))"
| "json_elems 0 s = Inl out_of_fuel"
| "json_elems (Suc k) s =
     rbind (json_value k s) (\<lambda>(v, r).
       if starts (CHR '']'') (skip_ws r) then Inr ([v], tl (skip_ws r))
       else if starts (CHR '','') (skip_ws r) then
         rbind (json_elems k (skip_ws (tl (skip_ws r)))) (\<lambda>(vs, r'). Inr (v # vs, r'))
       else Inl (JSONDecodeError ''Expecting ',' delimiter''))"
| "json_pairs 0 s = Inl out_of_fuel"
| "json_pairs (Suc k) s =
     (if \<not> starts (CHR 0x22) s
      then Inl (JSONDecodeError ''Expecting property name enclosed in double quotes'')
      else rbind (json_string (tl s)) (\<lambda>(key, r).
        if \<not> starts (CHR '':'') (skip_ws r) then Inl (JSONDecodeError ''Expecting ':' delimiter'')
        else rbind (json_value k (skip_ws (tl (skip_ws r)))) (\<lambda>(v, r2).
          if starts (CHR ''}'') (skip_ws r2) then Inr ([(key, v)], tl (skip_ws r2))
          else if starts (CHR '','') (skip_ws r2) then
            rbind (json_pairs k (skip_ws (tl (skip_ws r2)))) (\<lambda>(ps, r3). Inr ((key, v) # ps, r3))
          else Inl (JSONDecodeError ''Expecting ',' delimiter''))))"

definition json_loads :: "(string \<Rightarrow> json result) \<Rightarrow> string \<Rightarrow> json result" where
  "json_loads other s =
     (if contains [CHR 0x5C, CHR ''u''] s then other s
      else rbind (json_value (Suc (2 * length s)) (skip_ws s)) (\<lambda>(v, r).
             if skip_ws r = [] then Inr v else Inl (JSONDecodeError ''Extra data'')))"

section \<open>The fuel is enough\<close>

lemma length_skip_ws: "length (skip_ws s) \<le> length s"
  by (simp add: skip_ws_def length_dropWhile_le)

lemma starts_tl: "starts c s \<Longrightarrow> length (tl s) < length s"
  by (cases s) (simp_all add: starts_def)

lemma starts_skip_ws: "starts c (skip_ws s) \<Longrightarrow> length (tl (skip_ws s)) < length s"
  using starts_tl [of c "skip_ws s"] length_skip_ws [of s] by simp

lemma starts_skip_ws2: "starts c (skip_ws s) \<Longrightarrow> length (skip_ws (tl (skip_ws s))) < length s"
  using starts_skip_ws [of c s] length_skip_ws [of "tl (skip_ws s)"] by simp

lemma json_string_length: "json_string s = Inr (t, r) \<Longrightarrow> length r < length s"
proof (induction s arbitrary: t r rule: json_string.induct)
  case (2 c s)
  then show ?case
    by (fastforce simp: rbind_eq_Inr split: if_splits list.splits option.splits)
qed simp

lemma json_string_fuel: "json_string s \<noteq> Inl out_of_fuel"
  by (induction s rule: json_string.induct)
    (auto simp: rbind_eq_Inl out_of_fuel_def split: list.splits option.splits prod.splits)

lemma json_number_length:
  assumes "json_number s = Inr (v, r)"
  shows "length r < length s"
proof -
  define sg where "sg = (if starts (CHR ''-'') s then ''-'' else [])"
  define ip where "ip = json_int_part (drop (length sg) s)"
  have ip: "ip \<noteq> []" using assms by (auto simp: json_number_def Let_def sg_def ip_def)
  then have "s \<noteq> []" by (auto simp: ip_def json_int_part_def starts_def)
  moreover have "\<exists>m. r = drop (m + length ip) s"
  proof -
    have "\<exists>m. r = drop m (drop (length sg + length ip) s)"
      using assms [unfolded json_number_def Let_def, folded sg_def, folded ip_def]
      by (auto simp del: drop_drop intro: exI [of _ 0] split: if_splits)
    then show ?thesis by (metis add.assoc drop_drop)
  qed
  moreover have "0 < length ip" using ip by simp
  ultimately show ?thesis by (metis add_gr_0 diff_less length_drop length_greater_0_conv)
qed

lemma json_number_fuel: "json_number s \<noteq> Inl out_of_fuel"
  by (simp add: json_number_def Let_def out_of_fuel_def)

text \<open>
  The induction over the three functions: with the fuel given they do not run out, and what they
  leave is shorter than what they were given.
\<close>

definition enough :: "('a \<times> string) result \<Rightarrow> string \<Rightarrow> bool" where
  "enough res s \<longleftrightarrow> res \<noteq> Inl out_of_fuel \<and> (\<forall>v r. res = Inr (v, r) \<longrightarrow> length r < length s)"

lemma enough_Inr [simp]: "enough (Inr (v, r)) s \<longleftrightarrow> length r < length s"
  by (simp add: enough_def)

lemma enough_error [simp]: "enough (Inl (JSONDecodeError m)) s"
  by (simp add: enough_def out_of_fuel_def)

lemma enough_rbind:
  assumes "enough res s" and "\<And>v r. res = Inr (v, r) \<Longrightarrow> length r < length s \<Longrightarrow> enough (f (v, r)) s'"
  shows "enough (rbind res f) s'"
proof (cases res)
  case (Inl e)
  then show ?thesis using assms(1) by (simp add: enough_def)
next
  case (Inr p)
  obtain v r where "p = (v, r)" by (cases p)
  then show ?thesis using Inr assms by (simp add: enough_def)
qed

lemma enough_string: "enough (json_string s) s"
  using json_string_length json_string_fuel by (simp add: enough_def)

lemma enough_number: "enough (json_number s) s"
  using json_number_length json_number_fuel by (simp add: enough_def)

lemma enough_longer: "enough res s \<Longrightarrow> length s \<le> length s' \<Longrightarrow> enough res s'"
  by (fastforce simp: enough_def)

lemma minus_less_Suc: "m - n < Suc m"
  by simp

lemma json_enough:
  "(2 * length s < k \<longrightarrow> enough (json_value k s) s)
   \<and> (2 * length s + 1 < k \<longrightarrow> enough (json_elems k s) s)
   \<and> (2 * length s + 1 < k \<longrightarrow> enough (json_pairs k s) s)"
proof (induction k arbitrary: s)
  case 0
  then show ?case by simp
next
  case (Suc k)
  note IH = conjunct1 [OF Suc.IH, rule_format] conjunct1 [OF conjunct2 [OF Suc.IH], rule_format]
    conjunct2 [OF conjunct2 [OF Suc.IH], rule_format]
  have "enough (json_value (Suc k) s) s" if len: "2 * length s < Suc k"
  proof (cases s)
    case Nil
    then show ?thesis by simp
  next
    case (Cons c t)
    have ws: "length (skip_ws t) \<le> length t" by (rule length_skip_ws)
    have e: "enough (json_elems k (skip_ws t)) (skip_ws t)"
      "enough (json_pairs k (skip_ws t)) (skip_ws t)"
      using IH(2,3) [of "skip_ws t"] len Cons ws by simp_all
    have "enough (rbind (json_string t) (\<lambda>(u, r). Inr (JStr u, r))) (c # t)"
      by (intro enough_rbind [OF enough_string]) simp
    moreover have "enough (rbind (json_pairs k (skip_ws t)) (\<lambda>(ps, r). Inr (JObj (dict_of_pairs ps), r))) (c # t)"
      using ws by (intro enough_rbind [OF e(2)]) simp
    moreover have "enough (rbind (json_elems k (skip_ws t)) (\<lambda>(vs, r). Inr (JArr vs, r))) (c # t)"
      using ws by (intro enough_rbind [OF e(1)]) simp
    moreover have "starts x (skip_ws t) \<Longrightarrow> length (tl (skip_ws t)) < Suc (length t)" for x
      using starts_skip_ws [of x t] by simp
    ultimately show ?thesis
      using enough_number [of "c # t"] unfolding Cons
      by (cases "c = CHR 0x22"; cases "c = CHR ''{''"; cases "c = CHR ''[''")
        (simp_all add: minus_less_Suc)
  qed
  moreover have "enough (json_elems (Suc k) s) s" if len: "2 * length s + 1 < Suc k"
    unfolding json_elems.simps
  proof (rule enough_rbind [OF IH(1)])
    show "2 * length s < k" using len by simp
    fix v :: json and r :: string
    assume r: "length r < length s"
    have "enough (rbind (json_elems k (skip_ws (tl (skip_ws r)))) (\<lambda>(vs, r'). Inr (v # vs, r'))) s"
      if "starts x (skip_ws r)" for x
      using starts_skip_ws2 [OF that] r len by (intro enough_rbind [OF IH(2)]) simp_all
    moreover have "starts x (skip_ws r) \<Longrightarrow> length (tl (skip_ws r)) < length s" for x
      using starts_skip_ws [of x r] r by simp
    ultimately show "enough (case (v, r) of (v, r) \<Rightarrow>
       if starts (CHR '']'') (skip_ws r) then Inr ([v], tl (skip_ws r))
       else if starts (CHR '','') (skip_ws r) then
         rbind (json_elems k (skip_ws (tl (skip_ws r)))) (\<lambda>(vs, r'). Inr (v # vs, r'))
       else Inl (JSONDecodeError ''Expecting ',' delimiter'')) s"
      by simp
  qed
  moreover have "enough (json_pairs (Suc k) s) s" if len: "2 * length s + 1 < Suc k"
  proof (cases "starts (CHR 0x22) s")
    case False
    then show ?thesis by simp
  next
    case True
    have after: "enough (rbind (json_value k s2) (\<lambda>(v, r2).
          if starts (CHR ''}'') (skip_ws r2) then Inr ([(key, v)], tl (skip_ws r2))
          else if starts (CHR '','') (skip_ws r2) then
            rbind (json_pairs k (skip_ws (tl (skip_ws r2)))) (\<lambda>(ps, r3). Inr ((key, v) # ps, r3))
          else Inl (JSONDecodeError ''Expecting ',' delimiter''))) s"
      if s2: "length s2 < length s" for s2 key
    proof (rule enough_rbind [OF IH(1)])
      show "2 * length s2 < k" using s2 len by simp
      fix v :: json and r2 :: string
      assume r2: "length r2 < length s2"
      have "enough (rbind (json_pairs k (skip_ws (tl (skip_ws r2)))) (\<lambda>(ps, r3). Inr ((key, v) # ps, r3))) s"
        if "starts x (skip_ws r2)" for x
        using starts_skip_ws2 [OF that] r2 s2 len by (intro enough_rbind [OF IH(3)]) simp_all
      moreover have "starts x (skip_ws r2) \<Longrightarrow> length (tl (skip_ws r2)) < length s" for x
        using starts_skip_ws [of x r2] r2 s2 by simp
      ultimately show "enough (case (v, r2) of (v, r2) \<Rightarrow>
          if starts (CHR ''}'') (skip_ws r2) then Inr ([(key, v)], tl (skip_ws r2))
          else if starts (CHR '','') (skip_ws r2) then
            rbind (json_pairs k (skip_ws (tl (skip_ws r2)))) (\<lambda>(ps, r3). Inr ((key, v) # ps, r3))
          else Inl (JSONDecodeError ''Expecting ',' delimiter'')) s"
        by simp
    qed
    have "enough (case (key, r) of (key, r) \<Rightarrow>
        if \<not> starts (CHR '':'') (skip_ws r) then Inl (JSONDecodeError ''Expecting ':' delimiter'')
        else rbind (json_value k (skip_ws (tl (skip_ws r)))) (\<lambda>(v, r2).
          if starts (CHR ''}'') (skip_ws r2) then Inr ([(key, v)], tl (skip_ws r2))
          else if starts (CHR '','') (skip_ws r2) then
            rbind (json_pairs k (skip_ws (tl (skip_ws r2)))) (\<lambda>(ps, r3). Inr ((key, v) # ps, r3))
          else Inl (JSONDecodeError ''Expecting ',' delimiter''))) s"
      if "length r < length (tl s)" for key :: string and r :: string
    proof (cases "starts (CHR '':'') (skip_ws r)")
      case colon: True
      have "length (skip_ws (tl (skip_ws r))) < length s"
        using starts_skip_ws2 [OF colon] that starts_tl [OF True] by linarith
      from after [OF this] show ?thesis using colon by simp
    next
      case False
      then show ?thesis by simp
    qed
    then show ?thesis
      using True unfolding json_pairs.simps
      by (simp only: not_True_eq_False if_False) (rule enough_rbind [OF enough_string])
  qed
  ultimately show ?case by blast
qed

lemma json_fuel_enough: "json_value (Suc (2 * length s)) (skip_ws s) \<noteq> Inl out_of_fuel"
  using json_enough [of "skip_ws s" "Suc (2 * length s)"] length_skip_ws [of s]
  by (simp add: enough_def)

end
