(* ===== verification/Trigger_Parse.thy ===== *)
theory Trigger_Parse
  imports Prompt_Loader Triggers Py_Json
begin

text \<open>
  Natural-language schedules: \<^verbatim>\<open>app/schemas/trigger_parse.py\<close>, \<^verbatim>\<open>app/validation/cron.py\<close> and
  \<^verbatim>\<open>app/services/trigger_parse.py\<close>. A text is first given to the one-time parser of
  \<open>Relative_Schedule\<close>; otherwise the language model is asked, at most \<^verbatim>\<open>max_retries + 1\<close> times and
  each time in up to three response formats, until its answer passes every check.

  The outside world is the record \<open>parse_env\<close>: the language model (\<^verbatim>\<open>litellm.completion\<close>), which
  sees the number of calls made before, so that it may answer differently each time; the clock,
  as the UTC time after so many calls of the model; the cron validator; the file system.
\<close>

section \<open>The answer of the model\<close>

datatype interval_unit = SECONDS | MINUTES | HOURS | DAYS | WEEKS

definition INTERVAL_UNITS :: "(string \<times> interval_unit) list" where
  "INTERVAL_UNITS =
     [(''seconds'', SECONDS), (''minutes'', MINUTES), (''hours'', HOURS), (''days'', DAYS),
      (''weeks'', WEEKS)]"

fun INTERVAL_UNIT_SECONDS :: "interval_unit \<Rightarrow> int" where
  "INTERVAL_UNIT_SECONDS SECONDS = 1"
| "INTERVAL_UNIT_SECONDS MINUTES = 60"
| "INTERVAL_UNIT_SECONDS HOURS = 3600"
| "INTERVAL_UNIT_SECONDS DAYS = 86400"
| "INTERVAL_UNIT_SECONDS WEEKS = 604800"

record llm_output =
  lo_thought :: string
  lo_type :: trigger_type
  lo_cron_expr :: "string option"
  lo_interval_value :: "int option"
  lo_interval_unit :: "interval_unit option"
  lo_once_datetime :: "string option"

text \<open>Python's truth of an optional text\<close>

fun has_text :: "string option \<Rightarrow> bool" where
  "has_text None = False"
| "has_text (Some s) = (s \<noteq> [])"

definition validate_type_fields :: "llm_output \<Rightarrow> llm_output result" where
  "validate_type_fields out =
     (case lo_type out of
        CRON \<Rightarrow>
          if \<not> has_text (lo_cron_expr out)
          then Inl (ValueError ''cron_expr is required for cron triggers'')
          else if lo_interval_value out \<noteq> None \<or> lo_interval_unit out \<noteq> None \<or> lo_once_datetime out \<noteq> None
          then Inl (ValueError ''only cron_expr should be set for cron triggers'')
          else Inr out
      | INTERVAL \<Rightarrow>
          if lo_interval_value out = None \<or> lo_interval_unit out = None
          then Inl (ValueError ''interval_value and interval_unit are required for interval triggers'')
          else if the (lo_interval_value out) \<le> 0
          then Inl (ValueError ''interval_value must be positive'')
          else if lo_cron_expr out \<noteq> None \<or> lo_once_datetime out \<noteq> None
          then Inl (ValueError ''only interval_value and interval_unit should be set for interval triggers'')
          else Inr out
      | ONCE \<Rightarrow>
          if \<not> has_text (lo_once_datetime out)
          then Inl (ValueError ''once_datetime is required for once triggers'')
          else if lo_cron_expr out \<noteq> None \<or> lo_interval_value out \<noteq> None \<or> lo_interval_unit out \<noteq> None
          then Inl (ValueError ''only once_datetime should be set for once triggers'')
          else Inr out)"

text \<open>
  \<^verbatim>\<open>model_validate\<close>: a dictionary with the fields of the model and no other key. The field
  \<^verbatim>\<open>thought\<close> is read from its alias \<^verbatim>\<open>_thought\<close>, and from its own name when the alias is absent.
\<close>

definition thought_key :: "dict \<Rightarrow> string" where
  "thought_key d = (if map_of d ''_thought'' = None then ''thought'' else ''_thought'')"

definition required_field :: "dict \<Rightarrow> string \<Rightarrow> (json \<Rightarrow> 'a result) \<Rightarrow> 'a result" where
  "required_field d k f =
     (case map_of d k of None \<Rightarrow> Inl (ValidationError ''Field required'') | Some j \<Rightarrow> f j)"

definition pydantic_optional :: "(json \<Rightarrow> 'a result) \<Rightarrow> json \<Rightarrow> 'a option result" where
  "pydantic_optional f j = (case j of JNull \<Rightarrow> Inr None | _ \<Rightarrow> rbind (f j) (\<lambda>x. Inr (Some x)))"

definition thought_text :: "json \<Rightarrow> string result" where
  "thought_text j =
     rbind (pydantic_str j) (\<lambda>s.
       if length s < 1 then Inl (ValidationError ''String should have at least 1 character'') else Inr s)"

definition trigger_type_literal :: "json \<Rightarrow> trigger_type result" where
  "trigger_type_literal j =
     (if j = JStr ''cron'' then Inr CRON
      else if j = JStr ''interval'' then Inr INTERVAL
      else if j = JStr ''once'' then Inr ONCE
      else Inl (ValidationError ''Input should be cron, interval or once''))"

definition interval_unit_member :: "json \<Rightarrow> interval_unit result" where
  "interval_unit_member j =
     (case (case j of JStr s \<Rightarrow> map_of INTERVAL_UNITS s | _ \<Rightarrow> None) of
        Some u \<Rightarrow> Inr u
      | None \<Rightarrow> Inl (ValidationError ''Input should be seconds, minutes, hours, days or weeks''))"

definition validate_llm_output :: "runtime \<Rightarrow> json \<Rightarrow> llm_output result" where
  "validate_llm_output rt data =
     (case data of
        JObj d \<Rightarrow>
          rbind (required_field d (thought_key d) thought_text) (\<lambda>thought.
          rbind (required_field d ''type'' trigger_type_literal) (\<lambda>ty.
          rbind (required_field d ''cron_expr'' (pydantic_optional pydantic_str)) (\<lambda>cron_expr.
          rbind (required_field d ''interval_value'' (pydantic_optional (pydantic_int rt))) (\<lambda>interval_value.
          rbind (required_field d ''interval_unit'' (pydantic_optional interval_unit_member)) (\<lambda>interval_unit.
          rbind (required_field d ''once_datetime'' (pydantic_optional pydantic_str)) (\<lambda>once_datetime.
            if \<not> set (map fst d) \<subseteq> {thought_key d, ''type'', ''cron_expr'', ''interval_value'',
                                   ''interval_unit'', ''once_datetime''}
            then Inl (ValidationError ''Extra inputs are not permitted'')
            else pydantic_validator (validate_type_fields
                   \<lparr>lo_thought = thought, lo_type = ty, lo_cron_expr = cron_expr,
                    lo_interval_value = interval_value, lo_interval_unit = interval_unit,
                    lo_once_datetime = once_datetime\<rparr>)))))))
      | _ \<Rightarrow> Inl (ValidationError ''Input should be a valid dictionary or instance of TriggerParseLLMOutput''))"

definition trigger_spec_from_llm_output ::
  "runtime \<Rightarrow> llm_output \<Rightarrow> string \<Rightarrow> structured_trigger result" where
  "trigger_spec_from_llm_output rt output tzname =
     (case lo_type output of
        CRON \<Rightarrow>
          (case lo_cron_expr output of
             None \<Rightarrow> Inl (AssertionError [])
           | Some e \<Rightarrow> mk_cron_spec rt e tzname)
      | INTERVAL \<Rightarrow>
          (case (lo_interval_value output, lo_interval_unit output) of
             (Some v, Some u) \<Rightarrow> mk_interval_spec (v * INTERVAL_UNIT_SECONDS u)
           | _ \<Rightarrow> Inl (AssertionError []))
      | ONCE \<Rightarrow>
          (case lo_once_datetime output of
             None \<Rightarrow> Inl (AssertionError [])
           | Some s \<Rightarrow> rbind (fromisoformat (iso_other rt) s) (\<lambda>d. Inr (OnceTrigger d))))"

section \<open>Settings and the outside world\<close>

record llm_settings =
  llm_model :: string
  llm_api_base :: string
  llm_api_key :: "string option"
  llm_timeout_seconds :: string
  llm_max_retries :: int
  llm_trigger_parse_prompt_path :: string

definition default_llm_settings :: "string \<Rightarrow> llm_settings" where
  "default_llm_settings prompt_path =
     \<lparr>llm_model = ''ollama/llama3.2'', llm_api_base = ''http://localhost:11434'', llm_api_key = None,
      llm_timeout_seconds = ''30.0'', llm_max_retries = 2,
      llm_trigger_parse_prompt_path = prompt_path\<rparr>"

text \<open>A message is a role and a content.\<close>

type_synonym message = "string \<times> string"

datatype response_format = JsonSchemaFormat string bool | JsonObjectFormat

record completion_request =
  cr_model :: string
  cr_messages :: "message list"
  cr_api_base :: string
  cr_timeout :: string
  cr_api_key :: "string option"
  cr_response_format :: "response_format option"

text \<open>
  The answer of \<^verbatim>\<open>completion\<close> is the list of the contents of its choices. \<open>cron_validate\<close> is
  \<^verbatim>\<open>CronValidator.parse\<close>, of which only \<^verbatim>\<open>is not None\<close> matters.
\<close>

record 't parse_env =
  pe_runtime :: runtime
  pe_aps :: "'t aps"
  pe_clock :: "nat \<Rightarrow> datetime"
  pe_json_other :: "string \<Rightarrow> json result"
  pe_cron_validate :: "string \<Rightarrow> bool result"
  pe_completion :: "nat \<Rightarrow> completion_request \<Rightarrow> string option list result"
  pe_read_text :: "string \<Rightarrow> string result"

definition is_valid_cron_expression :: "(string \<Rightarrow> bool result) \<Rightarrow> string \<Rightarrow> bool result" where
  "is_valid_cron_expression cron_validate expression =
     (case cron_validate expression of
        Inr b \<Rightarrow> Inr b
      | Inl e \<Rightarrow> if is_ValueError e then Inr False else Inl e)"

section \<open>Checking an answer\<close>

text \<open>
  \<^verbatim>\<open>_log_failed_parse\<close> logs and returns; its \<^verbatim>\<open>data.get\<close> fails on an answer that is JSON but not
  an object.
\<close>

fun is_JSONDecodeError :: "exn \<Rightarrow> bool" where
  "is_JSONDecodeError (JSONDecodeError _) = True"
| "is_JSONDecodeError _ = False"

fun is_ValidationError :: "exn \<Rightarrow> bool" where
  "is_ValidationError (ValidationError _) = True"
| "is_ValidationError _ = False"

definition log_failed_parse :: "'t parse_env \<Rightarrow> string \<Rightarrow> unit result" where
  "log_failed_parse env raw =
     (case json_loads (pe_json_other env) raw of
        Inl e \<Rightarrow> if is_JSONDecodeError e then Inr () else Inl e
      | Inr (JObj d) \<Rightarrow> Inr ()
      | Inr _ \<Rightarrow> Inl (AttributeError ''object has no attribute 'get' ''))"

text \<open>\<^verbatim>\<open>except caught as exc: _log_failed_parse(raw, exc); raise TriggerParseError(...)\<close>\<close>

definition fail_parse :: "'t parse_env \<Rightarrow> string \<Rightarrow> string \<Rightarrow> 'a result" where
  "fail_parse env raw msg = rbind (log_failed_parse env raw) (\<lambda>_. Inl (TriggerParseError msg))"

definition or_fail_parse ::
  "'t parse_env \<Rightarrow> string \<Rightarrow> (exn \<Rightarrow> bool) \<Rightarrow> string \<Rightarrow> 'a result \<Rightarrow> 'a result" where
  "or_fail_parse env raw caught prefix r =
     (case r of
        Inl e \<Rightarrow> if caught e then fail_parse env raw (prefix @ exn_str e) else Inl e
      | Inr x \<Rightarrow> Inr x)"

definition check_cron :: "'t parse_env \<Rightarrow> string \<Rightarrow> structured_trigger \<Rightarrow> unit result" where
  "check_cron env raw spec =
     (case spec of
        CronTriggerSpec expression tz \<Rightarrow>
          rbind (is_valid_cron_expression (pe_cron_validate env) expression) (\<lambda>valid.
            if valid then Inr ()
            else fail_parse env raw (''Invalid cron expression: '' @ py_repr expression))
      | _ \<Rightarrow> Inr ())"

text \<open>\<open>k\<close> is the number of calls of the model made so far, which is the time of the check.\<close>

definition parse_trigger_json ::
  "'t parse_env \<Rightarrow> nat \<Rightarrow> string \<Rightarrow> string \<Rightarrow> structured_trigger result" where
  "parse_trigger_json env k raw tzname =
     rbind (reraise_as is_JSONDecodeError (\<lambda>e. TriggerParseError (''Invalid JSON: '' @ exn_str e))
              (json_loads (pe_json_other env) raw)) (\<lambda>data.
     rbind (or_fail_parse env raw is_ValidationError ''Invalid trigger parse output: ''
              (validate_llm_output (pe_runtime env) data)) (\<lambda>llm_output.
     rbind (or_fail_parse env raw is_ValueError ''Invalid trigger spec: ''
              (trigger_spec_from_llm_output (pe_runtime env) llm_output tzname)) (\<lambda>spec.
     rbind (check_cron env raw spec) (\<lambda>_.
     rbind (or_fail_parse env raw (\<lambda>_. True) ''Trigger cannot be scheduled: ''
              (compute_next_run_at (pe_aps env) (pe_runtime env) (pe_clock env k) spec)) (\<lambda>_.
     Inr spec)))))"

section \<open>Calling the model\<close>

definition extract_content :: "string option list \<Rightarrow> string result" where
  "extract_content choices =
     (case choices of
        [] \<Rightarrow> Inl (IndexError ''list index out of range'')
      | content # _ \<Rightarrow>
          if \<not> has_text content then Inl (TriggerParseError ''LLM returned empty response'')
          else Inr (py_strip (the content)))"

definition completion_kwargs ::
  "llm_settings \<Rightarrow> message list \<Rightarrow> response_format option \<Rightarrow> completion_request" where
  "completion_kwargs settings messages response_format =
     \<lparr>cr_model = llm_model settings, cr_messages = messages, cr_api_base = llm_api_base settings,
      cr_timeout = llm_timeout_seconds settings, cr_api_key = llm_api_key settings,
      cr_response_format = response_format\<rparr>"

definition trigger_parse_response_format :: response_format where
  "trigger_parse_response_format = JsonSchemaFormat ''trigger_parse'' True"

definition response_formats :: "response_format option list" where
  "response_formats = [Some trigger_parse_response_format, Some JsonObjectFormat, None]"

text \<open>The loop over the formats; \<open>k\<close> counts the calls, \<open>last_exc\<close> is the last exception.\<close>

fun try_formats ::
  "'t parse_env \<Rightarrow> llm_settings \<Rightarrow> message list \<Rightarrow> response_format option list \<Rightarrow> exn option \<Rightarrow> nat
     \<Rightarrow> string result \<times> nat" where
  "try_formats env settings messages [] last_exc k =
     (Inl (TriggerParseError
        (''LLM request failed: '' @ (case last_exc of None \<Rightarrow> ''None'' | Some e \<Rightarrow> exn_str e))), k)"
| "try_formats env settings messages (response_format # rest) last_exc k =
     (case pe_completion env k (completion_kwargs settings messages response_format) of
        Inl exc \<Rightarrow> try_formats env settings messages rest (Some exc) (Suc k)
      | Inr response \<Rightarrow> (extract_content response, Suc k))"

record llm_state =
  ls_messages :: "message list"
  ls_calls :: nat

definition call_llm :: "'t parse_env \<Rightarrow> llm_settings \<Rightarrow> llm_state \<Rightarrow> string result \<times> llm_state" where
  "call_llm env settings st =
     (let (r, k) = try_formats env settings (ls_messages st) response_formats None (ls_calls st)
      in (r, st\<lparr>ls_calls := k\<rparr>))"

definition parse_once ::
  "'t parse_env \<Rightarrow> llm_settings \<Rightarrow> string \<Rightarrow> llm_state \<Rightarrow> structured_trigger result \<times> llm_state" where
  "parse_once env settings tzname st =
     (case call_llm env settings st of
        (Inl e, st') \<Rightarrow> (Inl e, st')
      | (Inr raw, st') \<Rightarrow> (parse_trigger_json env (ls_calls st') raw tzname, st'))"

definition before_sleep :: "exn \<Rightarrow> llm_state \<Rightarrow> llm_state" where
  "before_sleep exc st =
     st\<lparr>ls_messages := ls_messages st @
       [(''user'', ''Your previous response was invalid: '' @ exn_str exc
                   @ ''. Return corrected JSON only.'')]\<rparr>"

section \<open>Parsing a text\<close>

fun is_PromptLoadError :: "exn \<Rightarrow> bool" where
  "is_PromptLoadError (PromptLoadError _) = True"
| "is_PromptLoadError _ = False"

text \<open>\<^verbatim>\<open>datetime.now(ZoneInfo(timezone))\<close>\<close>

definition now_in :: "'t parse_env \<Rightarrow> string \<Rightarrow> datetime result" where
  "now_in env tzname =
     rbind (zone_info (pe_runtime env) tzname) (\<lambda>z. astimezone (pe_clock env 0) (TzZone z))"

definition system_prompt_for :: "'t parse_env \<Rightarrow> llm_settings \<Rightarrow> datetime \<Rightarrow> string \<Rightarrow> string result" where
  "system_prompt_for env settings now tzname =
     reraise_as is_PromptLoadError (\<lambda>exc. TriggerParseError (exn_str exc))
       (rbind (load_prompt (pe_read_text env) (llm_trigger_parse_prompt_path settings))
          (\<lambda>prompt_template. render_trigger_parse_prompt (pe_runtime env) prompt_template now tzname))"

text \<open>The result comes with the number of calls of the model that were made.\<close>

definition parse_trigger_text_to_spec ::
  "'t parse_env \<Rightarrow> llm_settings \<Rightarrow> string \<Rightarrow> string \<Rightarrow> structured_trigger result \<times> nat" where
  "parse_trigger_text_to_spec env settings text tzname =
     (case now_in env tzname of
        Inl e \<Rightarrow> (Inl e, 0)
      | Inr now \<Rightarrow>
          (case try_parse_once_schedule (pe_runtime env) text now tzname of
             Inl e \<Rightarrow> (Inl e, 0)
           | Inr (Some once_spec) \<Rightarrow>
               (rbind (reraise_as (\<lambda>_. True)
                         (\<lambda>e. TriggerParseError (''Trigger cannot be scheduled: '' @ exn_str e))
                         (compute_next_run_at (pe_aps env) (pe_runtime env) (pe_clock env 0) once_spec))
                  (\<lambda>_. Inr once_spec), 0)
           | Inr None \<Rightarrow>
               (case system_prompt_for env settings now tzname of
                  Inl e \<Rightarrow> (Inl e, 0)
                | Inr system_prompt \<Rightarrow>
                    (let (r, st) = retry_loop (nat (llm_max_retries settings + 1))
                           is_TriggerParseError before_sleep (parse_once env settings tzname)
                           \<lparr>ls_messages = [(''system'', system_prompt), (''user'', text)], ls_calls = 0\<rparr>
                     in (r, ls_calls st)))))"

record trigger_parse_response =
  tp_trigger_type :: trigger_type
  tp_trigger_config :: trigger_config
  tp_next_run_at :: "datetime option"

definition parse_trigger_text ::
  "'t parse_env \<Rightarrow> llm_settings \<Rightarrow> string \<Rightarrow> string \<Rightarrow> trigger_parse_response result" where
  "parse_trigger_text env settings text tzname =
     (let (r, k) = parse_trigger_text_to_spec env settings text tzname
      in rbind r (\<lambda>spec.
         rbind (compute_next_run_at (pe_aps env) (pe_runtime env) (pe_clock env k) spec) (\<lambda>next.
           Inr \<lparr>tp_trigger_type = spec_type spec, tp_trigger_config = trigger_config_from_spec spec,
                tp_next_run_at = next\<rparr>)))"

definition resolve_trigger_spec ::
  "'t parse_env \<Rightarrow> llm_settings \<Rightarrow> trigger_spec \<Rightarrow> structured_trigger result \<times> nat" where
  "resolve_trigger_spec env settings spec =
     (case spec of
        TextTriggerSpec text tzname \<Rightarrow> parse_trigger_text_to_spec env settings text tzname
      | Structured s \<Rightarrow> (Inr s, 0))"

text \<open>\<^verbatim>\<open>TriggerParseRequest\<close>: the same checks as those of a text trigger.\<close>

definition validate_parse_request ::
  "runtime \<Rightarrow> string \<Rightarrow> string option \<Rightarrow> (string \<times> string) result" where
  "validate_parse_request rt text tz =
     (if length text < 1 then Inl (ValidationError ''String should have at least 1 character'')
      else if 2000 < length text
      then Inl (ValidationError ''String should have at most 2000 characters'')
      else case tz of
        None \<Rightarrow> Inr (text, ''UTC'')
      | Some z \<Rightarrow> rbind (pydantic_validator (validate_timezone rt z)) (\<lambda>v. Inr (text, v)))"

section \<open>Facts\<close>

lemma once_schedule_shape:
  "try_parse_once_schedule rt text now tzname = Inr (Some s) \<Longrightarrow> \<exists>t. s = OnceTrigger t"
  by (auto simp: try_parse_once_schedule_def schedule_in_def schedule_on_def rbind_eq_Inr
      split: if_splits option.splits)

lemma validate_type_fields_same: "validate_type_fields x = Inr y \<Longrightarrow> y = x"
  by (auto simp: validate_type_fields_def split: trigger_type.splits if_splits)

lemma validate_llm_output_Inr:
  assumes "validate_llm_output rt data = Inr x"
  shows "\<exists>d. data = JObj d" "validate_type_fields x = Inr x"
proof -
  obtain d where d: "data = JObj d"
    using assms by (cases data) (simp_all add: validate_llm_output_def)
  then show "\<exists>d. data = JObj d" by blast
  have "\<exists>y. validate_type_fields y = Inr x"
    using assms unfolding d validate_llm_output_def json.simps rbind_eq_Inr
    by (auto split: if_splits)
  then show "validate_type_fields x = Inr x" using validate_type_fields_same by blast
qed

lemma unit_seconds_pos: "0 < INTERVAL_UNIT_SECONDS u"
  by (cases u) simp_all

text \<open>An answer that passes the model's checks, by its type.\<close>

lemma validated_fields:
  assumes "validate_type_fields x = Inr x"
  shows "lo_type x = CRON \<Longrightarrow> \<exists>e. lo_cron_expr x = Some e \<and> e \<noteq> [] \<and> lo_interval_value x = None
           \<and> lo_interval_unit x = None \<and> lo_once_datetime x = None"
    and "lo_type x = INTERVAL \<Longrightarrow> \<exists>n u. lo_interval_value x = Some n \<and> 0 < n
           \<and> lo_interval_unit x = Some u \<and> lo_cron_expr x = None \<and> lo_once_datetime x = None"
    and "lo_type x = ONCE \<Longrightarrow> \<exists>s. lo_once_datetime x = Some s \<and> s \<noteq> [] \<and> lo_cron_expr x = None
           \<and> lo_interval_value x = None \<and> lo_interval_unit x = None"
  using assms
  by (cases "lo_cron_expr x"; cases "lo_once_datetime x"; auto simp: validate_type_fields_def split: if_splits)+

lemma log_failed_parse_object: "json_loads (pe_json_other env) raw = Inr (JObj d) \<Longrightarrow> log_failed_parse env raw = Inr ()"
  by (simp add: log_failed_parse_def)

lemma or_fail_parse_Inr [simp]: "or_fail_parse env raw c m r = Inr x \<longleftrightarrow> r = Inr x"
  by (auto simp: or_fail_parse_def fail_parse_def rbind_eq_Inr split: sum.splits if_splits)

lemma parse_trigger_json_Inr:
  assumes "parse_trigger_json env k raw tzname = Inr spec"
  obtains x n where "validate_type_fields x = Inr x"
    "trigger_spec_from_llm_output (pe_runtime env) x tzname = Inr spec"
    "check_cron env raw spec = Inr ()"
    "compute_next_run_at (pe_aps env) (pe_runtime env) (pe_clock env k) spec = Inr n"
proof -
  obtain data x n where "validate_llm_output (pe_runtime env) data = Inr x"
    "trigger_spec_from_llm_output (pe_runtime env) x tzname = Inr spec"
    "check_cron env raw spec = Inr ()"
    "compute_next_run_at (pe_aps env) (pe_runtime env) (pe_clock env k) spec = Inr n"
    using assms unfolding parse_trigger_json_def rbind_eq_Inr by auto
  then show ?thesis using that validate_llm_output_Inr(2) by blast
qed

lemma try_formats_calls:
  "k \<le> snd (try_formats env settings ms fs le k)
   \<and> snd (try_formats env settings ms fs le k) \<le> k + length fs"
proof (induction fs arbitrary: le k)
  case (Cons f fs)
  show ?case
  proof (cases "pe_completion env k (completion_kwargs settings ms f)")
    case (Inl e)
    then show ?thesis using Cons [where le = "Some e" and k = "Suc k"] by simp
  qed simp
qed simp

lemma call_llm_calls: "ls_calls (snd (call_llm env settings st)) \<le> ls_calls st + 3"
  using try_formats_calls [of "ls_calls st" env settings "ls_messages st" response_formats None]
  by (auto simp add: call_llm_def split: prod.split) (simp add: response_formats_def)

lemma parse_once_state: "snd (parse_once env settings tzname st) = snd (call_llm env settings st)"
  by (simp add: parse_once_def split: prod.splits sum.splits)

lemma before_sleep_calls [simp]: "ls_calls (before_sleep e st) = ls_calls st"
  by (simp add: before_sleep_def)

lemma parse_loop_calls:
  "ls_calls (snd (retry_loop n is_TriggerParseError before_sleep (parse_once env settings tzname) st))
     \<le> ls_calls st + max 1 n * 3"
  by (rule retry_loop_attempts_bound) (simp_all add: parse_once_state call_llm_calls)

section \<open>Properties\<close>

text \<open>
  (C26) An answer of the model that passes validation has the fields of its type and no others,
  and the schedule made from it has that type: a cron schedule has the answer's expression and
  the requested zone, and an interval answer always gives the interval of its value times the
  seconds of its unit, which is positive.
\<close>

theorem llm_output_to_spec:
  assumes "validate_llm_output rt data = Inr x"
  shows "(\<forall>spec. trigger_spec_from_llm_output rt x tzname = Inr spec \<longrightarrow> spec_type spec = lo_type x)
    \<and> (case lo_type x of
         CRON \<Rightarrow> (\<exists>e. lo_cron_expr x = Some e \<and> e \<noteq> [] \<and> lo_interval_value x = None
                   \<and> lo_interval_unit x = None \<and> lo_once_datetime x = None
                   \<and> trigger_spec_from_llm_output rt x tzname = mk_cron_spec rt e tzname)
       | INTERVAL \<Rightarrow> (\<exists>v u. lo_interval_value x = Some v \<and> lo_interval_unit x = Some u
                   \<and> lo_cron_expr x = None \<and> lo_once_datetime x = None
                   \<and> 0 < v * INTERVAL_UNIT_SECONDS u
                   \<and> trigger_spec_from_llm_output rt x tzname
                       = Inr (IntervalTriggerSpec (v * INTERVAL_UNIT_SECONDS u)))
       | ONCE \<Rightarrow> (\<exists>s. lo_once_datetime x = Some s \<and> s \<noteq> [] \<and> lo_cron_expr x = None
                   \<and> lo_interval_value x = None \<and> lo_interval_unit x = None
                   \<and> trigger_spec_from_llm_output rt x tzname
                       = rbind (fromisoformat (iso_other rt) s) (\<lambda>d. Inr (OnceTrigger d))))"
proof -
  note v = validate_llm_output_Inr(2) [OF assms]
  have pos: "0 < n \<Longrightarrow> 0 < n * INTERVAL_UNIT_SECONDS u" for n u
    using unit_seconds_pos by simp
  show ?thesis
    using validated_fields [OF v] pos
    by (cases "lo_type x")
      (auto simp: trigger_spec_from_llm_output_def rbind_eq_Inr mk_cron_spec_Inr mk_interval_spec_def)
qed

text \<open>What is made of one answer of the model can be scheduled.\<close>

lemma parse_trigger_json_schedulable:
  assumes "parse_trigger_json env k raw tzname = Inr spec"
  shows "(\<exists>n. compute_next_run_at (pe_aps env) (pe_runtime env) (pe_clock env k) spec = Inr n)
    \<and> valid_structured (pe_runtime env) spec
    \<and> (\<forall>e z. spec = CronTriggerSpec e z \<longrightarrow>
         z = tzname \<and> is_valid_cron_expression (pe_cron_validate env) e = Inr True)"
proof -
  obtain x n where x: "validate_type_fields x = Inr x"
    "trigger_spec_from_llm_output (pe_runtime env) x tzname = Inr spec"
    "check_cron env raw spec = Inr ()"
    "compute_next_run_at (pe_aps env) (pe_runtime env) (pe_clock env k) spec = Inr n"
    using assms by (rule parse_trigger_json_Inr)
  have "valid_structured (pe_runtime env) spec \<and> (\<forall>e z. spec = CronTriggerSpec e z \<longrightarrow> z = tzname)"
    using x(2) validated_fields [OF x(1)]
    by (cases "lo_type x")
      (auto simp: trigger_spec_from_llm_output_def rbind_eq_Inr mk_cron_spec_Inr
        mk_interval_spec_Inr valid_structured_def)
  moreover have "is_valid_cron_expression (pe_cron_validate env) e = Inr True"
    if "spec = CronTriggerSpec e z" for e z
    using x(3) that
    by (auto simp: check_cron_def rbind_eq_Inr fail_parse_def split: if_splits)
  ultimately show ?thesis using x(4) by blast
qed

text \<open>
  (C25) What the parser of a text returns is well formed and can be put to the scheduling library: a
  cron expression has passed the validator, its zone is the one that was asked for and is known, an
  interval is positive; and at the time at which the parser returns, the trigger of it can be
  built and asked for its next fire time without an error, which may be that there is none.
\<close>

theorem parsed_text_schedulable:
  assumes "parse_trigger_text_to_spec env settings text tzname = (Inr spec, k)"
  shows "(\<exists>trigger r n. build_trigger (pe_aps env) (pe_runtime env) (pe_clock env k) spec = Inr trigger
      \<and> trigger_next (pe_aps env) trigger = Inr r
      \<and> compute_next_run_at (pe_aps env) (pe_runtime env) (pe_clock env k) spec = Inr n)
    \<and> valid_structured (pe_runtime env) spec
    \<and> (\<forall>e z. spec = CronTriggerSpec e z \<longrightarrow>
         z = tzname \<and> is_valid_cron_expression (pe_cron_validate env) e = Inr True)"
proof -
  obtain now where now: "now_in env tzname = Inr now"
    using assms by (cases "now_in env tzname") (simp_all add: parse_trigger_text_to_spec_def)
  obtain so where so: "try_parse_once_schedule (pe_runtime env) text now tzname = Inr so"
    using assms now
    by (cases "try_parse_once_schedule (pe_runtime env) text now tzname")
      (simp_all add: parse_trigger_text_to_spec_def)
  have next_run: ?thesis
    if "\<exists>n. compute_next_run_at (pe_aps env) (pe_runtime env) (pe_clock env k) spec = Inr n"
      and "valid_structured (pe_runtime env) spec"
      and "\<forall>e z. spec = CronTriggerSpec e z \<longrightarrow>
         z = tzname \<and> is_valid_cron_expression (pe_cron_validate env) e = Inr True"
    using that unfolding compute_next_run_at_def rbind_eq_Inr by blast
  show ?thesis
  proof (cases so)
    case (Some s)
    then have s: "spec = s" "k = 0"
      and n: "\<exists>n. compute_next_run_at (pe_aps env) (pe_runtime env) (pe_clock env 0) s = Inr n"
      using assms now so
      by (auto simp: parse_trigger_text_to_spec_def rbind_eq_Inr reraise_as_eq_Inr)
    have "\<exists>t. s = OnceTrigger t" using so Some once_schedule_shape by blast
    then show ?thesis using s n by (intro next_run) (auto simp: valid_structured_def)
  next
    case None
    obtain sp where sp: "system_prompt_for env settings now tzname = Inr sp"
      using assms now so None
      by (cases "system_prompt_for env settings now tzname") (simp_all add: parse_trigger_text_to_spec_def)
    let ?st = "\<lparr>ls_messages = [(''system'', sp), (''user'', text)], ls_calls = 0\<rparr>"
    obtain st where run: "retry_loop (nat (llm_max_retries settings + 1)) is_TriggerParseError
        before_sleep (parse_once env settings tzname) ?st = (Inr spec, st)" and k: "k = ls_calls st"
      using assms now so None sp by (auto simp: parse_trigger_text_to_spec_def split: prod.splits)
    then obtain st0 where "parse_once env settings tzname st0 = (Inr spec, st)"
      using retry_loop_Inr_source [OF run] by blast
    then obtain raw where "parse_trigger_json env k raw tzname = Inr spec"
      using k by (auto simp: parse_once_def split: prod.splits sum.splits)
    then show ?thesis using parse_trigger_json_schedulable next_run by blast
  qed
qed

text \<open>
  Parsing one text calls the model at most three times for each of the
  \<^verbatim>\<open>max_retries + 1\<close> attempts (one attempt at least is made), whatever the model answers.
\<close>

theorem llm_calls_bounded:
  "snd (parse_trigger_text_to_spec env settings text tzname)
     \<le> 3 * max 1 (nat (llm_max_retries settings + 1))"
proof -
  let ?n = "nat (llm_max_retries settings + 1)"
  have "ls_calls st' \<le> 3 * max 1 ?n"
    if "retry_loop ?n is_TriggerParseError before_sleep (parse_once env settings tzname) st = (r, st')"
      "ls_calls st = 0" for st r st'
    using parse_loop_calls [of ?n env settings tzname st] that by (simp add: mult.commute)
  then show ?thesis
    by (auto simp: parse_trigger_text_to_spec_def split: sum.splits option.splits prod.splits)
qed

text \<open>
  When every call of the model fails, a text that is not a one-time phrase is refused with a
  \<open>TriggerParseError\<close>, after exactly three calls in each of the \<^verbatim>\<open>max_retries + 1\<close> attempts.
\<close>

theorem llm_down:
  assumes "now_in env tzname = Inr now"
    and "try_parse_once_schedule (pe_runtime env) text now tzname = Inr None"
    and "system_prompt_for env settings now tzname = Inr prompt"
    and "\<forall>k r. \<exists>e. pe_completion env k r = Inl e"
  shows "\<exists>m. parse_trigger_text_to_spec env settings text tzname
    = (Inl (TriggerParseError m), 3 * max 1 (nat (llm_max_retries settings + 1)))"
proof -
  have fmt: "\<exists>e. try_formats env settings ms fs le k = (Inl (TriggerParseError e), k + length fs)"
    for ms fs le k
  proof (induction fs arbitrary: le k)
    case (Cons f fs)
    obtain e where "pe_completion env k (completion_kwargs settings ms f) = Inl e"
      using assms(4) by blast
    then show ?case using Cons [where le = "Some e" and k = "Suc k"] by simp
  qed simp
  have step: "\<exists>e st'. parse_once env settings tzname st = (Inl e, st') \<and> is_TriggerParseError e
      \<and> ls_calls st' = ls_calls st + 3" for st
  proof -
    obtain e where e: "try_formats env settings (ls_messages st) response_formats None (ls_calls st)
        = (Inl (TriggerParseError e), ls_calls st + length response_formats)"
      using fmt by blast
    show ?thesis by (simp add: parse_once_def call_llm_def e) (simp add: response_formats_def)
  qed
  let ?st = "\<lparr>ls_messages = [(''system'', prompt), (''user'', text)], ls_calls = 0\<rparr>"
  obtain e st' where run: "retry_loop (nat (llm_max_retries settings + 1)) is_TriggerParseError
        before_sleep (parse_once env settings tzname) ?st = (Inl e, st')"
      "is_TriggerParseError e" "ls_calls st' = 0 + max 1 (nat (llm_max_retries settings + 1)) * 3"
    using retry_loop_exhausted [where c = ls_calls and k = 3 and p = is_TriggerParseError
        and b = before_sleep and s = ?st and n = "nat (llm_max_retries settings + 1)",
        OF step before_sleep_calls] by auto
  then obtain m where m: "e = TriggerParseError m" by (cases e) simp_all
  have "ls_calls st' = 3 * max 1 (nat (llm_max_retries settings + 1))"
    using run(3) by (simp only: mult.commute add_0)
  then show ?thesis
    using assms(1-3) run(1) by (simp add: parse_trigger_text_to_spec_def m)
qed

text \<open>
  When the model's first answer is JSON but not an object, the failure that is raised is not
  a \<open>TriggerParseError\<close>: the log statement fails on it first, with an \<open>AttributeError\<close> that is
  neither retried nor turned into a response of status 422.
\<close>

theorem non_object_answer_escapes:
  assumes "now_in env tzname = Inr now"
    and "try_parse_once_schedule (pe_runtime env) text now tzname = Inr None"
    and "system_prompt_for env settings now tzname = Inr prompt"
    and "\<forall>r. pe_completion env 0 r = Inr [Some content]" "content \<noteq> []"
    and "json_loads (pe_json_other env) (py_strip content) = Inr data" "\<forall>d. data \<noteq> JObj d"
  shows "\<exists>m. parse_trigger_text_to_spec env settings text tzname = (Inl (AttributeError m), 1)"
proof -
  let ?st = "\<lparr>ls_messages = [(''system'', prompt), (''user'', text)], ls_calls = 0\<rparr>"
  have "call_llm env settings ?st = (Inr (py_strip content), ?st\<lparr>ls_calls := 1\<rparr>)"
    using assms(4,5) by (simp add: call_llm_def response_formats_def extract_content_def)
  moreover have "\<exists>m. parse_trigger_json env 1 (py_strip content) tzname = Inl (AttributeError m)"
    using assms(6,7)
    by (cases data) (simp_all add: parse_trigger_json_def validate_llm_output_def or_fail_parse_def
        fail_parse_def log_failed_parse_def)
  ultimately obtain m where
    "parse_once env settings tzname ?st = (Inl (AttributeError m), ?st\<lparr>ls_calls := 1\<rparr>)"
    by (auto simp: parse_once_def)
  then have "retry_loop (nat (llm_max_retries settings + 1)) is_TriggerParseError before_sleep
      (parse_once env settings tzname) ?st = (Inl (AttributeError m), ?st\<lparr>ls_calls := 1\<rparr>)"
    by (rule retry_loop_not_retried) simp
  then show ?thesis using assms(1-3) by (simp add: parse_trigger_text_to_spec_def)
qed

section \<open>Witnesses\<close>

text \<open>A text in which a back quote stands for a quotation mark.\<close>

definition quoted :: "string \<Rightarrow> string" where
  "quoted s = map (\<lambda>c. if c = CHR ''`'' then CHR 0x22 else c) s"

definition demo_answer :: string where
  "demo_answer = quoted
     ''{`_thought`: `daily`, `type`: `cron`, `cron_expr`: `0 9 * * *`, `interval_value`: null, `interval_unit`: null, `once_datetime`: null}''"

definition demo_env :: "(nat \<Rightarrow> string option list result) \<Rightarrow> demo_trigger parse_env" where
  "demo_env answers =
     \<lparr>pe_runtime = demo_runtime, pe_aps = demo_aps, pe_clock = (\<lambda>_. frozen_time),
      pe_json_other = (\<lambda>_. Inl (JSONDecodeError [])), pe_cron_validate = (\<lambda>_. Inr True),
      pe_completion = (\<lambda>k _. answers k), pe_read_text = (\<lambda>_. Inr ''Parse the schedule.'')\<rparr>"

definition demo_settings :: llm_settings where
  "demo_settings = default_llm_settings ''trigger_parse.txt''"

lemma demo_answer_parsed:
  "parse_trigger_json (demo_env answers) k demo_answer ''UTC'' = Inr (CronTriggerSpec ''0 9 * * *'' ''UTC'')"
proof -
  have "case parse_trigger_json (demo_env answers) k demo_answer ''UTC'' of
      Inr (CronTriggerSpec e z) \<Rightarrow> e = ''0 9 * * *'' \<and> z = ''UTC'' | _ \<Rightarrow> False"
    by code_simp
  then show ?thesis by (auto split: sum.splits structured_trigger.splits)
qed

text \<open>The phrase is left to the model, whose prompt is the template.\<close>

lemma demo_now: "now_in (demo_env answers) ''UTC'' = Inr demo_localized"
  using localize_demo by (simp add: now_in_def demo_env_def localize_def frozen_time_def demo_runtime_def)

lemma demo_not_once:
  "try_parse_once_schedule (pe_runtime (demo_env answers)) ''every day at 9am'' demo_localized ''UTC'' = Inr None"
proof -
  have "rsearch RECURRING_PATTERN ''every day at 9am'' \<noteq> None" by code_simp
  then show ?thesis using try_once_recurring by (simp only: recurring_iff)
qed

lemma demo_placeholders_localized:
  "\<exists>tab. build_trigger_parse_placeholders demo_runtime demo_localized ''UTC'' = Inr tab"
  by (simp add: build_trigger_parse_placeholders_def localize_now_def demo_runtime_def astimezone_def
      demo_localized_def frozen_time_def next_weekday_def weekday_def dt_add_def replace_time_def
      wall_ok_def time_units utc_zone_def)

lemma demo_prompt:
  "system_prompt_for (demo_env answers) demo_settings demo_localized ''UTC'' = Inr ''Parse the schedule.''"
proof -
  obtain tab where tab: "build_trigger_parse_placeholders demo_runtime demo_localized ''UTC'' = Inr tab"
    using demo_placeholders_localized by blast
  have "render_trigger_parse_prompt demo_runtime ''Parse the schedule.'' demo_localized ''UTC''
      = Inr ''Parse the schedule.''"
    using placeholders_ok [OF tab] replace_all_template [of tab "[Lit ''Parse the schedule.'']"]
      lit_ok_no_inject [of "''Parse the schedule.''"]
    by (simp add: render_trigger_parse_prompt_def tab template_text_def)
  moreover have "py_strip ''Parse the schedule.'' = ''Parse the schedule.''" by code_simp
  ultimately show ?thesis
    by (simp add: system_prompt_for_def load_prompt_def demo_env_def Let_def)
qed

lemma demo_parse:
  assumes "answers 0 = Inr [Some demo_answer]"
  shows "parse_trigger_text_to_spec (demo_env answers) demo_settings ''every day at 9am'' ''UTC''
    = (Inr (CronTriggerSpec ''0 9 * * *'' ''UTC''), 1)"
proof -
  let ?st = "\<lparr>ls_messages = [(''system'', ''Parse the schedule.''), (''user'', ''every day at 9am'')],
    ls_calls = 0\<rparr>"
  have s: "py_strip demo_answer = demo_answer" "demo_answer \<noteq> []" by code_simp+
  have "call_llm (demo_env answers) demo_settings ?st = (Inr demo_answer, ?st\<lparr>ls_calls := 1\<rparr>)"
    using assms s by (simp add: call_llm_def response_formats_def extract_content_def demo_env_def)
  then have "parse_once (demo_env answers) demo_settings ''UTC'' ?st
      = (Inr (CronTriggerSpec ''0 9 * * *'' ''UTC''), ?st\<lparr>ls_calls := 1\<rparr>)"
    using demo_answer_parsed by (simp add: parse_once_def)
  note run = retry_loop_first_Inr [where f = "parse_once (demo_env answers) demo_settings ''UTC''", OF this]
  show ?thesis
    unfolding parse_trigger_text_to_spec_def demo_now demo_not_once demo_prompt sum.case option.case run
    by simp
qed

lemma llm_output_to_spec_witness:
  "\<exists>x. validate_llm_output demo_runtime (JObj [(''_thought'', JStr ''t''), (''type'', JStr ''interval''),
        (''cron_expr'', JNull), (''interval_value'', JInt 2), (''interval_unit'', JStr ''hours''),
        (''once_datetime'', JNull)]) = Inr x
     \<and> trigger_spec_from_llm_output demo_runtime x ''UTC'' = Inr (IntervalTriggerSpec 7200)"
proof -
  let ?x = "\<lparr>lo_thought = ''t'', lo_type = INTERVAL, lo_cron_expr = None, lo_interval_value = Some 2,
      lo_interval_unit = Some HOURS, lo_once_datetime = None\<rparr>"
  have v: "validate_llm_output demo_runtime (JObj [(''_thought'', JStr ''t''), (''type'', JStr ''interval''),
        (''cron_expr'', JNull), (''interval_value'', JInt 2), (''interval_unit'', JStr ''hours''),
        (''once_datetime'', JNull)]) = Inr ?x"
    by (simp add: validate_llm_output_def required_field_def thought_key_def thought_text_def
        trigger_type_literal_def pydantic_optional_def interval_unit_member_def INTERVAL_UNITS_def
        validate_type_fields_def)
  show ?thesis using v llm_output_to_spec [OF v, of "''UTC''"] by auto
qed

lemma parsed_text_schedulable_witness:
  "\<exists>(env :: demo_trigger parse_env) spec trigger n.
     parse_trigger_text_to_spec env demo_settings ''every day at 9am'' ''UTC'' = (Inr spec, 1)
   \<and> spec = CronTriggerSpec ''0 9 * * *'' ''UTC''
   \<and> build_trigger (pe_aps env) (pe_runtime env) (pe_clock env 1) spec = Inr trigger
   \<and> compute_next_run_at demo_aps demo_runtime frozen_time spec = Inr n
   \<and> is_valid_cron_expression (pe_cron_validate env) ''0 9 * * *'' = Inr True"
proof -
  let ?env = "demo_env (\<lambda>_. Inr [Some demo_answer])"
  have parsed: "parse_trigger_text_to_spec ?env demo_settings ''every day at 9am'' ''UTC''
      = (Inr (CronTriggerSpec ''0 9 * * *'' ''UTC''), 1)" by (rule demo_parse) simp
  have env: "pe_aps ?env = demo_aps" "pe_runtime ?env = demo_runtime" "pe_clock ?env 1 = frozen_time"
    by (simp_all add: demo_env_def)
  obtain trigger n where "build_trigger demo_aps demo_runtime frozen_time (CronTriggerSpec ''0 9 * * *'' ''UTC'') = Inr trigger"
    "compute_next_run_at demo_aps demo_runtime frozen_time (CronTriggerSpec ''0 9 * * *'' ''UTC'') = Inr n"
    "is_valid_cron_expression (pe_cron_validate ?env) ''0 9 * * *'' = Inr True"
    using parsed_text_schedulable [OF parsed] unfolding env by (elim conjE exE) simp
  then show ?thesis
    by (intro exI [of _ ?env] exI [of _ "CronTriggerSpec ''0 9 * * *'' ''UTC''"] exI [of _ trigger] exI [of _ n] conjI
        parsed refl) (simp_all only: env)
qed

text \<open>Three attempts of three calls each.\<close>

lemma llm_down_witness:
  "\<exists>m. parse_trigger_text_to_spec (demo_env (\<lambda>_. Inl (OSError ''refused''))) demo_settings
     ''every day at 9am'' ''UTC'' = (Inl (TriggerParseError m), 9)"
proof -
  have "\<forall>k r. \<exists>e. pe_completion (demo_env (\<lambda>_. Inl (OSError ''refused''))) k r = Inl e"
    by (simp add: demo_env_def)
  from llm_down [OF demo_now demo_not_once demo_prompt this]
  show ?thesis by (simp add: demo_settings_def default_llm_settings_def)
qed

text \<open>The model answers with a list.\<close>

lemma non_object_answer_escapes_witness:
  "\<exists>m. parse_trigger_text_to_spec (demo_env (\<lambda>_. Inr [Some ''[1]''])) demo_settings
     ''every day at 9am'' ''UTC'' = (Inl (AttributeError m), 1)"
proof -
  let ?env = "demo_env (\<lambda>_. Inr [Some ''[1]''])"
  have "json_loads (pe_json_other ?env) (py_strip ''[1]'') = Inr (JArr [JInt 1])" by code_simp
  moreover have "\<forall>r. pe_completion ?env 0 r = Inr [Some ''[1]'']" by (simp add: demo_env_def)
  ultimately show ?thesis
    using non_object_answer_escapes [OF demo_now demo_not_once demo_prompt, of
         "\<lambda>_. Inr [Some ''[1]'']" "''[1]''"] by simp
qed

end
