(* ===== verification/Sql_Order.thy ===== *)
theory Sql_Order
  imports Prelude
begin

text \<open>
  \<^verbatim>\<open>ORDER BY\<close> on a nullable column of times, \<^verbatim>\<open>NULLS LAST\<close>, with \<^verbatim>\<open>LIMIT\<close> and \<^verbatim>\<open>OFFSET\<close>. A value of the
  column is a \<open>sql_key\<close>; the null sorts after every value. A descending order compares the negated
  values. Rows with equal keys come in the order in which the database happens to read them:
  \<open>pos\<close> is the place of a row in that reading, which may be another one in every query.
\<close>

datatype sql_key = SqlValue int | SqlNull

instantiation sql_key :: linorder
begin

fun less_eq_sql_key :: "sql_key \<Rightarrow> sql_key \<Rightarrow> bool" where
  "less_eq_sql_key (SqlValue a) (SqlValue b) = (a \<le> b)"
| "less_eq_sql_key (SqlValue _) SqlNull = True"
| "less_eq_sql_key SqlNull (SqlValue _) = False"
| "less_eq_sql_key SqlNull SqlNull = True"

definition less_sql_key :: "sql_key \<Rightarrow> sql_key \<Rightarrow> bool" where
  "less_sql_key a b \<longleftrightarrow> a \<le> b \<and> \<not> b \<le> (a :: sql_key)"

instance
proof
  fix a b c :: sql_key
  show "a < b \<longleftrightarrow> a \<le> b \<and> \<not> b \<le> a" by (simp add: less_sql_key_def)
  show "a \<le> a" by (cases a) simp_all
  show "a \<le> b \<Longrightarrow> b \<le> c \<Longrightarrow> a \<le> c" by (cases a; cases b; cases c) simp_all
  show "a \<le> b \<Longrightarrow> b \<le> a \<Longrightarrow> a = b" by (cases a; cases b) simp_all
  show "a \<le> b \<or> b \<le> a" by (cases a; cases b) auto
qed

end

definition sql_key_of :: "bool \<Rightarrow> int option \<Rightarrow> sql_key" where
  "sql_key_of ascending v =
     (case v of None \<Rightarrow> SqlNull | Some n \<Rightarrow> SqlValue (if ascending then n else - n))"

definition order_rows :: "('r \<Rightarrow> nat) \<Rightarrow> ('r \<Rightarrow> sql_key) \<Rightarrow> 'r list \<Rightarrow> 'r list" where
  "order_rows pos key rows = sort_key key (sort_key pos rows)"

lemma mset_order_rows: "mset (order_rows pos key rows) = mset rows"
  by (simp add: order_rows_def)

lemma sorted_order_rows: "sorted (map key (order_rows pos key rows))"
  by (simp add: order_rows_def)

lemma sql_key_of_inject [simp]: "sql_key_of asc a = sql_key_of asc b \<longleftrightarrow> a = b"
  by (auto simp: sql_key_of_def split: option.splits)

end
