(* ===== verification/Task_Routes.thy ===== *)
theory Task_Routes
  imports Executor Trigger_Parse Sql_Order
begin

text \<open>
  \<^verbatim>\<open>app/routes/tasks.py\<close>: the handlers on tasks. A handler runs on the database as its session sees
  it and with the context \<open>cx\<close> of that session; it gives its result, the database after the
  commits that it makes itself, the writes that wait for the commit of \<^verbatim>\<open>get_db\<close>, the background
  tasks that it adds, and the webhook requests that it sends. The results of \<^verbatim>\<open>uuid4()\<close> are
  arguments; the clock is that of \<open>parse_env\<close>, which moves only while the language
  model is called, and its first reading is the time of the transaction.
\<close>

section \<open>Handlers and what they return\<close>

datatype background =
    RegisterSchedule scheduled_task
  | UnregisterSchedule uuid

record 'r handler_out =
  ho_result :: "'r result"
  ho_db :: db
  ho_pending :: "db_write list"
  ho_background :: "background list"
  ho_sent :: "webhook_request list"

text \<open>A handler that raises before it has written anything, and one that only reads.\<close>

definition handler_raises :: "db \<Rightarrow> exn \<Rightarrow> 'r handler_out" where
  "handler_raises db e =
     \<lparr>ho_result = Inl e, ho_db = db, ho_pending = [], ho_background = [], ho_sent = []\<rparr>"

definition handler_reads :: "db \<Rightarrow> 'r result \<Rightarrow> 'r handler_out" where
  "handler_reads db r =
     \<lparr>ho_result = r, ho_db = db, ho_pending = [], ho_background = [], ho_sent = []\<rparr>"

definition and_then :: "db \<Rightarrow> 'a result \<Rightarrow> ('a \<Rightarrow> 'r handler_out) \<Rightarrow> 'r handler_out" where
  "and_then db r f = (case r of Inl e \<Rightarrow> handler_raises db e | Inr x \<Rightarrow> f x)"

record task_response =
  tr_id :: string
  tr_user_id :: string
  tr_webhook_url :: string
  tr_parameters :: "(string \<times> string) list"
  tr_trigger_type :: trigger_type
  tr_trigger_config :: trigger_config
  tr_next_run_at :: "datetime option"
  tr_is_active :: bool
  tr_created_at :: datetime
  tr_updated_at :: datetime

record task_list_response =
  tl_items :: "task_response list"
  tl_total :: int
  tl_limit :: int
  tl_offset :: int

record task_run_response =
  trr_task_id :: string
  trr_execution_source :: execution_source
  trr_webhook_url :: string
  trr_http_status :: "int option"
  trr_error_message :: "string option"
  trr_success :: bool

record task_schedule_response =
  ts_trigger_type :: trigger_type
  ts_is_active :: bool
  ts_next_run_at :: "datetime option"
  ts_upcoming :: "datetime list"

section \<open>Helpers\<close>

definition get_task_or_404 :: "rls_ctx \<Rightarrow> db \<Rightarrow> uuid \<Rightarrow> scheduled_task result" where
  "get_task_or_404 cx db task_id =
     rbind (scalar_one_or_none (select_tasks cx db (\<lambda>t. t_id t = task_id))) (\<lambda>r.
       case r of
         None \<Rightarrow> Inl (HTTPException 404 ''Task not found'')
       | Some task \<Rightarrow> Inr task)"

definition to_response :: "runtime \<Rightarrow> scheduled_task \<Rightarrow> task_response result" where
  "to_response rt task =
     rbind (pydantic_member trigger_type_member (Some (t_trigger_type task))) (\<lambda>ty.
     rbind (config_from_dict rt (t_trigger_config task)) (\<lambda>config.
     Inr \<lparr>tr_id = uuid_str (t_id task), tr_user_id = t_user_id task,
          tr_webhook_url = t_webhook_url task, tr_parameters = t_parameters task,
          tr_trigger_type = ty, tr_trigger_config = config, tr_next_run_at = t_next_run_at task,
          tr_is_active = t_is_active task, tr_created_at = t_created_at task,
          tr_updated_at = t_updated_at task\<rparr>))"

definition list_order_by :: "task_list_query \<Rightarrow> scheduled_task \<Rightarrow> sql_key" where
  "list_order_by query task =
     sql_key_of (q_order query = ASC)
       (case q_sort query of
          CREATED_AT \<Rightarrow> Some (instant (t_created_at task))
        | NEXT_RUN_AT \<Rightarrow> map_option instant (t_next_run_at task)
        | UPDATED_AT \<Rightarrow> Some (instant (t_updated_at task)))"

definition list_filters :: "task_list_query \<Rightarrow> scheduled_task \<Rightarrow> bool" where
  "list_filters query task \<longleftrightarrow>
     (q_active_only query \<longrightarrow> t_is_active task)
     \<and> (case q_trigger_type query of
          None \<Rightarrow> True
        | Some ty \<Rightarrow> t_trigger_type task = trigger_type_value ty)"

text \<open>A list of results, all of them or the first error.\<close>

fun collect :: "('a \<Rightarrow> 'b result) \<Rightarrow> 'a list \<Rightarrow> 'b list result" where
  "collect f [] = Inr []"
| "collect f (x # xs) = rbind (f x) (\<lambda>y. rbind (collect f xs) (\<lambda>ys. Inr (y # ys)))"

section \<open>The handlers\<close>

definition new_task ::
  "uuid \<Rightarrow> string \<Rightarrow> datetime \<Rightarrow> task_create \<Rightarrow> structured_trigger \<Rightarrow> datetime option \<Rightarrow> scheduled_task"
where
  "new_task i user_id now body trigger next_run_at =
     \<lparr>t_id = i, t_user_id = user_id, t_webhook_url = tc_webhook_url body,
      t_parameters = tc_parameters body, t_trigger_type = trigger_type_value (spec_type trigger),
      t_trigger_config = config_dump (trigger_config_from_spec trigger),
      t_next_run_at = next_run_at, t_is_active = True, t_created_at = now, t_updated_at = now\<rparr>"

text \<open>\<^verbatim>\<open>session.flush()\<close> and \<^verbatim>\<open>session.refresh(task)\<close>: the row as the database has it.\<close>

definition flush_and_refresh ::
  "rls_ctx \<Rightarrow> datetime \<Rightarrow> db \<Rightarrow> scheduled_task \<Rightarrow> scheduled_task result" where
  "flush_and_refresh cx now db task =
     rbind (apply_writes cx now [InsertTask task] db) (\<lambda>db'.
     rbind (scalar_one_or_none (select_tasks cx db' (\<lambda>t. t_id t = t_id task))) (\<lambda>r.
       case r of
         None \<Rightarrow> Inl (DatabaseError ''Could not refresh instance'')
       | Some t \<Rightarrow> Inr t))"

definition resolve_or_422 ::
  "'t parse_env \<Rightarrow> llm_settings \<Rightarrow> trigger_spec \<Rightarrow> (structured_trigger \<times> nat) result" where
  "resolve_or_422 env llm spec =
     (let (r, k) = resolve_trigger_spec env llm spec
      in rbind (reraise_as is_TriggerParseError (\<lambda>exc. HTTPException 422 (exn_str exc)) r)
           (\<lambda>trigger. Inr (trigger, k)))"

definition create_task ::
  "'t parse_env \<Rightarrow> llm_settings \<Rightarrow> rls_ctx \<Rightarrow> uuid \<times> uuid \<Rightarrow> current_user \<Rightarrow> task_create \<Rightarrow> db
     \<Rightarrow> task_response handler_out" where
  "create_task env llm cx ids user body db =
     and_then db (resolve_or_422 env llm (tc_trigger body)) (\<lambda>(trigger, k).
     and_then db (compute_next_run_at (pe_aps env) (pe_runtime env) (pe_clock env k) trigger) (\<lambda>next_run_at.
     let now = pe_clock env 0;
         new = new_task (fst ids) (cu_user_id user) now body trigger next_run_at
     in and_then db (flush_and_refresh cx now db new) (\<lambda>task.
        and_then db (record_task_created (pe_runtime env) (snd ids) now (cu_user_id user) task) (\<lambda>row.
        and_then db (to_response (pe_runtime env) task) (\<lambda>response.
          \<lparr>ho_result = Inr response, ho_db = db, ho_pending = [InsertTask new, row],
           ho_background = [RegisterSchedule task], ho_sent = []\<rparr>)))))"

definition list_tasks ::
  "runtime \<Rightarrow> rls_ctx \<Rightarrow> (scheduled_task \<Rightarrow> nat) \<Rightarrow> task_list_query \<Rightarrow> db
     \<Rightarrow> task_list_response handler_out" where
  "list_tasks rt cx pos query db =
     (let matching = select_tasks cx db (list_filters query);
          rows = page (nat (q_limit query)) (nat (q_offset query))
                   (order_rows pos (list_order_by query) matching)
      in handler_reads db (rbind (collect (to_response rt) rows) (\<lambda>items.
           Inr \<lparr>tl_items = items, tl_total = int (length matching), tl_limit = q_limit query,
                tl_offset = q_offset query\<rparr>)))"

text \<open>\<open>None\<close>: the computation of the fire times does not end.\<close>

definition get_task_schedule ::
  "'t parse_env \<Rightarrow> rls_ctx \<Rightarrow> uuid \<Rightarrow> int \<Rightarrow> db \<Rightarrow> task_schedule_response handler_out option" where
  "get_task_schedule env cx task_id cnt db =
     (case get_task_or_404 cx db task_id of
        Inl e \<Rightarrow> Some (handler_raises db e)
      | Inr task \<Rightarrow>
          map_option (\<lambda>r. handler_reads db
              (rbind r (\<lambda>upcoming.
               rbind (pydantic_member trigger_type_member (Some (t_trigger_type task))) (\<lambda>ty.
               Inr \<lparr>ts_trigger_type = ty, ts_is_active = t_is_active task,
                    ts_next_run_at = (case upcoming of [] \<Rightarrow> None | d # _ \<Rightarrow> Some d),
                    ts_upcoming = upcoming\<rparr>))))
            (compute_upcoming_run_times (pe_aps env) (pe_runtime env) (pe_clock env 0) task cnt))"

text \<open>The handler commits its execution record itself, before it answers 502 for a failed webhook.\<close>

definition run_task ::
  "'t parse_env \<Rightarrow> executor_globals \<Rightarrow> jwt_lib \<Rightarrow> rls_ctx \<Rightarrow> uuid \<Rightarrow> current_user \<Rightarrow> uuid \<Rightarrow> db
     \<Rightarrow> task_run_response handler_out" where
  "run_task env g lib cx i user task_id db =
     and_then db (get_task_or_404 cx db task_id) (\<lambda>task.
     case run_task_manually g lib (pe_clock env 0) db (uuid_str (t_id task)) of
       (Inl e, sent) \<Rightarrow> (handler_raises db e)\<lparr>ho_sent := sent\<rparr>
     | (Inr outcome, sent) \<Rightarrow>
         let result = webhook_fire_result MANUAL (t_webhook_url task) outcome;
             row = record_execution i (pe_clock env 0) (cu_user_id user) (t_id task)
                     (wr_execution_source result) (wr_webhook_url result) (wr_success result)
                     (wr_http_status result) (wr_error_message result)
         in case apply_writes cx (pe_clock env 0) [row] db of
              Inl e \<Rightarrow> (handler_raises db e)\<lparr>ho_sent := sent\<rparr>
            | Inr db' \<Rightarrow>
                \<lparr>ho_result =
                   (if \<not> wr_success result then
                      (case wr_http_status result of
                         Some status \<Rightarrow>
                           Inl (HTTPException 502 (''Webhook returned '' @ int_str status))
                       | None \<Rightarrow>
                           Inl (HTTPException 502
                             (text_or (wr_error_message result) ''Webhook request failed'')))
                    else Inr \<lparr>trr_task_id = uuid_str (t_id task),
                              trr_execution_source = wr_execution_source result,
                              trr_webhook_url = wr_webhook_url result,
                              trr_http_status = wr_http_status result,
                              trr_error_message = wr_error_message result,
                              trr_success = wr_success result\<rparr>),
                 ho_db = db', ho_pending = [], ho_background = [], ho_sent = sent\<rparr>)"

definition deactivate_task ::
  "'t parse_env \<Rightarrow> rls_ctx \<Rightarrow> uuid \<Rightarrow> current_user \<Rightarrow> uuid \<Rightarrow> db \<Rightarrow> task_response handler_out" where
  "deactivate_task env cx i user task_id db =
     and_then db (get_task_or_404 cx db task_id) (\<lambda>task.
       if t_is_active task then
         let task' = task\<lparr>t_is_active := False, t_next_run_at := None\<rparr>
         in and_then db (to_response (pe_runtime env) task') (\<lambda>response.
              \<lparr>ho_result = Inr response, ho_db = db,
               ho_pending =
                 [UpdateTask (t_id task) False None,
                  record_task_lifecycle i (pe_clock env 0) (cu_user_id user) (t_id task) TASK_DEACTIVATED],
               ho_background = [UnregisterSchedule task_id], ho_sent = []\<rparr>)
       else handler_reads db (to_response (pe_runtime env) task))"

definition activate_task ::
  "'t parse_env \<Rightarrow> rls_ctx \<Rightarrow> uuid \<Rightarrow> current_user \<Rightarrow> uuid \<Rightarrow> db \<Rightarrow> task_response handler_out" where
  "activate_task env cx i user task_id db =
     and_then db (get_task_or_404 cx db task_id) (\<lambda>task.
       if t_is_active task then handler_reads db (to_response (pe_runtime env) task)
       else
         let now = pe_clock env 0
         in and_then db (compute_next_run_at_for_task (pe_aps env) (pe_runtime env) now task) (\<lambda>next_run_at.
            if (case next_run_at of
                  None \<Rightarrow> True
                | Some n \<Rightarrow> t_trigger_type task = trigger_type_value ONCE \<and> instant n \<le> instant now)
            then handler_raises db (HTTPException 422 ''Task cannot be activated'')
            else
              let task' = task\<lparr>t_is_active := True, t_next_run_at := next_run_at\<rparr>
              in and_then db (to_response (pe_runtime env) task') (\<lambda>response.
                   \<lparr>ho_result = Inr response, ho_db = db,
                    ho_pending =
                      [UpdateTask (t_id task) True next_run_at,
                       record_task_lifecycle i now (cu_user_id user) (t_id task) TASK_ACTIVATED],
                    ho_background = [RegisterSchedule task'], ho_sent = []\<rparr>)))"

definition delete_task ::
  "'t parse_env \<Rightarrow> rls_ctx \<Rightarrow> uuid \<Rightarrow> current_user \<Rightarrow> uuid \<Rightarrow> db \<Rightarrow> unit handler_out" where
  "delete_task env cx i user task_id db =
     and_then db (get_task_or_404 cx db task_id) (\<lambda>task.
     and_then db (record_task_deleted (pe_runtime env) i (pe_clock env 0) (cu_user_id user) task) (\<lambda>row.
       \<lparr>ho_result = Inr (), ho_db = db, ho_pending = [row, DeleteTask (t_id task)],
        ho_background = (if t_is_active task then [UnregisterSchedule task_id] else []),
        ho_sent = []\<rparr>))"

section \<open>Facts\<close>

lemma and_then_simps [simp]:
  "and_then db (Inl e) f = handler_raises db e" "and_then db (Inr x) f = f x"
  by (simp_all add: and_then_def)

lemma handler_raises_simps [simp]:
  "ho_result (handler_raises db e) = Inl e" "ho_db (handler_raises db e) = db"
  "ho_pending (handler_raises db e) = []" "ho_background (handler_raises db e) = []"
  "ho_sent (handler_raises db e) = []"
  by (simp_all add: handler_raises_def)

lemma handler_reads_simps [simp]:
  "ho_result (handler_reads db r) = r" "ho_db (handler_reads db r) = db"
  "ho_pending (handler_reads db r) = []" "ho_background (handler_reads db r) = []"
  "ho_sent (handler_reads db r) = []"
  by (simp_all add: handler_reads_def)

lemma and_then_success:
  "ho_result (and_then db r f) = Inr y \<Longrightarrow> \<exists>x. r = Inr x \<and> and_then db r f = f x \<and> ho_result (f x) = Inr y"
  by (cases r) simp_all

lemma scalar_one_or_none_Some: "scalar_one_or_none rows = Inr (Some r) \<longleftrightarrow> rows = [r]"
  by (auto simp: scalar_one_or_none_def split: list.splits)

lemma scalar_one_or_none_None: "scalar_one_or_none rows = Inr None \<longleftrightarrow> rows = []"
  by (auto simp: scalar_one_or_none_def split: list.splits)

text \<open>A session of a user finds the user's own tasks by their ids, and no others.\<close>

lemma get_task_own:
  assumes "user_session cx u" "get_task_or_404 cx db i = Inr t"
  shows "t \<in> set (db_tasks db)" "t_id t = i" "t_user_id t = u"
proof -
  have "filter (\<lambda>t. t_user_id t = u \<and> t_id t = i) (db_tasks db) = [t]"
    using assms
    by (auto simp: get_task_or_404_def rbind_eq_Inr select_tasks_user scalar_one_or_none_Some
        split: option.splits)
  then have "t \<in> set (filter (\<lambda>t. t_user_id t = u \<and> t_id t = i) (db_tasks db))" by simp
  then show "t \<in> set (db_tasks db)" "t_id t = i" "t_user_id t = u" by auto
qed

lemma own_filter:
  assumes "db_ok db" "t \<in> set (db_tasks db)"
  shows "filter (\<lambda>x. t_user_id x = t_user_id t \<and> t_id x = t_id t) (db_tasks db) = [t]"
proof -
  have d: "distinct (map t_id (db_tasks db))" using assms(1) by (simp add: db_ok_def)
  have "filter (\<lambda>x. t_user_id x = t_user_id t \<and> t_id x = t_id t) (db_tasks db)
      = filter (\<lambda>x. t_user_id x = t_user_id t) (filter (\<lambda>x. t_id x = t_id t) (db_tasks db))"
    by (simp add: filter_filter_conj conj_commute)
  then show ?thesis using filter_by_id [OF d assms(2)] by simp
qed

lemma get_task_found:
  assumes "user_session cx (t_user_id t)" "db_ok db" "t \<in> set (db_tasks db)"
  shows "get_task_or_404 cx db (t_id t) = Inr t"
  using assms own_filter [OF assms(2,3)]
  by (simp add: get_task_or_404_def select_tasks_user scalar_one_or_none_def)

lemma get_task_foreign:
  assumes "user_session cx u" "\<forall>t \<in> set (db_tasks db). t_id t = i \<longrightarrow> t_user_id t \<noteq> u"
  shows "get_task_or_404 cx db i = Inl (HTTPException 404 ''Task not found'')"
proof -
  have "filter (\<lambda>t. t_user_id t = u \<and> t_id t = i) (db_tasks db) = []"
    using assms(2) by (auto simp: filter_empty_conv)
  then show ?thesis
    using assms(1) by (simp add: get_task_or_404_def select_tasks_user scalar_one_or_none_def)
qed

lemma flush_and_refresh_Inr:
  assumes "user_session cx u" "db_ok db" "t_user_id new = u" "flush_and_refresh cx now db new = Inr task"
  shows "task = stored_task now new" "t_id new \<notin> t_id ` set (db_tasks db)"
    "apply_write cx now (InsertTask new) db = Inr (db\<lparr>db_tasks := db_tasks db @ [stored_task now new]\<rparr>)"
proof -
  obtain db' r where w: "apply_write cx now (InsertTask new) db = Inr db'"
    and r: "scalar_one_or_none (select_tasks cx db' (\<lambda>t. t_id t = t_id new)) = Inr (Some task)"
    using assms(4) by (auto simp: flush_and_refresh_def apply_writes_def rbind_eq_Inr split: option.splits)
  then show new: "t_id new \<notin> t_id ` set (db_tasks db)"
    and db': "apply_write cx now (InsertTask new) db = Inr (db\<lparr>db_tasks := db_tasks db @ [stored_task now new]\<rparr>)"
    by (auto split: if_splits)
  have "db' = db\<lparr>db_tasks := db_tasks db @ [stored_task now new]\<rparr>" using w db' by simp
  then have "filter (\<lambda>t. t_user_id t = u \<and> t_id t = t_id new) (db_tasks db @ [stored_task now new]) = [task]"
    using r by (simp add: select_tasks_user [OF assms(1)] scalar_one_or_none_Some)
  moreover have "filter (\<lambda>t. t_user_id t = u \<and> t_id t = t_id new) (db_tasks db) = []"
    using new by (auto simp: filter_empty_conv image_iff)
  ultimately show "task = stored_task now new" using assms(3) by simp
qed

text \<open>
  The writes of a handler of \<open>u\<close> touch rows of \<open>u\<close>: what it has committed itself leaves the rows of
  the others alone, and so does what waits for the commit.
\<close>

definition own_out :: "string \<Rightarrow> uuid set \<Rightarrow> db \<Rightarrow> 'r handler_out \<Rightarrow> bool" where
  "own_out u ids db out \<longleftrightarrow> list_all (touches u ids) (ho_pending out) \<and> isolated u ids db (ho_db out)"

lemma isolated_refl [simp]: "isolated u ids db db"
  by (rule isolation.R_refl)

lemma own_out_raises [simp]: "own_out u ids db (handler_raises db e)"
  and own_out_reads [simp]: "own_out u ids db (handler_reads db r)"
  by (simp_all add: own_out_def)

lemma own_out_and_then:
  "(\<And>x. r = Inr x \<Longrightarrow> own_out u ids db (f x)) \<Longrightarrow> own_out u ids db (and_then db r f)"
  by (cases r) simp_all

lemma record_lifecycle_touches [simp]:
  "touches u ids (record_task_lifecycle i now u tid ev)"
  "touches u ids (record_execution i now u tid src url b st m)"
  by (simp_all add: record_task_lifecycle_def record_execution_def history_row_def)

lemma record_task_deleted_touches:
  "record_task_deleted rt i now u task = Inr w \<Longrightarrow> touches u ids w"
  "record_task_created rt i now u task = Inr w \<Longrightarrow> touches u ids w"
  by (auto simp: record_task_deleted_def record_task_created_def snapshot_from_task_def
      rbind_eq_Inr history_row_def)

lemma create_task_own: "own_out (cu_user_id user) {} db (create_task env llm cx ids user body db)"
  unfolding create_task_def
  by (auto simp: Let_def split: prod.splits intro!: own_out_and_then)
    (auto simp: own_out_def new_task_def dest: record_task_deleted_touches)

lemma run_task_own: "own_out (cu_user_id user) {} db (run_task env g lib cx i user task_id db)"
proof -
  have "own_out (cu_user_id user) {} db ((handler_raises db e)\<lparr>ho_sent := s\<rparr>)" for e s
    by (simp add: own_out_def)
  moreover have "isolated (cu_user_id user) {} db db'"
    if "apply_writes cx now [record_execution i now (cu_user_id user) tid src url b st m] db = Inr db'"
    for now tid src url b st m db'
    by (rule apply_writes_isolated [OF _ that]) simp
  ultimately show ?thesis
    unfolding run_task_def
    by (intro own_out_and_then)
      (auto simp: Let_def own_out_def split: prod.splits sum.splits)
qed

end
