(* ===== verification/Api_Routes.thy ===== *)
theory Api_Routes
  imports Task_Routes
begin

text \<open>
  The other routes, \<^verbatim>\<open>app/routes/history.py\<close>, \<^verbatim>\<open>app/routes/trigger_parse.py\<close>,
  \<^verbatim>\<open>app/routes/api.py\<close> and \<^verbatim>\<open>app/routes/health.py\<close>, and the life of a request: the dependencies
  of the protected router (\<^verbatim>\<open>app/routes/v1.py\<close>), the session that \<^verbatim>\<open>get_db\<close> opens, the checks of
  the parameters, the handler, the background tasks and the commit.
\<close>

section \<open>History\<close>

record history_list_response =
  hl_items :: "history_entry list"
  hl_total :: int
  hl_limit :: int
  hl_offset :: int

definition history_order_by :: "sort_order \<Rightarrow> task_history \<Rightarrow> sql_key" where
  "history_order_by order row = sql_key_of (order = ASC) (Some (instant (h_created_at row)))"

definition history_filters :: "history_list_query \<Rightarrow> uuid option \<Rightarrow> task_history \<Rightarrow> bool" where
  "history_filters query task_id row \<longleftrightarrow>
     (case (case task_id of None \<Rightarrow> hq_task_id query | Some i \<Rightarrow> Some i) of
        None \<Rightarrow> True
      | Some scoped_task_id \<Rightarrow> h_task_id row = scoped_task_id)
     \<and> (case hq_event_type query of
          None \<Rightarrow> True
        | Some e \<Rightarrow> h_event_type row = event_type_value e)
     \<and> (case hq_since query of None \<Rightarrow> True | Some d \<Rightarrow> instant d \<le> instant (h_created_at row))
     \<and> (case hq_until query of None \<Rightarrow> True | Some d \<Rightarrow> instant (h_created_at row) \<le> instant d)"

definition list_history_rows ::
  "rls_ctx \<Rightarrow> (task_history \<Rightarrow> nat) \<Rightarrow> history_list_query \<Rightarrow> uuid option \<Rightarrow> db
     \<Rightarrow> history_list_response handler_out" where
  "list_history_rows cx pos query task_id db =
     (let matching = select_history cx db (history_filters query task_id);
          rows = page (nat (hq_limit query)) (nat (hq_offset query))
                   (order_rows pos (history_order_by (hq_order query)) matching)
      in handler_reads db (rbind (collect entry_from_row rows) (\<lambda>items.
           Inr \<lparr>hl_items = items, hl_total = int (length matching), hl_limit = hq_limit query,
                hl_offset = hq_offset query\<rparr>)))"

definition list_history ::
  "rls_ctx \<Rightarrow> (task_history \<Rightarrow> nat) \<Rightarrow> history_list_query \<Rightarrow> db \<Rightarrow> history_list_response handler_out"
where
  "list_history cx pos query db = list_history_rows cx pos query None db"

definition list_task_history ::
  "rls_ctx \<Rightarrow> (task_history \<Rightarrow> nat) \<Rightarrow> uuid \<Rightarrow> history_list_query \<Rightarrow> db
     \<Rightarrow> history_list_response handler_out" where
  "list_task_history cx pos task_id query db = list_history_rows cx pos query (Some task_id) db"

section \<open>Trigger parsing, the user, health\<close>

definition parse_trigger ::
  "'t parse_env \<Rightarrow> llm_settings \<Rightarrow> string \<Rightarrow> string \<Rightarrow> trigger_parse_response result" where
  "parse_trigger env llm text tzname =
     reraise_as is_TriggerParseError (\<lambda>exc. HTTPException 422 (exn_str exc))
       (parse_trigger_text env llm text tzname)"

definition me :: "current_user \<Rightarrow> string" where
  "me user = cu_user_id user"

text \<open>\<open>ping\<close> is what \<^verbatim>\<open>SELECT 1\<close> does.\<close>

definition health :: "unit result \<Rightarrow> int \<times> health_status" where
  "health ping = (case ping of Inl e \<Rightarrow> (503, UNAVAILABLE) | Inr _ \<Rightarrow> (200, OK))"

section \<open>The life of a request\<close>

datatype api_request =
    MeRequest
  | CreateTaskRequest string "(string \<times> string) list" trigger_body
  | ListTasksRequest task_list_query
  | TaskScheduleRequest uuid int
  | RunTaskRequest uuid
  | DeactivateTaskRequest uuid
  | ActivateTaskRequest uuid
  | DeleteTaskRequest uuid
  | ListHistoryRequest history_list_query
  | TaskHistoryRequest uuid history_list_query
  | ParseTriggerRequest string "string option"

datatype api_body =
    MeBody string
  | TaskBody task_response
  | TaskListBody task_list_response
  | TaskScheduleBody task_schedule_response
  | TaskRunBody task_run_response
  | HistoryBody history_list_response
  | TriggerParseBody trigger_parse_response
  | EmptyBody

text \<open>An answer is a status with a body or with the detail of an error.\<close>

datatype answer = Answer int api_body | ErrorAnswer int string

definition map_out :: "('r \<Rightarrow> api_body) \<Rightarrow> 'r handler_out \<Rightarrow> api_body handler_out" where
  "map_out f out =
     \<lparr>ho_result = rbind (ho_result out) (\<lambda>r. Inr (f r)), ho_db = ho_db out,
      ho_pending = ho_pending out, ho_background = ho_background out, ho_sent = ho_sent out\<rparr>"

text \<open>
  What a request finds in place: how the database is deployed, whether the framework runs the
  background tasks of a response before the code of \<^verbatim>\<open>get_db\<close> after its \<^verbatim>\<open>yield\<close>, the settings,
  the outside world, the order in which the database reads rows, and two fresh identifiers.
\<close>

record 't app_env =
  ap_bypass :: bool
  ap_returning :: bool
  ap_background_first :: bool
  ap_parse :: "'t parse_env"
  ap_llm :: llm_settings
  ap_auth :: auth_env
  ap_executor :: executor_globals
  ap_task_pos :: "scheduled_task \<Rightarrow> nat"
  ap_history_pos :: "task_history \<Rightarrow> nat"
  ap_ids :: "uuid \<times> uuid"

text \<open>
  A parameter or a body that fails its checks is answered with 422; a \<open>ValidationError\<close> that a
  handler raises is not.
\<close>

definition request_check :: "'a result \<Rightarrow> 'a result" where
  "request_check r = reraise_as is_ValidationError (\<lambda>e. HTTPException 422 (exn_str e)) r"

definition check_params :: "bool \<Rightarrow> unit result" where
  "check_params ok =
     request_check (if ok then Inr () else Inl (ValidationError ''Input should be in range''))"

text \<open>The checks of the parameters, then the handler.\<close>

definition run_handler ::
  "'t app_env \<Rightarrow> rls_ctx \<Rightarrow> current_user \<Rightarrow> api_request \<Rightarrow> db \<Rightarrow> api_body handler_out option" where
  "run_handler env cx user request db =
     (case request of
        MeRequest \<Rightarrow> Some (handler_reads db (Inr (MeBody (me user))))
      | CreateTaskRequest url parameters body \<Rightarrow>
          Some (and_then db (request_check (validate_trigger (pe_runtime (ap_parse env)) body)) (\<lambda>trigger.
            map_out TaskBody (create_task (ap_parse env) (ap_llm env) cx (ap_ids env) user
              \<lparr>tc_webhook_url = url, tc_parameters = parameters, tc_trigger = trigger\<rparr> db)))
      | ListTasksRequest query \<Rightarrow>
          Some (and_then db (check_params (valid_task_list_query query)) (\<lambda>_.
            map_out TaskListBody (list_tasks (pe_runtime (ap_parse env)) cx (ap_task_pos env) query db)))
      | TaskScheduleRequest task_id n \<Rightarrow>
          (case check_params (valid_schedule_count n) of
             Inl e \<Rightarrow> Some (handler_raises db e)
           | Inr _ \<Rightarrow>
               map_option (map_out TaskScheduleBody) (get_task_schedule (ap_parse env) cx task_id n db))
      | RunTaskRequest task_id \<Rightarrow>
          Some (map_out TaskRunBody (run_task (ap_parse env) (ap_executor env) (ae_lib (ap_auth env)) cx
            (fst (ap_ids env)) user task_id db))
      | DeactivateTaskRequest task_id \<Rightarrow>
          Some (map_out TaskBody (deactivate_task (ap_parse env) cx (fst (ap_ids env)) user task_id db))
      | ActivateTaskRequest task_id \<Rightarrow>
          Some (map_out TaskBody (activate_task (ap_parse env) cx (fst (ap_ids env)) user task_id db))
      | DeleteTaskRequest task_id \<Rightarrow>
          Some (map_out (\<lambda>_. EmptyBody) (delete_task (ap_parse env) cx (fst (ap_ids env)) user task_id db))
      | ListHistoryRequest query \<Rightarrow>
          Some (and_then db (check_params (valid_history_list_query query)) (\<lambda>_.
            map_out HistoryBody (list_history cx (ap_history_pos env) query db)))
      | TaskHistoryRequest task_id query \<Rightarrow>
          Some (and_then db (check_params (valid_history_list_query query)) (\<lambda>_.
            map_out HistoryBody (list_task_history cx (ap_history_pos env) task_id query db)))
      | ParseTriggerRequest text tz \<Rightarrow>
          Some (handler_reads db
            (rbind (request_check (validate_parse_request (pe_runtime (ap_parse env)) text tz)) (\<lambda>(txt, z).
             rbind (parse_trigger (ap_parse env) (ap_llm env) txt z) (\<lambda>r. Inr (TriggerParseBody r))))))"

text \<open>The answer to an exception: its own status, and 500 for everything else.\<close>

fun error_answer :: "exn \<Rightarrow> answer" where
  "error_answer (HTTPException status detail) = ErrorAnswer status detail"
| "error_answer _ = ErrorAnswer 500 ''Internal Server Error''"

definition success_status :: "api_request \<Rightarrow> int" where
  "success_status request =
     (case request of CreateTaskRequest _ _ _ \<Rightarrow> 201 | DeleteTaskRequest _ \<Rightarrow> 204 | _ \<Rightarrow> 200)"

definition run_background ::
  "'t app_env \<Rightarrow> background \<Rightarrow> 't schedules \<Rightarrow> 't schedules result" where
  "run_background env b m =
     rbind (case b of
              RegisterSchedule task \<Rightarrow>
                register_schedule (pe_aps (ap_parse env)) (pe_runtime (ap_parse env))
                  (pe_clock (ap_parse env) 0) task
            | UnregisterSchedule i \<Rightarrow> unregister_schedule i)
       (\<lambda>call. Inr (apply_sched call m))"

text \<open>
  The background tasks in their order; the first that raises ends them, and what was done
  before stays done.
\<close>

fun run_backgrounds ::
  "'t app_env \<Rightarrow> background list \<Rightarrow> 't schedules \<Rightarrow> bool \<times> 't schedules" where
  "run_backgrounds env [] m = (True, m)"
| "run_backgrounds env (b # bs) m =
     (case run_background env b m of
        Inl e \<Rightarrow> (False, m)
      | Inr m' \<Rightarrow> run_backgrounds env bs m')"

record 't app_state =
  st_db :: db
  st_schedules :: "'t schedules"

text \<open>
  After the handler: an exception rolls back what the handler has not committed itself and adds no
  background task. Otherwise the framework answers, runs the background tasks and commits, in
  one of two orders. When the background tasks come first, the answer is out before the commit,
  and a failing task or a failing commit only rolls back.
\<close>

definition finish_request ::
  "'t app_env \<Rightarrow> rls_ctx \<Rightarrow> api_request \<Rightarrow> 't app_state \<Rightarrow> api_body handler_out
     \<Rightarrow> answer \<times> 't app_state" where
  "finish_request env cx request st out =
     (case ho_result out of
        Inl e \<Rightarrow> (error_answer e, st\<lparr>st_db := ho_db out\<rparr>)
      | Inr body \<Rightarrow>
          let commit = apply_writes cx (pe_clock (ap_parse env) 0) (ho_pending out) (ho_db out);
              (done_all, m) = run_backgrounds env (ho_background out) (st_schedules st);
              ok = Answer (success_status request) body
          in if ap_background_first env then
               (ok, st\<lparr>st_schedules := m,
                       st_db := (case commit of
                                   Inr db' \<Rightarrow> if done_all then db' else ho_db out
                                 | Inl e \<Rightarrow> ho_db out)\<rparr>)
             else
               (case commit of
                  Inl e \<Rightarrow> (error_answer e, st\<lparr>st_db := ho_db out\<rparr>)
                | Inr db' \<Rightarrow> (ok, st\<lparr>st_db := db', st_schedules := m\<rparr>)))"

definition request_session :: "'t app_env \<Rightarrow> current_user \<Rightarrow> rls_ctx" where
  "request_session env user =
     open_request_session (new_session (ap_bypass env) (ap_returning env)) (Some (cu_user_id user))"

definition handle_request ::
  "'t app_env \<Rightarrow> http_request \<Rightarrow> api_request \<Rightarrow> 't app_state
     \<Rightarrow> (answer \<times> 't app_state \<times> webhook_request list) option" where
  "handle_request env http request st =
     (case authenticate (ap_auth env) (pe_clock (ap_parse env) 0) http of
        Inl e \<Rightarrow> Some (error_answer e, st, [])
      | Inr user \<Rightarrow>
          map_option
            (\<lambda>out. let (a, st') = finish_request env (request_session env user) request st out
                   in (a, st', ho_sent out))
            (run_handler env (request_session env user) user request (st_db st)))"

end
