(* ===== verification/Task_Effects.thy ===== *)
theory Task_Effects
  imports Task_Routes
begin

text \<open>
  What the handlers on tasks do to the database once their writes are committed, on every branch:
  creation, manual run, deactivation, activation, deletion, and the ids that are not there or
  belong to somebody else.
\<close>

section \<open>Facts\<close>

lemma new_task_simps [simp]:
  "t_id (new_task i u now body s n) = i" "t_user_id (new_task i u now body s n) = u"
  "t_is_active (new_task i u now body s n) = True" "t_next_run_at (new_task i u now body s n) = n"
  "t_trigger_type (new_task i u now body s n) = trigger_type_value (spec_type s)"
  "t_trigger_config (new_task i u now body s n) = config_dump (trigger_config_from_spec s)"
  "t_webhook_url (new_task i u now body s n) = tc_webhook_url body"
  "t_parameters (new_task i u now body s n) = tc_parameters body"
  by (simp_all add: new_task_def)

lemma stores_new_task: "stores_spec (stored_task t (new_task i u now body s n)) s"
  by (simp add: stores_spec_def)

lemma pydantic_member_trigger_type [simp]:
  "pydantic_member trigger_type_member (Some (trigger_type_value ty)) = Inr ty"
  by (simp add: pydantic_member_def)

lemma to_response_stores:
  assumes "stores_spec task s"
  shows "to_response rt task = Inr
    \<lparr>tr_id = uuid_str (t_id task), tr_user_id = t_user_id task,
     tr_webhook_url = t_webhook_url task, tr_parameters = t_parameters task,
     tr_trigger_type = spec_type s, tr_trigger_config = trigger_config_from_spec s,
     tr_next_run_at = t_next_run_at task, tr_is_active = t_is_active task,
     tr_created_at = t_created_at task, tr_updated_at = t_updated_at task\<rparr>"
  using assms by (simp add: to_response_def stores_spec_def)

lemma flush_and_refresh_fresh:
  assumes "user_session cx (t_user_id new)" "t_id new \<notin> t_id ` set (db_tasks db)"
  shows "flush_and_refresh cx now db new = Inr (stored_task now new)"
proof -
  have "filter (\<lambda>t. t_user_id t = t_user_id new \<and> t_id t = t_id new) (db_tasks db) = []"
    using assms(2) by (auto simp: filter_empty_conv image_iff)
  then show ?thesis
    using assms task_allowed_user [OF assms(1)]
    by (simp add: flush_and_refresh_def apply_writes_def select_tasks_user scalar_one_or_none_def)
qed

lemma create_task_run:
  assumes "user_session cx (cu_user_id user)" "fst ids \<notin> t_id ` set (db_tasks db)"
    and "resolve_or_422 env llm (tc_trigger body) = Inr (s, k)" "schedulable (pe_runtime env) s"
    and "compute_next_run_at (pe_aps env) (pe_runtime env) (pe_clock env k) s = Inr next_run_at"
    and "now = pe_clock env 0" "new = new_task (fst ids) (cu_user_id user) now body s next_run_at"
    and "task = stored_task now new"
  shows "\<exists>response. to_response (pe_runtime env) task = Inr response
    \<and> create_task env llm cx ids user body db =
       \<lparr>ho_result = Inr response, ho_db = db,
        ho_pending = [InsertTask new,
          InsertHistory (spec_row task s (history_row (snd ids) (cu_user_id user) (fst ids) TASK_CREATED now))],
        ho_background = [RegisterSchedule task], ho_sent = []\<rparr>"
proof -
  have st: "stores_spec task s" using assms(7,8) stores_new_task by simp
  have "flush_and_refresh cx now db new = Inr task"
    using flush_and_refresh_fresh [of cx new db now] assms by simp
  then show ?thesis
    using assms(3,5-8) snapshot_from_task_spec [OF assms(4) st] to_response_stores [OF st]
    by (simp add: create_task_def Let_def record_task_created_def)
qed

text \<open>A schedule whose number of seconds fits the column of the history.\<close>

definition fits_history :: "structured_trigger \<Rightarrow> bool" where
  "fits_history s \<longleftrightarrow> int4_ok (tcol_interval_seconds (spec_columns s))"

lemma history_row_event: "h_event_type (history_row i u tid ev now) = event_type_value ev"
  by (simp add: history_row_def)

lemma spec_row_inserted:
  assumes "user_session cx u" "i \<notin> h_id ` set (db_history db)" "fits_history s"
    and "ev = TASK_CREATED \<or> ev = TASK_DELETED"
  shows "apply_write cx now (InsertHistory (spec_row task s (history_row i u tid ev t))) db
    = Inr (db\<lparr>db_history := db_history db
        @ [stored_history now (spec_row task s (history_row i u tid ev t))]\<rparr>)"
  using assms spec_row_shape [OF assms(4)] history_insertable_user [OF assms(1)]
  by (simp add: fits_history_def spec_row_seconds)
    (simp add: spec_row_def history_row_def int4_ok_def)

lemma lifecycle_inserted:
  assumes "user_session cx u" "i \<notin> h_id ` set (db_history db)"
    and "ev = TASK_ACTIVATED \<or> ev = TASK_DEACTIVATED"
  shows "apply_write cx now (record_task_lifecycle i t u tid ev) db
    = Inr (db\<lparr>db_history := db_history db @ [stored_history now (history_row i u tid ev t)]\<rparr>)"
  using assms lifecycle_row_shape [OF assms(3)] history_insertable_user [OF assms(1)]
  by (simp add: record_task_lifecycle_def) (simp add: history_row_def int4_ok_def)

text \<open>A row with an id that is not in use goes in, whatever the row security of the user's session.\<close>

lemma task_inserted:
  assumes "user_session cx (t_user_id t)" "t_id t \<notin> t_id ` set (db_tasks db)"
  shows "apply_write cx now (InsertTask t) db
    = Inr (db\<lparr>db_tasks := db_tasks db @ [stored_task now t]\<rparr>)"
  using assms task_allowed_user [OF assms(1)] by simp

text \<open>An update or a deletion of an own row changes that row alone.\<close>

definition set_task :: "uuid \<Rightarrow> (scheduled_task \<Rightarrow> scheduled_task) \<Rightarrow> db \<Rightarrow> db" where
  "set_task i f db = db\<lparr>db_tasks := map (\<lambda>t. if t_id t = i then f t else t) (db_tasks db)\<rparr>"

definition drop_task :: "uuid \<Rightarrow> db \<Rightarrow> db" where
  "drop_task i db = db\<lparr>db_tasks := filter (\<lambda>t. t_id t \<noteq> i) (db_tasks db)\<rparr>"

lemma same_id: "db_ok db \<Longrightarrow> t \<in> set (db_tasks db) \<Longrightarrow> x \<in> set (db_tasks db) \<Longrightarrow> t_id x = t_id t \<Longrightarrow> x = t"
  by (auto simp: db_ok_def distinct_map inj_on_def)

lemma own_task_updated:
  assumes "task_allowed cx (t_user_id t)" "db_ok db" "t \<in> set (db_tasks db)"
  shows "apply_write cx now (UpdateTask (t_id t) a n) db
    = Inr (set_task (t_id t) (updated_task now a n) db)"
proof -
  have "t_id x = t_id t \<and> task_allowed cx (t_user_id x) \<longleftrightarrow> t_id x = t_id t" if "x \<in> set (db_tasks db)" for x
    using that assms same_id [OF assms(2,3)] by auto
  then show ?thesis using assms by (auto simp: set_task_def intro!: map_cong)
qed

lemma own_task_dropped:
  assumes "task_allowed cx (t_user_id t)" "db_ok db" "t \<in> set (db_tasks db)"
  shows "apply_write cx now (DeleteTask (t_id t)) db = Inr (drop_task (t_id t) db)"
proof -
  have "t_id x = t_id t \<and> task_allowed cx (t_user_id x) \<longleftrightarrow> t_id x = t_id t" if "x \<in> set (db_tasks db)" for x
    using that assms same_id [OF assms(2,3)] by auto
  then have "filter (\<lambda>x. \<not> (t_id x = t_id t \<and> task_allowed cx (t_user_id x))) (db_tasks db)
      = filter (\<lambda>x. t_id x \<noteq> t_id t) (db_tasks db)"
    by (intro filter_cong) auto
  then show ?thesis by (simp only: apply_write.simps drop_task_def)
qed

lemma set_task_simps [simp]:
  "db_history (set_task i f db) = db_history db" "db_history (drop_task i db) = db_history db"
  "db_tasks (drop_task i db) = filter (\<lambda>t. t_id t \<noteq> i) (db_tasks db)"
  by (simp_all add: set_task_def drop_task_def)

lemma apply_writes_simps:
  "apply_writes cx now [] db = Inr db"
  "apply_writes cx now (w # ws) db = rbind (apply_write cx now w db) (apply_writes cx now ws)"
  by (simp_all add: apply_writes_def [abs_def])

text \<open>What a successful activation and a deletion leave to do.\<close>

lemma activate_task_run:
  assumes "user_session cx (cu_user_id user)" "db_ok db" "t \<in> set (db_tasks db)"
    and "t_user_id t = cu_user_id user" "\<not> t_is_active t" "stores_spec t s"
    and "compute_next_run_at_for_task (pe_aps env) (pe_runtime env) (pe_clock env 0) t = Inr (Some d)"
    and "\<not> (spec_type s = ONCE \<and> instant d \<le> instant (pe_clock env 0))"
  shows "\<exists>response. tr_is_active response \<and> tr_next_run_at response = Some d
    \<and> activate_task env cx i user (t_id t) db =
       \<lparr>ho_result = Inr response, ho_db = db,
        ho_pending = [UpdateTask (t_id t) True (Some d),
          record_task_lifecycle i (pe_clock env 0) (cu_user_id user) (t_id t) TASK_ACTIVATED],
        ho_background = [RegisterSchedule (t\<lparr>t_is_active := True, t_next_run_at := Some d\<rparr>)], ho_sent = []\<rparr>"
proof -
  let ?t = "t\<lparr>t_is_active := True, t_next_run_at := Some d\<rparr>"
  have found: "get_task_or_404 cx db (t_id t) = Inr t"
    using assms(1-4) get_task_found [of cx t db] by simp
  have once: "t_trigger_type t = trigger_type_value ONCE \<longleftrightarrow> spec_type s = ONCE"
    using assms(6) by (simp only: stores_spec_def trigger_type_value_inject)
  have "stores_spec ?t s" using assms(6) by (simp add: stores_spec_def)
  from to_response_stores [OF this, of "pe_runtime env"]
  obtain response where r: "to_response (pe_runtime env) ?t = Inr response"
    "tr_is_active response" "tr_next_run_at response = Some d" by simp
  then show ?thesis
    using found once assms(5,7,8) by (intro exI [of _ response]) (simp add: activate_task_def Let_def)
qed

lemma delete_task_run:
  assumes "user_session cx (cu_user_id user)" "db_ok db" "t \<in> set (db_tasks db)"
    and "t_user_id t = cu_user_id user" "stores_spec t s" "schedulable (pe_runtime env) s"
  shows "delete_task env cx i user (t_id t) db =
    \<lparr>ho_result = Inr (), ho_db = db,
     ho_pending = [InsertHistory (spec_row t s
         (history_row i (cu_user_id user) (t_id t) TASK_DELETED (pe_clock env 0))), DeleteTask (t_id t)],
     ho_background = (if t_is_active t then [UnregisterSchedule (t_id t)] else []), ho_sent = []\<rparr>"
proof -
  have "get_task_or_404 cx db (t_id t) = Inr t"
    using assms(1-4) get_task_found [of cx t db] by simp
  then show ?thesis
    by (simp add: delete_task_def record_task_deleted_def snapshot_from_task_spec [OF assms(6,5)])
qed

section \<open>Properties\<close>

text \<open>
  (C15) Creating a task, for a schedule that the history can hold: the commit succeeds and adds one
  row to the tasks, active, of the user of the request, with the address, the parameters and the
  schedule of the request (a text resolved) and its first fire time; one row to the history that
  is shown as a creation with that schedule; nothing else. The task that is registered with the
  scheduler is that row, and the response shows it.
\<close>

theorem create_task_effect:
  assumes "user_session cx (cu_user_id user)" "fst ids \<notin> t_id ` set (db_tasks db)"
    and "snd ids \<notin> h_id ` set (db_history db)"
    and "resolve_or_422 env llm (tc_trigger body) = Inr (s, k)" "schedulable (pe_runtime env) s"
    and "compute_next_run_at (pe_aps env) (pe_runtime env) (pe_clock env k) s = Inr next_run_at"
    and "fits_history s"
  shows "\<exists>response task row base db'.
       ho_result (create_task env llm cx ids user body db) = Inr response
     \<and> ho_background (create_task env llm cx ids user body db) = [RegisterSchedule task]
     \<and> apply_writes cx (pe_clock env 0) (ho_pending (create_task env llm cx ids user body db)) db = Inr db'
     \<and> db_tasks db' = db_tasks db @ [task] \<and> db_history db' = db_history db @ [row]
     \<and> t_id task = fst ids \<and> t_user_id task = cu_user_id user \<and> t_is_active task
     \<and> t_webhook_url task = tc_webhook_url body \<and> t_parameters task = tc_parameters body
     \<and> stores_spec task s \<and> t_next_run_at task = map_option stored_time next_run_at
     \<and> h_user_id row = cu_user_id user \<and> h_task_id row = fst ids
     \<and> entry_from_row row = Inr (TaskCreatedEntry base (tc_webhook_url body) (spec_type s) (shown_config s))
     \<and> to_response (pe_runtime env) task = Inr response"
proof -
  let ?now = "pe_clock env 0"
  let ?new = "new_task (fst ids) (cu_user_id user) ?now body s next_run_at"
  let ?task = "stored_task ?now ?new"
  let ?row = "spec_row ?task s (history_row (snd ids) (cu_user_id user) (fst ids) TASK_CREATED ?now)"
  let ?out = "create_task env llm cx ids user body db"
  obtain response where r: "to_response (pe_runtime env) ?task = Inr response"
    "?out = \<lparr>ho_result = Inr response, ho_db = db, ho_pending = [InsertTask ?new, InsertHistory ?row],
        ho_background = [RegisterSchedule ?task], ho_sent = []\<rparr>"
    using create_task_run [OF assms(1,2,4-6) refl refl refl] by blast
  let ?db1 = "db\<lparr>db_tasks := db_tasks db @ [?task]\<rparr>"
  have "apply_write cx ?now (InsertTask ?new) db = Inr ?db1"
    using assms(1,2) by (intro task_inserted) simp_all
  moreover have "apply_write cx ?now (InsertHistory ?row) ?db1
      = Inr (?db1\<lparr>db_history := db_history ?db1 @ [stored_history ?now ?row]\<rparr>)"
    using assms by (intro spec_row_inserted) simp_all
  ultimately have w: "apply_writes cx ?now (ho_pending ?out) db
      = Inr (?db1\<lparr>db_history := db_history db @ [stored_history ?now ?row]\<rparr>)"
    by (simp only: r apply_writes_simps rbind_Inr handler_out.select_convs) simp
  obtain base where "entry_from_row (stored_history ?now ?row)
      = Inr (TaskCreatedEntry base (t_webhook_url ?task) (spec_type s) (shown_config s))"
    using entry_from_spec_row(1) [OF history_row_event] by blast
  moreover have "h_task_id (stored_history ?now ?row) = fst ids" "h_user_id ?row = cu_user_id user"
    by (simp_all add: stored_history_def spec_row_def history_row_def)
  ultimately show ?thesis
    using r w stores_new_task
    by (intro exI [of _ response] exI [of _ ?task] exI [of _ "stored_history ?now ?row"] exI [of _ base]
        exI [of _ "?db1\<lparr>db_history := db_history db @ [stored_history ?now ?row]\<rparr>"]) simp
qed

text \<open>
  (C18) Activating an own inactive task recomputes its next fire time from the stored schedule. When
  there is none, or the task is a one-time task whose time is not in the future, the answer is 422
  and nothing is written or registered. Otherwise the commit sets the task active with that fire
  time, leaves every other task as it is and appends one activation row; the task is registered.
\<close>

theorem activate_task_effect:
  assumes "user_session cx (cu_user_id user)" "db_ok db" "t \<in> set (db_tasks db)"
    and "t_user_id t = cu_user_id user" "\<not> t_is_active t" "stores_spec t s"
    and "i \<notin> h_id ` set (db_history db)"
    and "compute_next_run_at_for_task (pe_aps env) (pe_runtime env) (pe_clock env 0) t = Inr n"
  shows "if n = None \<or> spec_type s = ONCE \<and> instant (the n) \<le> instant (pe_clock env 0)
    then activate_task env cx i user (t_id t) db
           = handler_raises db (HTTPException 422 ''Task cannot be activated'')
    else \<exists>response db' row. ho_result (activate_task env cx i user (t_id t) db) = Inr response
      \<and> tr_is_active response \<and> tr_next_run_at response = n
      \<and> ho_background (activate_task env cx i user (t_id t) db)
          = [RegisterSchedule (t\<lparr>t_is_active := True, t_next_run_at := n\<rparr>)]
      \<and> apply_writes cx (pe_clock env 0) (ho_pending (activate_task env cx i user (t_id t) db)) db = Inr db'
      \<and> db_tasks db' = db_tasks (set_task (t_id t) (updated_task (pe_clock env 0) True n) db)
      \<and> db_history db' = db_history db @ [row]
      \<and> h_event_type row = ''task_activated'' \<and> h_task_id row = t_id t \<and> h_user_id row = cu_user_id user"
proof -
  let ?now = "pe_clock env 0"
  let ?t = "t\<lparr>t_is_active := True, t_next_run_at := n\<rparr>"
  let ?out = "activate_task env cx i user (t_id t) db"
  let ?row = "stored_history ?now (history_row i (cu_user_id user) (t_id t) TASK_ACTIVATED ?now)"
  have found: "get_task_or_404 cx db (t_id t) = Inr t"
    using assms(1-4) get_task_found [of cx t db] by simp
  have once: "t_trigger_type t = trigger_type_value ONCE \<longleftrightarrow> spec_type s = ONCE"
    using assms(6) by (simp only: stores_spec_def trigger_type_value_inject)
  show ?thesis
  proof (cases "n = None \<or> spec_type s = ONCE \<and> instant (the n) \<le> instant ?now")
    case True
    then show ?thesis
      using found once assms(5,8) by (cases n) (simp_all add: activate_task_def Let_def)
  next
    case False
    then obtain d where d: "n = Some d" "\<not> (spec_type s = ONCE \<and> instant d \<le> instant ?now)" by auto
    obtain response where r: "tr_is_active response" "tr_next_run_at response = n"
      and out: "?out = \<lparr>ho_result = Inr response, ho_db = db,
        ho_pending = [UpdateTask (t_id t) True n,
          record_task_lifecycle i ?now (cu_user_id user) (t_id t) TASK_ACTIVATED],
        ho_background = [RegisterSchedule ?t], ho_sent = []\<rparr>"
      using activate_task_run [OF assms(1-6) assms(8) [unfolded d(1)] d(2)] d(1) by blast
    have allowed: "task_allowed cx (t_user_id t)" using assms(1,4) by (simp add: task_allowed_user)
    have "apply_writes cx ?now (ho_pending ?out) db
        = Inr ((set_task (t_id t) (updated_task ?now True n) db)\<lparr>db_history := db_history db @ [?row]\<rparr>)"
      unfolding out handler_out.select_convs apply_writes_simps
        own_task_updated [OF allowed assms(2,3)] rbind_Inr
      using assms(1,7) by (subst lifecycle_inserted) simp_all
    moreover have "h_event_type ?row = ''task_activated''" "h_task_id ?row = t_id t"
      "h_user_id ?row = cu_user_id user"
      by (simp_all add: stored_history_def history_row_def)
    moreover have "db_tasks ((set_task j f db)\<lparr>db_history := x\<rparr>) = db_tasks (set_task j f db)" for j f x
      by simp
    ultimately show ?thesis using False out r by auto
  qed
qed

text \<open>
  (C17) Deactivating an own task: an active one becomes inactive without a next fire time when the
  writes are committed, every other task stays as it is, one deactivation row is appended, and
  its schedule is taken from the scheduler; for an inactive one nothing is written and the
  scheduler is not called. Both times the response shows an inactive task.
\<close>

theorem deactivate_task_effect:
  assumes "user_session cx (cu_user_id user)" "db_ok db" "t \<in> set (db_tasks db)"
    and "t_user_id t = cu_user_id user" "stores_spec t s" "i \<notin> h_id ` set (db_history db)"
  shows "\<exists>response. ho_result (deactivate_task env cx i user (t_id t) db) = Inr response
    \<and> \<not> tr_is_active response \<and> tr_id response = uuid_str (t_id t)
    \<and> (if t_is_active t
       then \<exists>db' row.
           ho_background (deactivate_task env cx i user (t_id t) db) = [UnregisterSchedule (t_id t)]
         \<and> apply_writes cx (pe_clock env 0) (ho_pending (deactivate_task env cx i user (t_id t) db)) db = Inr db'
         \<and> db_tasks db' = db_tasks (set_task (t_id t) (updated_task (pe_clock env 0) False None) db)
         \<and> db_history db' = db_history db @ [row]
         \<and> h_event_type row = ''task_deactivated'' \<and> h_task_id row = t_id t \<and> h_user_id row = cu_user_id user
       else deactivate_task env cx i user (t_id t) db = handler_reads db (Inr response))"
proof -
  let ?now = "pe_clock env 0"
  let ?t = "t\<lparr>t_is_active := False, t_next_run_at := None\<rparr>"
  let ?out = "deactivate_task env cx i user (t_id t) db"
  let ?row = "stored_history ?now (history_row i (cu_user_id user) (t_id t) TASK_DEACTIVATED ?now)"
  have found: "get_task_or_404 cx db (t_id t) = Inr t"
    using assms(1-4) get_task_found [of cx t db] by simp
  show ?thesis
  proof (cases "t_is_active t")
    case False
    then show ?thesis
      using found to_response_stores [OF assms(5)] by (simp add: deactivate_task_def)
  next
    case True
    have "stores_spec ?t s" using assms(5) by (simp add: stores_spec_def)
    from to_response_stores [OF this, of "pe_runtime env"]
    obtain response where r: "to_response (pe_runtime env) ?t = Inr response"
      "\<not> tr_is_active response" "tr_id response = uuid_str (t_id t)" by simp
    have out: "?out = \<lparr>ho_result = Inr response, ho_db = db,
        ho_pending = [UpdateTask (t_id t) False None,
          record_task_lifecycle i ?now (cu_user_id user) (t_id t) TASK_DEACTIVATED],
        ho_background = [UnregisterSchedule (t_id t)], ho_sent = []\<rparr>"
      using found True r(1) by (simp add: deactivate_task_def Let_def)
    have allowed: "task_allowed cx (t_user_id t)" using assms(1,4) by (simp add: task_allowed_user)
    have "apply_writes cx ?now (ho_pending ?out) db
        = Inr ((set_task (t_id t) (updated_task ?now False None) db)\<lparr>db_history := db_history db @ [?row]\<rparr>)"
      unfolding out handler_out.select_convs apply_writes_simps
        own_task_updated [OF allowed assms(2,3)] rbind_Inr
      using assms(1,6) by (subst lifecycle_inserted) simp_all
    moreover have "h_event_type ?row = ''task_deactivated''" "h_task_id ?row = t_id t"
      "h_user_id ?row = cu_user_id user"
      by (simp_all add: stored_history_def history_row_def)
    moreover have "db_tasks ((set_task j f db)\<lparr>db_history := x\<rparr>) = db_tasks (set_task j f db)" for j f x
      by simp
    ultimately show ?thesis using True out r by auto
  qed
qed

text \<open>
  (C16) Deleting an own task: when the writes are committed its row is gone and every other task is
  as before; no history row is lost, and one row is appended that is shown as a deletion with
  the schedule of the task; the schedule is taken from the scheduler if the task was active.
\<close>

theorem delete_task_effect:
  assumes "user_session cx (cu_user_id user)" "db_ok db" "t \<in> set (db_tasks db)"
    and "t_user_id t = cu_user_id user" "stores_spec t s" "schedulable (pe_runtime env) s"
    and "i \<notin> h_id ` set (db_history db)" "fits_history s"
  shows "\<exists>db' row base. ho_result (delete_task env cx i user (t_id t) db) = Inr ()
    \<and> ho_background (delete_task env cx i user (t_id t) db)
        = (if t_is_active t then [UnregisterSchedule (t_id t)] else [])
    \<and> apply_writes cx (pe_clock env 0) (ho_pending (delete_task env cx i user (t_id t) db)) db = Inr db'
    \<and> db_tasks db' = filter (\<lambda>x. t_id x \<noteq> t_id t) (db_tasks db)
    \<and> db_history db' = db_history db @ [row] \<and> h_task_id row = t_id t \<and> h_user_id row = cu_user_id user
    \<and> entry_from_row row = Inr (TaskDeletedEntry base (t_webhook_url t) (spec_type s) (shown_config s))"
proof -
  let ?now = "pe_clock env 0"
  let ?out = "delete_task env cx i user (t_id t) db"
  let ?row = "spec_row t s (history_row i (cu_user_id user) (t_id t) TASK_DELETED ?now)"
  let ?db1 = "db\<lparr>db_history := db_history db @ [stored_history ?now ?row]\<rparr>"
  note out = delete_task_run [OF assms(1-6), of i]
  have w1: "apply_write cx ?now (InsertHistory ?row) db = Inr ?db1"
    using assms by (intro spec_row_inserted) simp_all
  then have "db_ok ?db1" using assms(2) by (rule apply_write_db_ok)
  then have w2: "apply_write cx ?now (DeleteTask (t_id t)) ?db1 = Inr (drop_task (t_id t) ?db1)"
    using assms(1,3,4) by (intro own_task_dropped) (simp_all add: task_allowed_user)
  have "apply_writes cx ?now (ho_pending ?out) db = Inr (drop_task (t_id t) ?db1)"
    by (simp only: out handler_out.select_convs apply_writes_simps w1 w2 rbind_Inr)
  moreover obtain base where "entry_from_row (stored_history ?now ?row)
      = Inr (TaskDeletedEntry base (t_webhook_url t) (spec_type s) (shown_config s))"
    using entry_from_spec_row(2) [OF history_row_event] by blast
  moreover have "h_task_id (stored_history ?now ?row) = t_id t"
    "h_user_id (stored_history ?now ?row) = cu_user_id user"
    by (simp_all add: stored_history_def spec_row_def history_row_def)
  ultimately show ?thesis using out by auto
qed

text \<open>
  (C19) A manual run of an own task, active or not: the webhook gets one request; one execution row
  with source manual, the status and the success is committed at once, also when the webhook
  failed and the answer is 502; no task changes, nothing is registered.
\<close>

theorem run_task_effect:
  assumes "user_session cx (cu_user_id user)" "db_ok db" "t \<in> set (db_tasks db)"
    and "t_user_id t = cu_user_id user" "i \<notin> h_id ` set (db_history db)"
    and "g_session_factory g = Some (new_session bypass returning)"
    and "fire_task_webhook g lib (pe_clock env 0) t = (Inr x, sent)" "int4_ok (wo_http_status x)"
  shows "\<exists>row. length sent = 1 \<and> ho_sent (run_task env g lib cx i user (t_id t) db) = sent
    \<and> ho_db (run_task env g lib cx i user (t_id t) db) = db\<lparr>db_history := db_history db @ [row]\<rparr>
    \<and> h_event_type row = ''execution'' \<and> h_execution_source row = Some ''manual''
    \<and> h_task_id row = t_id t \<and> h_user_id row = cu_user_id user
    \<and> h_success row = Some (wo_success x) \<and> h_http_status row = wo_http_status x
    \<and> ho_pending (run_task env g lib cx i user (t_id t) db) = []
    \<and> ho_background (run_task env g lib cx i user (t_id t) db) = []
    \<and> (if wo_success x
       then \<exists>r. ho_result (run_task env g lib cx i user (t_id t) db) = Inr r \<and> trr_success r
       else \<exists>m. ho_result (run_task env g lib cx i user (t_id t) db) = Inl (HTTPException 502 m))"
proof -
  let ?now = "pe_clock env 0"
  let ?out = "run_task env g lib cx i user (t_id t) db"
  let ?row = "(history_row i (cu_user_id user) (t_id t) EXECUTION ?now)
       \<lparr>h_webhook_url := Some (t_webhook_url t), h_execution_source := Some ''manual'',
        h_http_status := wo_http_status x, h_error_message := wo_error_message x,
        h_success := Some (wo_success x)\<rparr>"
  let ?db1 = "db\<lparr>db_history := db_history db @ [stored_history ?now ?row]\<rparr>"
  have found: "get_task_or_404 cx db (t_id t) = Inr t"
    using assms(1-4) get_task_found [of cx t db] by simp
  have fired: "run_task_manually g lib ?now db (uuid_str (t_id t)) = (Inr x, sent)"
    using assms(6,7) load_task_found [OF assms(2,3)] by (simp add: run_task_manually_def)
  have rec: "record_execution i ?now (cu_user_id user) (t_id t) MANUAL (t_webhook_url t) (wo_success x)
      (wo_http_status x) (wo_error_message x) = InsertHistory ?row"
    by (simp add: record_execution_def)
  have "task_history_event_shape ?row"
    using execution_row_shape [OF rec] fire_task_webhook_status [OF assms(7)] by auto
  then have "apply_write cx ?now (InsertHistory ?row) db = Inr ?db1"
    using assms(5,8) history_insertable_user [OF assms(1)] by (simp add: history_row_def int4_ok_def)
  then have w: "apply_writes cx ?now [InsertHistory ?row] db = Inr ?db1"
    by (simp only: apply_writes_simps rbind_Inr)
  have out: "ho_db ?out = ?db1 \<and> ho_sent ?out = sent \<and> ho_pending ?out = [] \<and> ho_background ?out = []
      \<and> (if wo_success x then \<exists>r. ho_result ?out = Inr r \<and> trr_success r
         else \<exists>m. ho_result ?out = Inl (HTTPException 502 m))"
    using found fired w rec
    by (cases "wo_success x"; cases "wo_http_status x")
      (simp_all add: run_task_def Let_def webhook_fire_result_def)
  have "length sent = 1" using fire_task_webhook_Inr [OF assms(7)] by auto
  moreover have "h_event_type (stored_history ?now ?row) = ''execution''"
    "h_execution_source (stored_history ?now ?row) = Some ''manual''"
    "h_task_id (stored_history ?now ?row) = t_id t" "h_user_id (stored_history ?now ?row) = cu_user_id user"
    "h_success (stored_history ?now ?row) = Some (wo_success x)"
    "h_http_status (stored_history ?now ?row) = wo_http_status x"
    by (simp_all add: stored_history_def history_row_def)
  ultimately show ?thesis using out by blast
qed

section \<open>Witnesses\<close>

definition demo_user :: current_user where
  "demo_user = \<lparr>cu_user_id = ''user-1''\<rparr>"

definition demo_session :: rls_ctx where
  "demo_session = open_request_session (new_session True True) (Some ''user-1'')"

definition no_llm :: "demo_trigger parse_env" where
  "no_llm = demo_env (\<lambda>_. Inr [])"

definition demo_paused :: scheduled_task where
  "demo_paused = demo_task\<lparr>t_is_active := False, t_next_run_at := None\<rparr>"

lemma demo_session_user: "user_session demo_session (cu_user_id demo_user)"
  by (simp add: demo_session_def demo_user_def user_session_open)

lemma no_llm_simps [simp]:
  "pe_runtime no_llm = demo_runtime" "pe_clock no_llm n = frozen_time" "pe_aps no_llm = demo_aps"
  by (simp_all add: no_llm_def demo_env_def)

lemma demo_task_simps [simp]:
  "t_id demo_task = 1" "t_user_id demo_task = ''user-1''" "t_is_active demo_task"
  "t_id demo_paused = 1" "t_user_id demo_paused = ''user-1''" "\<not> t_is_active demo_paused"
  by (simp_all add: demo_task_def demo_paused_def)

lemma demo_db_simps [simp]: "db_tasks (demo_db t) = [t]" "db_history (demo_db t) = []"
  by (simp_all add: demo_db_def)

lemma demo_interval [simp]:
  "schedulable demo_runtime (IntervalTriggerSpec 3600)" "fits_history (IntervalTriggerSpec 3600)"
  by (simp_all add: schedulable_def fits_history_def int4_ok_def)

lemma demo_paused_stores: "stores_spec demo_paused (IntervalTriggerSpec 3600)"
  using demo_stores by (simp add: demo_paused_def stores_spec_def)

lemma demo_next_run:
  "compute_next_run_at demo_aps demo_runtime frozen_time (IntervalTriggerSpec 3600) = Inr (Some frozen_time)"
  by (simp add: compute_next_run_at_def demo_aps_def time_units frozen_time_def wall_ok_def max_wall_def
      utc_datetime_def instant_def utcoffset_def)

lemma demo_next_run_for_task:
  "compute_next_run_at_for_task demo_aps demo_runtime frozen_time demo_paused = Inr (Some frozen_time)"
proof -
  have "with_spec demo_paused (IntervalTriggerSpec 3600) = demo_paused"
    using demo_paused_stores by (simp add: with_spec_def stores_spec_def)
  then have "task_to_trigger_spec demo_runtime demo_paused = Inr (IntervalTriggerSpec 3600)"
    using stored_spec.dec_enc [of demo_runtime "IntervalTriggerSpec 3600" demo_paused] by simp
  then show ?thesis using demo_next_run by (simp add: compute_next_run_at_for_task_def)
qed

definition demo_body :: task_create where
  "demo_body = \<lparr>tc_webhook_url = ''https://example.com/hook'', tc_parameters = [],
     tc_trigger = Structured (IntervalTriggerSpec 3600)\<rparr>"

definition empty_db :: db where
  "empty_db = \<lparr>db_tasks = [], db_history = []\<rparr>"

lemma create_task_effect_witness:
  "\<exists>task row db'. ho_background (create_task no_llm demo_settings demo_session (1, 2) demo_user demo_body empty_db)
       = [RegisterSchedule task]
     \<and> apply_writes demo_session (pe_clock no_llm 0)
         (ho_pending (create_task no_llm demo_settings demo_session (1, 2) demo_user demo_body empty_db)) empty_db = Inr db'
     \<and> db_tasks db' = db_tasks empty_db @ [task] \<and> db_history db' = db_history empty_db @ [row]
     \<and> stores_spec task (IntervalTriggerSpec 3600)"
proof -
  have ids: "fst (1, 2) \<notin> t_id ` set (db_tasks empty_db)" "snd (1, 2) \<notin> h_id ` set (db_history empty_db)"
    by (simp_all add: empty_db_def)
  have r: "resolve_or_422 no_llm demo_settings (tc_trigger demo_body) = Inr (IntervalTriggerSpec 3600, 0)"
    by (simp add: demo_body_def resolve_or_422_def resolve_trigger_spec_def)
  have n: "compute_next_run_at (pe_aps no_llm) (pe_runtime no_llm) (pe_clock no_llm 0) (IntervalTriggerSpec 3600)
      = Inr (Some frozen_time)"
    using demo_next_run by simp
  have s: "schedulable (pe_runtime no_llm) (IntervalTriggerSpec 3600)" by simp
  show ?thesis
    using create_task_effect [OF demo_session_user ids r s n demo_interval(2)] by blast
qed

lemma activate_task_effect_witness:
  "\<exists>response. ho_result (activate_task no_llm demo_session 5 demo_user 1 (demo_db demo_paused)) = Inr response
     \<and> tr_is_active response \<and> tr_next_run_at response = Some frozen_time"
  using activate_task_effect [OF demo_session_user demo_db_ok, of demo_paused demo_paused
      "IntervalTriggerSpec 3600" 5 no_llm "Some frozen_time"]
    demo_paused_stores demo_next_run_for_task
  by (auto simp: demo_user_def)

lemma deactivate_task_effect_witness:
  "\<exists>response. ho_result (deactivate_task no_llm demo_session 5 demo_user 1 (demo_db demo_task)) = Inr response
     \<and> ho_background (deactivate_task no_llm demo_session 5 demo_user 1 (demo_db demo_task))
         = [UnregisterSchedule 1]"
  using deactivate_task_effect [OF demo_session_user demo_db_ok, of demo_task demo_task
      "IntervalTriggerSpec 3600" 5 no_llm] demo_stores
  by (auto simp: demo_user_def)

lemma delete_task_effect_witness:
  "\<exists>db' row. apply_writes demo_session frozen_time
       (ho_pending (delete_task no_llm demo_session 5 demo_user 1 (demo_db demo_task))) (demo_db demo_task) = Inr db'
     \<and> db_tasks db' = [] \<and> db_history db' = [row]"
  using delete_task_effect [OF demo_session_user demo_db_ok, of demo_task demo_task
      "IntervalTriggerSpec 3600" no_llm 5] demo_stores
  by (auto simp: demo_user_def)

text \<open>The webhook answers 500: the run is recorded, and the answer is 502.\<close>

lemma run_task_effect_witness:
  "\<exists>row m. ho_db (run_task no_llm (demo_globals True True 500) demo_jwt demo_session 5 demo_user 1
         (demo_db demo_paused)) = (demo_db demo_paused)\<lparr>db_history := [row]\<rparr>
     \<and> h_success row = Some False
     \<and> ho_result (run_task no_llm (demo_globals True True 500) demo_jwt demo_session 5 demo_user 1
         (demo_db demo_paused)) = Inl (HTTPException 502 m)"
proof -
  obtain sent where f: "fire_task_webhook (demo_globals True True 500) demo_jwt frozen_time demo_paused
      = (Inr \<lparr>wo_http_status = Some 500, wo_error_message = Some (''Webhook returned '' @ int_str 500),
          wo_success = False\<rparr>, sent)"
    using demo_fire [of demo_paused True True 500] by (auto simp: outcome_of_def is_success_status_def)
  have g: "g_session_factory (demo_globals True True 500) = Some (new_session True True)"
    by (simp add: demo_globals_def init_executor_def)
  show ?thesis
    using run_task_effect [OF demo_session_user demo_db_ok _ _ _ g, of demo_paused demo_paused 5 demo_jwt no_llm]
      f by (simp add: demo_user_def int4_ok_def) blast
qed

end
