(* ===== verification/Listings.thy ===== *)
theory Listings
  imports Api_Routes Task_Effects
begin

text \<open>
  The paged listings of tasks and of history: what a page holds, that the pages together hold every
  row when no two rows have the same sort key, and what can happen when two have.
\<close>

section \<open>Both listings are paged queries\<close>

interpretation task_rows: paged_query "order_rows pos (list_order_by query)" "list_order_by query"
  for pos query
  by unfold_locales (rule mset_order_rows, rule sorted_order_rows)


lemma collect_Inr: "collect f xs = Inr ys \<longleftrightarrow> list_all2 (\<lambda>x y. f x = Inr y) xs ys"
  by (induction xs arbitrary: ys) (auto simp: rbind_eq_Inr list_all2_Cons1)

lemma collect_all:
  assumes "\<forall>x \<in> set xs. \<exists>y. f x = Inr y"
  shows "\<exists>ys. collect f xs = Inr ys"
  using assms by (induction xs) (auto simp: rbind_eq_Inr)

text \<open>The rows that a query of a user is about.\<close>

definition own_tasks :: "string \<Rightarrow> task_list_query \<Rightarrow> db \<Rightarrow> scheduled_task list" where
  "own_tasks u query db = filter (\<lambda>t. t_user_id t = u \<and> list_filters query t) (db_tasks db)"


lemma list_all2_map_eq:
  assumes "list_all2 R xs ys" "\<And>x y. R x y \<Longrightarrow> f y = g x"
  shows "map f ys = map g xs"
  using assms by (induction rule: list_all2_induct) simp_all

lemma list_tasks_Inr:
  assumes "user_session cx u"
  shows "ho_result (list_tasks rt cx pos query db) = Inr r \<longleftrightarrow>
    list_all2 (\<lambda>t i. to_response rt t = Inr i)
      (page (nat (q_limit query)) (nat (q_offset query))
        (order_rows pos (list_order_by query) (own_tasks u query db))) (tl_items r)
    \<and> tl_total r = int (length (own_tasks u query db))
    \<and> tl_limit r = q_limit query \<and> tl_offset r = q_offset query"
  using select_tasks_user [OF assms]
  by (cases r) (auto simp: list_tasks_def Let_def rbind_eq_Inr collect_Inr own_tasks_def)


section \<open>Properties\<close>

text \<open>
  What a client asks for when it asks for an order: an earlier time first or a later time first, and
  a task without a next fire time after every task that has one, in both directions.
\<close>

definition time_before :: "sort_order \<Rightarrow> datetime \<Rightarrow> datetime \<Rightarrow> bool" where
  "time_before order a b \<longleftrightarrow>
     (case order of ASC \<Rightarrow> instant a \<le> instant b | DESC \<Rightarrow> instant b \<le> instant a)"

fun next_before :: "sort_order \<Rightarrow> datetime option \<Rightarrow> datetime option \<Rightarrow> bool" where
  "next_before order _ None = True"
| "next_before order None (Some b) = False"
| "next_before order (Some a) (Some b) = time_before order a b"

definition task_before :: "task_sort_field \<Rightarrow> sort_order \<Rightarrow> scheduled_task \<Rightarrow> scheduled_task \<Rightarrow> bool" where
  "task_before field order a b \<longleftrightarrow>
     (case field of
        CREATED_AT \<Rightarrow> time_before order (t_created_at a) (t_created_at b)
      | NEXT_RUN_AT \<Rightarrow> next_before order (t_next_run_at a) (t_next_run_at b)
      | UPDATED_AT \<Rightarrow> time_before order (t_updated_at a) (t_updated_at b))"

lemma sql_key_before:
  "sql_key_of (order = ASC) (Some (instant a)) \<le> sql_key_of (order = ASC) (Some (instant b)) \<longleftrightarrow> time_before order a b"
  "sql_key_of (order = ASC) (map_option instant x) \<le> sql_key_of (order = ASC) (map_option instant y)
     \<longleftrightarrow> next_before order x y"
  by (cases order; cases x; cases y; simp add: sql_key_of_def time_before_def)+

lemma list_order_before: "list_order_by query a \<le> list_order_by query b \<longleftrightarrow> task_before (q_sort query) (q_order query) a b"
  by (cases "q_sort query") (simp_all add: list_order_by_def task_before_def sql_key_before)

text \<open>
  (C27) A page of the listing of tasks. There is an order of all the user's rows that are active, if
  only active tasks are asked for, and of the type asked for, in which they come by the time asked
  for, in the direction asked for, tasks without a next fire time last; the page shows, with their
  ids, the rows of this order after the first \<^verbatim>\<open>offset\<close> ones, at most \<^verbatim>\<open>limit\<close> of them; the total is
  the number of all these rows.
\<close>

theorem list_tasks_page:
  assumes "user_session cx u" "ho_result (list_tasks rt cx pos query db) = Inr r"
  shows "\<exists>rows.
      mset rows = mset (filter (\<lambda>t. t_user_id t = u \<and> (q_active_only query \<longrightarrow> t_is_active t)
        \<and> (\<forall>ty. q_trigger_type query = Some ty \<longrightarrow> t_trigger_type t = trigger_type_value ty)) (db_tasks db))
    \<and> sorted_wrt (task_before (q_sort query) (q_order query)) rows
    \<and> list_all2 (\<lambda>t i. to_response rt t = Inr i) (take (nat (q_limit query)) (drop (nat (q_offset query)) rows)) (tl_items r)
    \<and> map tr_id (tl_items r)
        = map (\<lambda>t. uuid_str (t_id t)) (take (nat (q_limit query)) (drop (nat (q_offset query)) rows))
    \<and> tl_total r = int (length rows) \<and> tl_limit r = q_limit query \<and> tl_offset r = q_offset query"
proof -
  let ?rows = "order_rows pos (list_order_by query) (own_tasks u query db)"
  let ?page = "take (nat (q_limit query)) (drop (nat (q_offset query)) ?rows)"
  note r = assms(2) [unfolded list_tasks_Inr [OF assms(1)] page_def]
  have filters: "list_filters query t \<longleftrightarrow> (q_active_only query \<longrightarrow> t_is_active t)
      \<and> (\<forall>ty. q_trigger_type query = Some ty \<longrightarrow> t_trigger_type t = trigger_type_value ty)" for t
    by (auto simp: list_filters_def split: option.splits)
  have rows: "mset ?rows = mset (filter (\<lambda>t. t_user_id t = u \<and> (q_active_only query \<longrightarrow> t_is_active t)
        \<and> (\<forall>ty. q_trigger_type query = Some ty \<longrightarrow> t_trigger_type t = trigger_type_value ty)) (db_tasks db))"
    by (simp only: mset_order_rows own_tasks_def filters)
  have ordered: "sorted_wrt (task_before (q_sort query) (q_order query)) ?rows"
    using sorted_order_rows [of "list_order_by query" pos "own_tasks u query db"]
    by (simp add: sorted_map list_order_before)
  have "tr_id i = uuid_str (t_id t)" if "to_response rt t = Inr i" for t i
    using that by (auto simp: to_response_def rbind_eq_Inr)
  then have "map tr_id (tl_items r) = map (\<lambda>t. uuid_str (t_id t)) ?page"
    using conjunct1 [OF r] by (simp add: list_all2_map_eq)
  moreover have "length ?rows = length (own_tasks u query db)" using mset_order_rows by (metis size_mset)
  ultimately show ?thesis using r rows ordered by (intro exI [of _ ?rows]) simp
qed

text \<open>
  (C28) When no two of the user's matching rows have the same sort key, the pages of a listing
  together hold the responses of exactly these rows, each once, even when the database reads its
  rows in another order for every page.
\<close>

theorem list_pages_complete:
  assumes "user_session cx u" "db_ok db"
    and "inj_on (list_order_by query) {t \<in> set (db_tasks db). t_user_id t = u \<and> list_filters query t}"
    and "length (filter (\<lambda>t. t_user_id t = u \<and> list_filters query t) (db_tasks db)) \<le> n * nat (q_limit query)"
    and "\<forall>i < n. ho_result (list_tasks rt cx (pos i)
           (query\<lparr>q_offset := int (i * nat (q_limit query))\<rparr>) db) = Inr (r i)"
  shows "\<exists>rows. mset rows = mset (filter (\<lambda>t. t_user_id t = u \<and> list_filters query t) (db_tasks db))
    \<and> list_all2 (\<lambda>t i. to_response rt t = Inr i) rows (concat (map (\<lambda>i. tl_items (r i)) [0..<n]))"
proof -
  let ?own = "own_tasks u query db" and ?l = "nat (q_limit query)"
  let ?rows = "order_rows (pos 0) (list_order_by query) ?own"
  have set_own: "set ?own = {t \<in> set (db_tasks db). t_user_id t = u \<and> list_filters query t}"
    by (auto simp: own_tasks_def)
  have dist: "distinct ?own"
    using assms(2) by (simp add: own_tasks_def db_ok_def distinct_map)
  have same: "order_rows (pos i) (list_order_by query) ?own = ?rows" for i
    using assms(3) dist unfolding set_own [symmetric]
    by (intro task_rows.order_unique) (simp_all add: mset_order_rows sorted_order_rows)
  have q: "list_order_by (query\<lparr>q_offset := k\<rparr>) = list_order_by query"
    "own_tasks u (query\<lparr>q_offset := k\<rparr>) db = ?own"
    "q_limit (query\<lparr>q_offset := k\<rparr>) = q_limit query" "q_offset (query\<lparr>q_offset := k\<rparr>) = k" for k
    by (simp_all add: list_order_by_def [abs_def] own_tasks_def list_filters_def)
  have page: "list_all2 (\<lambda>t i. to_response rt t = Inr i) (page ?l (i * ?l) ?rows) (tl_items (r i))" if "i < n" for i
  proof -
    have "ho_result (list_tasks rt cx (pos i) (query\<lparr>q_offset := int (i * ?l)\<rparr>) db) = Inr (r i)"
      using assms(5) that by blast
    then have "list_all2 (\<lambda>t i. to_response rt t = Inr i)
        (page ?l (i * ?l) (order_rows (pos i) (list_order_by query) ?own)) (tl_items (r i))"
      unfolding list_tasks_Inr [OF assms(1)] q by (simp only: nat_int)
    then show ?thesis by (simp only: same [of i])
  qed
  have "list_all2 (\<lambda>t i. to_response rt t = Inr i) (concat (map (\<lambda>i. page ?l (i * ?l) ?rows) [0..<m]))
      (concat (map (\<lambda>i. tl_items (r i)) [0..<m]))" if "m \<le> n" for m
    using that by (induction m) (simp_all add: list_all2_appendI page)
  moreover have "mset (concat (map (\<lambda>i. page ?l (i * ?l) ?rows) [0..<n])) = mset ?own"
    using assms(4) by (intro task_rows.pages_cover) (simp add: own_tasks_def)
  ultimately show ?thesis unfolding own_tasks_def by blast
qed

text \<open>
  The sort columns have no tie-breaker. For two tasks that were created at the same instant,
  the first page of length one and the second can both show the same task, so that a client
  that reads all pages never sees the other one, although the total says two.
\<close>

theorem list_pages_may_repeat:
  "\<exists>db pos pos' r r'. db_ok db \<and> length (db_tasks db) = 2
    \<and> ho_result (list_tasks demo_runtime (open_request_session (new_session True True) (Some ''user-1'')) pos
        (default_task_list_query\<lparr>q_limit := 1\<rparr>) db) = Inr r
    \<and> ho_result (list_tasks demo_runtime (open_request_session (new_session True True) (Some ''user-1'')) pos'
        (default_task_list_query\<lparr>q_limit := 1, q_offset := 1\<rparr>) db) = Inr r'
    \<and> tl_total r = 2 \<and> tl_total r' = 2 \<and> tl_items r = tl_items r' \<and> length (tl_items r) = 1"
proof -
  let ?a = "demo_task" and ?b = "demo_task\<lparr>t_id := 2\<rparr>"
  let ?db = "\<lparr>db_tasks = [?a, ?b], db_history = []\<rparr>"
  let ?cx = "open_request_session (new_session True True) (Some ''user-1'')"
  let ?q = "default_task_list_query\<lparr>q_limit := 1\<rparr>"
  let ?q' = "default_task_list_query\<lparr>q_limit := 1, q_offset := 1\<rparr>"
  let ?pos = "\<lambda>t. if t_id t = 1 then 0 else 1 :: nat" and ?pos' = "\<lambda>t. if t_id t = 1 then 1 else 0 :: nat"
  have id: "t_id ?a = 1" "t_user_id ?a = ''user-1''" "t_is_active ?a" by (simp_all add: demo_task_def)
  have cx: "user_session ?cx ''user-1''" by (rule user_session_open) simp
  have ok: "db_ok ?db" by (simp add: db_ok_def id)
  obtain resp where resp: "to_response demo_runtime ?a = Inr resp"
    using to_response_stores [OF demo_stores] by blast
  let ?r = "\<lparr>tl_items = [resp], tl_total = 2, tl_limit = 1, tl_offset = 0\<rparr>"
  let ?r' = "\<lparr>tl_items = [resp], tl_total = 2, tl_limit = 1, tl_offset = 1\<rparr>"
  have own: "own_tasks ''user-1'' ?q ?db = [?a, ?b]" "own_tasks ''user-1'' ?q' ?db = [?a, ?b]"
    by (simp_all add: own_tasks_def list_filters_def default_task_list_query_def id)
  have key: "list_order_by ?q ?b = list_order_by ?q ?a" "list_order_by ?q' ?b = list_order_by ?q' ?a"
    by (simp_all add: list_order_by_def default_task_list_query_def)
  have "order_rows ?pos (list_order_by ?q) [?a, ?b] = [?a, ?b]"
    "order_rows ?pos' (list_order_by ?q') [?a, ?b] = [?b, ?a]"
    by (simp_all add: order_rows_def id key)
  then have p: "ho_result (list_tasks demo_runtime ?cx ?pos ?q ?db) = Inr ?r"
    "ho_result (list_tasks demo_runtime ?cx ?pos' ?q' ?db) = Inr ?r'"
    unfolding list_tasks_Inr [OF cx] own
    by (simp_all add: resp page_def default_task_list_query_def)
  show ?thesis
    by (intro exI [of _ ?db] exI [of _ ?pos] exI [of _ ?pos'] exI [of _ ?r] exI [of _ ?r'] conjI ok p)
      simp_all
qed




section \<open>Witnesses\<close>

lemma demo_session_is_user: "user_session demo_session ''user-1''"
  using demo_session_user by (simp add: demo_user_def)

lemma demo_listing:
  assumes "to_response demo_runtime demo_task = Inr resp"
  shows "ho_result (list_tasks demo_runtime demo_session pos default_task_list_query (demo_db demo_task))
    = Inr \<lparr>tl_items = [resp], tl_total = 1, tl_limit = 50, tl_offset = 0\<rparr>"
proof -
  have "own_tasks ''user-1'' default_task_list_query (demo_db demo_task) = [demo_task]"
    by (simp add: own_tasks_def list_filters_def default_task_list_query_def)
  then show ?thesis
    unfolding list_tasks_Inr [OF demo_session_is_user]
    using assms by (simp add: order_rows_def page_def default_task_list_query_def)
qed

lemma mset_two: "mset xs = {#a, b#} \<longleftrightarrow> xs = [a, b] \<or> xs = [b, a]"
  by (cases xs) (auto simp: add_eq_conv_ex)

text \<open>Two tasks, of which the one that was created later comes first.\<close>

definition later_task :: scheduled_task where
  "later_task = demo_task\<lparr>t_id := 2, t_created_at := utc_datetime (instant frozen_time + 1)\<rparr>"

lemma list_tasks_page_witness:
  "\<exists>r. ho_result (list_tasks demo_runtime demo_session (\<lambda>_. 0) (default_task_list_query\<lparr>q_limit := 1\<rparr>)
      \<lparr>db_tasks = [demo_task, later_task], db_history = []\<rparr>) = Inr r
    \<and> map tr_id (tl_items r) = [uuid_str 2] \<and> tl_total r = 2"
proof -
  let ?q = "default_task_list_query\<lparr>q_limit := 1\<rparr>" and ?db = "\<lparr>db_tasks = [demo_task, later_task], db_history = []\<rparr>"
  have id: "t_id demo_task = 1" "t_user_id demo_task = ''user-1''" "t_is_active demo_task" "t_created_at demo_task = frozen_time"
    by (simp_all add: demo_task_def)
  have "stores_spec later_task (IntervalTriggerSpec 3600)" using demo_stores by (simp add: stores_spec_def later_task_def)
  then obtain a b where "to_response demo_runtime demo_task = Inr a" "to_response demo_runtime later_task = Inr b"
    using to_response_stores demo_stores by meson
  then have readable: "\<forall>t \<in> {demo_task, later_task}. \<exists>i. to_response demo_runtime t = Inr i" by blast
  have "set (page 1 0 (order_rows (\<lambda>_. 0) (list_order_by ?q) (own_tasks ''user-1'' ?q ?db))) \<subseteq> {demo_task, later_task}"
    using task_rows.page_rows [of 1 0 "\<lambda>_. 0" ?q "own_tasks ''user-1'' ?q ?db"] by (auto simp: own_tasks_def)
  with readable have "\<forall>t \<in> set (page 1 0 (order_rows (\<lambda>_. 0) (list_order_by ?q) (own_tasks ''user-1'' ?q ?db))).
      \<exists>i. to_response demo_runtime t = Inr i" by blast
  then obtain items where "collect (to_response demo_runtime)
      (page 1 0 (order_rows (\<lambda>_. 0) (list_order_by ?q) (own_tasks ''user-1'' ?q ?db))) = Inr items"
    using collect_all by blast
  then obtain r where r: "ho_result (list_tasks demo_runtime demo_session (\<lambda>_. 0) ?q ?db) = Inr r"
    using select_tasks_user [OF demo_session_is_user]
    by (auto simp: list_tasks_def Let_def own_tasks_def default_task_list_query_def)
  have own: "filter (\<lambda>t. t_user_id t = ''user-1'' \<and> (q_active_only ?q \<longrightarrow> t_is_active t)
      \<and> (\<forall>ty. q_trigger_type ?q = Some ty \<longrightarrow> t_trigger_type t = trigger_type_value ty)) (db_tasks ?db) = [demo_task, later_task]"
    by (simp add: default_task_list_query_def id later_task_def)
  obtain rows where rows: "mset rows = mset [demo_task, later_task]"
    "sorted_wrt (task_before (q_sort ?q) (q_order ?q)) rows"
    "map tr_id (tl_items r) = map (\<lambda>t. uuid_str (t_id t)) (take (nat (q_limit ?q)) (drop (nat (q_offset ?q)) rows))"
    "tl_total r = int (length rows)"
    using list_tasks_page [OF demo_session_is_user r, unfolded own] by blast
  have "rows = [demo_task, later_task] \<or> rows = [later_task, demo_task]"
    using rows(1) by (auto simp: mset_two)
  moreover have "rows \<noteq> [demo_task, later_task]"
    using rows(2) by (auto simp: task_before_def time_before_def default_task_list_query_def id later_task_def instant_utc)
  ultimately show ?thesis
    using r rows(3,4) by (auto simp: default_task_list_query_def later_task_def)
qed

lemma list_pages_complete_witness:
  "\<exists>(r :: nat \<Rightarrow> task_list_response) rows. mset rows = mset (filter (\<lambda>t. t_user_id t = ''user-1'' \<and> list_filters default_task_list_query t)
        (db_tasks (demo_db demo_task)))
    \<and> list_all2 (\<lambda>t i. to_response demo_runtime t = Inr i) rows (concat (map (\<lambda>i. tl_items (r i)) [0..<1]))"
proof -
  obtain resp where "to_response demo_runtime demo_task = Inr resp"
    using to_response_stores [OF demo_stores] by blast
  note one = demo_listing [OF this]
  let ?r = "\<lambda>i :: nat. \<lparr>tl_items = [resp], tl_total = 1, tl_limit = 50, tl_offset = 0\<rparr>"
  have q: "default_task_list_query\<lparr>q_offset := 0\<rparr> = default_task_list_query"
    by (simp add: default_task_list_query_def)
  have pages: "\<forall>i < 1. ho_result (list_tasks demo_runtime demo_session ((\<lambda>_ _. 0) i)
      (default_task_list_query\<lparr>q_offset := int (i * nat (q_limit default_task_list_query))\<rparr>) (demo_db demo_task))
      = Inr (?r i)"
    using one [of "\<lambda>_. 0"] q by simp
  have inj: "inj_on (list_order_by default_task_list_query)
      {t \<in> set (db_tasks (demo_db demo_task)). t_user_id t = ''user-1'' \<and> list_filters default_task_list_query t}"
    by (rule inj_onI) simp
  have len: "length (filter (\<lambda>t. t_user_id t = ''user-1'' \<and> list_filters default_task_list_query t)
      (db_tasks (demo_db demo_task))) \<le> 1 * nat (q_limit default_task_list_query)"
    by (simp add: default_task_list_query_def)
  show ?thesis
    by (rule exI [of _ ?r], rule list_pages_complete [OF demo_session_is_user demo_db_ok inj len,
          where pos = "\<lambda>_ _. 0" and r = ?r]) (use pages in simp)
qed


end
