(* ===== verification/Requests.thy ===== *)
theory Requests
  imports Listings
begin

text \<open>
  Whole requests: what a request of one user leaves of the rows, the schedules and the webhooks of
  the others, the requests that only read, and what happens when the commit fails after the
  background tasks have run.
\<close>

section \<open>Everything a handler does is on rows of its user\<close>

text \<open>The ids that are not the id of somebody else's task.\<close>

definition own_ids :: "string \<Rightarrow> db \<Rightarrow> uuid set" where
  "own_ids u db = {i. \<forall>t \<in> set (db_tasks db). t_id t = i \<longrightarrow> t_user_id t = u}"

fun background_id :: "background \<Rightarrow> uuid" where
  "background_id (RegisterSchedule task) = t_id task"
| "background_id (UnregisterSchedule i) = i"

definition own_background :: "string \<Rightarrow> db \<Rightarrow> 'r handler_out \<Rightarrow> bool" where
  "own_background u db out \<longleftrightarrow> (\<forall>b \<in> set (ho_background out). background_id b \<in> own_ids u db)"

definition own_webhooks :: "string \<Rightarrow> db \<Rightarrow> 'r handler_out \<Rightarrow> bool" where
  "own_webhooks u db out \<longleftrightarrow>
     (\<forall>q \<in> set (ho_sent out). \<exists>t \<in> set (db_tasks db). t_user_id t = u \<and> wq_url q = t_webhook_url t)"

definition keeps_to :: "string \<Rightarrow> db \<Rightarrow> 'r handler_out \<Rightarrow> bool" where
  "keeps_to u db out \<longleftrightarrow>
     own_out u (own_ids u db) db out \<and> own_background u db out \<and> own_webhooks u db out"

lemma own_ids_task: "db_ok db \<Longrightarrow> t \<in> set (db_tasks db) \<Longrightarrow> t_user_id t = u \<Longrightarrow> t_id t \<in> own_ids u db"
  by (auto simp: own_ids_def dest: same_id)

lemma isolated_mono:
  assumes "isolated u ids db db'" "ids \<subseteq> ids'"
  shows "isolated u ids' db db'"
  unfolding isolated_def
proof (intro impI conjI ballI)
  assume own: "\<forall>i \<in> ids'. \<forall>t \<in> set (db_tasks db). t_id t = i \<longrightarrow> t_user_id t = u"
  then have eq: "others_tasks u db' = others_tasks u db" "others_history u db' = others_history u db"
    using assms by (auto simp: isolated_def)
  then show "others_tasks u db' = others_tasks u db" "others_history u db' = others_history u db"
    by simp_all
  fix i t assume "i \<in> ids'" "t \<in> set (db_tasks db')" "t_id t = i"
  moreover have "t \<in> set (others_tasks u db)" if "t_user_id t \<noteq> u"
    using that \<open>t \<in> set (db_tasks db')\<close> eq(1) [symmetric] by (simp add: others_tasks_def)
  ultimately show "t_user_id t = u" using own by (auto simp: others_tasks_def)
qed

lemma own_out_mono: "own_out u ids db out \<Longrightarrow> ids \<subseteq> ids' \<Longrightarrow> own_out u ids' db out"
proof -
  have "touches u ids w \<Longrightarrow> ids \<subseteq> ids' \<Longrightarrow> touches u ids' w" for w by (cases w) auto
  then show "own_out u ids db out \<Longrightarrow> ids \<subseteq> ids' \<Longrightarrow> own_out u ids' db out"
    by (auto simp: own_out_def list_all_iff intro: isolated_mono)
qed

lemma keeps_to_raises [simp]: "keeps_to u db (handler_raises db e)"
  and keeps_to_reads [simp]: "keeps_to u db (handler_reads db r)"
  by (simp_all add: keeps_to_def own_background_def own_webhooks_def)

lemma keeps_to_and_then: "(\<And>x. r = Inr x \<Longrightarrow> keeps_to u db (f x)) \<Longrightarrow> keeps_to u db (and_then db r f)"
  by (cases r) simp_all

lemma map_out_simps [simp]:
  "ho_db (map_out f out) = ho_db out" "ho_pending (map_out f out) = ho_pending out"
  "ho_background (map_out f out) = ho_background out" "ho_sent (map_out f out) = ho_sent out"
  "ho_result (map_out f out) = rbind (ho_result out) (\<lambda>r. Inr (f r))"
  by (simp_all add: map_out_def)

lemma keeps_to_map_out [simp]: "keeps_to u db (map_out f out) = keeps_to u db out"
  by (simp add: keeps_to_def own_out_def own_background_def own_webhooks_def)

lemmas keeps_to_defs = keeps_to_def own_out_def own_background_def own_webhooks_def

lemma create_task_keeps:
  assumes "user_session cx (cu_user_id user)" "db_ok db"
  shows "keeps_to (cu_user_id user) db (create_task env llm cx ids user body db)"
proof -
  let ?u = "cu_user_id user"
  have fresh: "t_id task \<in> own_ids ?u db"
    if "flush_and_refresh cx now db new = Inr task" "t_user_id new = ?u" for now new task
    using flush_and_refresh_Inr(1,2) [OF assms(1,2) that(2,1)] by (auto simp: own_ids_def image_iff)
  have "own_background ?u db (create_task env llm cx ids user body db)
      \<and> own_webhooks ?u db (create_task env llm cx ids user body db)"
    unfolding create_task_def and_then_def Let_def
    by (auto simp: own_background_def own_webhooks_def dest: fresh split: sum.splits prod.splits)
  then show ?thesis
    unfolding keeps_to_def using own_out_mono [OF create_task_own] by blast
qed

lemma lifecycle_keeps:
  assumes "user_session cx (cu_user_id user)" "db_ok db"
  shows "keeps_to (cu_user_id user) db (deactivate_task env cx i user task_id db)"
    and "keeps_to (cu_user_id user) db (activate_task env cx i user task_id db)"
    and "keeps_to (cu_user_id user) db (delete_task env cx i user task_id db)"
proof -
  let ?u = "cu_user_id user"
  have own: "task_id \<in> own_ids ?u db" "t_id t \<in> own_ids ?u db"
    if "get_task_or_404 cx db task_id = Inr t" for t
    using get_task_own [OF assms(1) that] own_ids_task [OF assms(2)] by auto
  show "keeps_to ?u db (deactivate_task env cx i user task_id db)"
    unfolding deactivate_task_def Let_def
    by (auto intro!: keeps_to_and_then) (auto dest: own simp: keeps_to_defs)
  show "keeps_to ?u db (activate_task env cx i user task_id db)"
    unfolding activate_task_def Let_def
    by (auto intro!: keeps_to_and_then) (auto dest: own simp: keeps_to_defs)
  show "keeps_to ?u db (delete_task env cx i user task_id db)"
    unfolding delete_task_def
    by (auto intro!: keeps_to_and_then) (auto dest: own record_task_deleted_touches(1) simp: keeps_to_defs)
qed

lemma load_task_Inr:
  assumes "load_task cx db s = Inr (Some t)"
  shows "t \<in> set (db_tasks db)" "uuid_parse s = Inr (t_id t)"
proof -
  obtain i where i: "uuid_parse s = Inr i"
    and rows: "select_tasks cx db (\<lambda>t. t_id t = i) = [t]"
    using assms by (auto simp: load_task_def scalar_one_or_none_Some split: sum.splits if_splits)
  have "t \<in> set (select_tasks cx db (\<lambda>t. t_id t = i))" by (simp add: rows)
  then show "t \<in> set (db_tasks db)" "uuid_parse s = Inr (t_id t)"
    using i by (auto simp: select_tasks_def)
qed

lemma fire_task_webhook_url:
  "fire_task_webhook g lib now task = (r, sent) \<Longrightarrow> q \<in> set sent \<Longrightarrow> wq_url q = t_webhook_url task"
  by (auto simp: fire_task_webhook_def webhook_request_for_def Let_def split: sum.splits prod.splits)

lemma run_task_manually_url:
  assumes "run_task_manually g lib now db (uuid_str (t_id t)) = (r, sent)" "q \<in> set sent"
    and "db_ok db" "t \<in> set (db_tasks db)"
  shows "wq_url q = t_webhook_url t"
proof -
  obtain factory t' where l: "load_task (set_scheduler_rls factory) db (uuid_str (t_id t)) = Inr (Some t')"
    and f: "fire_task_webhook g lib now t' = (r, sent)"
    using assms(1,2) by (auto simp: run_task_manually_def split: option.splits sum.splits)
  have "t' = t"
    using load_task_Inr [OF l] same_id [OF assms(3,4)] by (simp add: uuid_parse_str)
  then show ?thesis using fire_task_webhook_url [OF f assms(2)] by simp
qed

lemma run_task_keeps:
  assumes "user_session cx (cu_user_id user)" "db_ok db"
  shows "keeps_to (cu_user_id user) db (run_task env g lib cx i user task_id db)"
proof -
  let ?out = "run_task env g lib cx i user task_id db"
  have "own_out (cu_user_id user) (own_ids (cu_user_id user) db) db ?out"
    using own_out_mono [OF run_task_own] by blast
  moreover have "own_background (cu_user_id user) db ?out"
    unfolding run_task_def and_then_def Let_def own_background_def
    by (auto split: sum.splits prod.splits)
  moreover have "own_webhooks (cu_user_id user) db ?out"
    unfolding own_webhooks_def
  proof
    fix q assume q: "q \<in> set (ho_sent ?out)"
    then obtain t where t: "get_task_or_404 cx db task_id = Inr t"
      by (cases "get_task_or_404 cx db task_id") (auto simp: run_task_def)
    note own = get_task_own [OF assms(1) t]
    obtain r sent where m: "run_task_manually g lib (pe_clock env 0) db (uuid_str (t_id t)) = (r, sent)"
      by fastforce
    have "q \<in> set sent"
      using q t m by (auto simp: run_task_def Let_def split: sum.splits)
    then have "wq_url q = t_webhook_url t"
      using run_task_manually_url [OF m _ assms(2) own(1)] by blast
    then show "\<exists>t \<in> set (db_tasks db). t_user_id t = cu_user_id user \<and> wq_url q = t_webhook_url t"
      using own by blast
  qed
  ultimately show ?thesis by (simp add: keeps_to_def)
qed

lemma run_handler_keeps:
  assumes "user_session cx (cu_user_id user)" "db_ok db" "run_handler env cx user request db = Some out"
  shows "keeps_to (cu_user_id user) db out"
proof -
  note keeps = create_task_keeps [OF assms(1,2)] lifecycle_keeps [OF assms(1,2)] run_task_keeps [OF assms(1,2)]
  have reads: "keeps_to u db (list_tasks rt cx pos q db)" "keeps_to u db (list_history cx hpos h db)"
    "keeps_to u db (list_task_history cx hpos i h db)" for u rt pos q hpos h i
    by (simp_all add: list_tasks_def list_history_def list_task_history_def list_history_rows_def Let_def)
  have schedule: "keeps_to u db o'" if "get_task_schedule pe cx i n db = Some o'" for u pe i n o'
    using that by (auto simp: get_task_schedule_def split: sum.splits)
  show ?thesis
  proof (cases request)
    case (TaskScheduleRequest i n)
    then show ?thesis
      using assms(3) schedule by (auto simp: run_handler_def split: sum.splits)
  next
    case (CreateTaskRequest url parameters body)
    then show ?thesis
      using assms(3) by (auto simp: run_handler_def intro!: keeps_to_and_then keeps(1))
  next
    case (ListTasksRequest query)
    then show ?thesis
      using assms(3) reads by (auto simp: run_handler_def intro!: keeps_to_and_then)
  next
    case (ListHistoryRequest query)
    then show ?thesis
      using assms(3) reads by (auto simp: run_handler_def intro!: keeps_to_and_then)
  next
    case (TaskHistoryRequest i query)
    then show ?thesis
      using assms(3) reads by (auto simp: run_handler_def intro!: keeps_to_and_then)
  qed (use assms(3) keeps in \<open>auto simp: run_handler_def\<close>)
qed

section \<open>The end of a request\<close>

lemma run_background_other:
  assumes "run_background env b m = Inr m'" "i \<noteq> background_id b"
  shows "m' (uuid_str i) = m (uuid_str i)"
  using assms uuid_str_inject
  by (cases b) (auto simp: run_background_def register_schedule_def unregister_schedule_def rbind_eq_Inr)

lemma run_backgrounds_other:
  assumes "\<forall>b \<in> set bs. i \<noteq> background_id b"
  shows "snd (run_backgrounds env bs m) (uuid_str i) = m (uuid_str i)"
  using assms
proof (induction bs arbitrary: m)
  case (Cons b bs)
  then show ?case
    using run_background_other [of env b m _ i] by (cases "run_background env b m") auto
qed simp

text \<open>The database after a request is the one of the handler, with or without its pending writes.\<close>

lemma finish_request_db:
  assumes "finish_request env cx request st out = (a, st')"
  shows "st_db st' = ho_db out
    \<or> apply_writes cx (pe_clock (ap_parse env) 0) (ho_pending out) (ho_db out) = Inr (st_db st')"
  using assms
  by (auto simp: finish_request_def Let_def split: sum.splits prod.splits if_splits)

lemma finish_request_schedules:
  assumes "finish_request env cx request st out = (a, st')"
  shows "st_schedules st' = st_schedules st
    \<or> st_schedules st' = snd (run_backgrounds env (ho_background out) (st_schedules st))"
  using assms
  by (auto simp: finish_request_def Let_def split: sum.splits prod.splits if_splits)

lemma authenticate_session:
  assumes "authenticate auth now http = Inr user"
  shows "user_session (request_session env user) (cu_user_id user)"
proof -
  obtain g where "(case g of Refused status detail \<Rightarrow> Inl (HTTPException status detail)
      | Passed user_id \<Rightarrow> get_current_user user_id) = Inr user"
    using assms unfolding authenticate_def rbind_eq_Inr by blast
  then obtain i where "get_current_user i = Inr user" by (cases g) auto
  then have "cu_user_id user \<noteq> []"
    by (auto simp: get_current_user_def split: option.splits if_splits)
  then show ?thesis by (simp add: request_session_def user_session_open)
qed

lemma handle_request_Some:
  assumes "handle_request env http request st = Some (a, st', sent)"
    and "authenticate (ap_auth env) (pe_clock (ap_parse env) 0) http = Inr user"
  shows "\<exists>out. run_handler env (request_session env user) user request (st_db st) = Some out
    \<and> finish_request env (request_session env user) request st out = (a, st') \<and> sent = ho_sent out"
proof -
  obtain out where out: "run_handler env (request_session env user) user request (st_db st) = Some out"
    using assms by (auto simp: handle_request_def)
  obtain a' s where "finish_request env (request_session env user) request st out = (a', s)" by fastforce
  then show ?thesis using assms out by (simp add: handle_request_def)
qed

lemma handle_request_refused:
  assumes "authenticate (ap_auth env) (pe_clock (ap_parse env) 0) http = Inl e"
  shows "handle_request env http request st = Some (error_answer e, st, [])"
  using assms by (simp add: handle_request_def)

lemma handle_request_keeps:
  assumes "handle_request env http request st = Some (a, st', sent)"
    and "authenticate (ap_auth env) (pe_clock (ap_parse env) 0) http = Inr user"
    and "db_ok (st_db st)"
  shows "isolated (cu_user_id user) (own_ids (cu_user_id user) (st_db st)) (st_db st) (st_db st')"
    "i \<notin> own_ids (cu_user_id user) (st_db st) \<Longrightarrow> st_schedules st' (uuid_str i) = st_schedules st (uuid_str i)"
    "q \<in> set sent \<Longrightarrow> \<exists>t \<in> set (db_tasks (st_db st)). t_user_id t = cu_user_id user \<and> wq_url q = t_webhook_url t"
proof -
  let ?u = "cu_user_id user" and ?cx = "request_session env user"
  obtain out where run: "run_handler env ?cx user request (st_db st) = Some out"
    and fin: "finish_request env ?cx request st out = (a, st')" and sent: "sent = ho_sent out"
    using handle_request_Some [OF assms(1,2)] by blast
  have keeps: "keeps_to ?u (st_db st) out"
    by (rule run_handler_keeps [OF authenticate_session [OF assms(2)] assms(3) run])
  then have iso: "isolated ?u (own_ids ?u (st_db st)) (st_db st) (ho_db out)"
    and own: "list_all (touches ?u (own_ids ?u (st_db st))) (ho_pending out)"
    by (simp_all add: keeps_to_defs)
  show "isolated ?u (own_ids ?u (st_db st)) (st_db st) (st_db st')"
    using finish_request_db [OF fin]
  proof
    assume "apply_writes ?cx (pe_clock (ap_parse env) 0) (ho_pending out) (ho_db out) = Inr (st_db st')"
    from apply_writes_isolated [OF own this] show ?thesis by (rule isolation.R_trans [OF iso])
  qed (use iso in simp)
  show "st_schedules st' (uuid_str i) = st_schedules st (uuid_str i)" if "i \<notin> own_ids ?u (st_db st)"
  proof -
    have "\<forall>b \<in> set (ho_background out). i \<noteq> background_id b"
      using keeps that by (auto simp: keeps_to_defs)
    then show ?thesis
      using finish_request_schedules [OF fin] run_backgrounds_other by metis
  qed
  show "\<exists>t \<in> set (db_tasks (st_db st)). t_user_id t = ?u \<and> wq_url q = t_webhook_url t" if "q \<in> set sent"
    using keeps that sent by (auto simp: keeps_to_defs)
qed

text \<open>Every request is answered when the triggers of the scheduling library move on.\<close>

lemma request_total:
  assumes "aps_advances (pe_aps (ap_parse env)) prev"
  shows "\<exists>a st' sent. handle_request env http request st = Some (a, st', sent)"
proof -
  have "\<exists>r. compute_upcoming_run_times (pe_aps (ap_parse env)) rt now task n = Some r" for rt now task n
    using iter_upcoming_total [OF assms] by (auto simp: compute_upcoming_run_times_def split: sum.splits)
  then have "\<exists>out. get_task_schedule (ap_parse env) cx i n db = Some out" for cx i n db
    by (auto simp: get_task_schedule_def split: sum.splits)
  then have handled: "\<exists>out. run_handler env cx user request db = Some out" for cx user db
    by (cases request) (auto simp: run_handler_def split: sum.splits)
  show ?thesis
  proof (cases "authenticate (ap_auth env) (pe_clock (ap_parse env) 0) http")
    case (Inl e)
    then show ?thesis using handle_request_refused by blast
  next
    case (Inr user)
    obtain out where "run_handler env (request_session env user) user request (st_db st) = Some out"
      using handled by blast
    moreover obtain a st' where "finish_request env (request_session env user) request st out = (a, st')"
      by fastforce
    ultimately show ?thesis using Inr by (simp add: handle_request_def)
  qed
qed

section \<open>Properties\<close>

text \<open>
  (C2) Tenant isolation. Whatever a user's request is and however it ends, the tasks and the history
  of everybody else are the same after it, the schedules of everybody else's tasks are the same,
  and a webhook is sent only to the address of a task of the user. This holds for a database role
  that is exempt from row security as well: the scope of the session and the checks of the
  handlers are enough.
\<close>

theorem request_isolated:
  assumes "handle_request env http request st = Some (a, st', sent)"
    and "authenticate (ap_auth env) (pe_clock (ap_parse env) 0) http = Inr user"
    and "db_ok (st_db st)"
  shows "filter (\<lambda>t. t_user_id t \<noteq> cu_user_id user) (db_tasks (st_db st'))
       = filter (\<lambda>t. t_user_id t \<noteq> cu_user_id user) (db_tasks (st_db st))
    \<and> filter (\<lambda>h. h_user_id h \<noteq> cu_user_id user) (db_history (st_db st'))
       = filter (\<lambda>h. h_user_id h \<noteq> cu_user_id user) (db_history (st_db st))
    \<and> (\<forall>t \<in> set (db_tasks (st_db st)). t_user_id t \<noteq> cu_user_id user \<longrightarrow>
         st_schedules st' (uuid_str (t_id t)) = st_schedules st (uuid_str (t_id t)))
    \<and> (\<forall>q \<in> set sent. \<exists>t \<in> set (db_tasks (st_db st)).
         t_user_id t = cu_user_id user \<and> wq_url q = t_webhook_url t)"
proof -
  note keeps = handle_request_keeps [OF assms]
  have "t_id t \<notin> own_ids (cu_user_id user) (st_db st)"
    if "t \<in> set (db_tasks (st_db st))" "t_user_id t \<noteq> cu_user_id user" for t
    using that by (auto simp: own_ids_def)
  moreover have "\<forall>i \<in> own_ids (cu_user_id user) (st_db st). \<forall>t \<in> set (db_tasks (st_db st)).
      t_id t = i \<longrightarrow> t_user_id t = cu_user_id user"
    by (auto simp: own_ids_def)
  ultimately show ?thesis
    using keeps by (auto simp: isolated_def others_tasks_def others_history_def)
qed


text \<open>The background task of a creation, when the trigger of the stored schedule is built.\<close>

lemma new_task_registered:
  assumes "schedulable (pe_runtime (ap_parse env)) s"
    and "build_trigger (pe_aps (ap_parse env)) (pe_runtime (ap_parse env)) (pe_clock (ap_parse env) 0) (restored s)
           = Inr trigger"
  shows "run_background env (RegisterSchedule (stored_task now (new_task i u t body s n))) m
    = Inr (m(uuid_str i \<mapsto> (trigger, [uuid_str i])))"
proof -
  let ?task = "stored_task now (new_task i u t body s n)"
  have "with_spec ?task s = ?task" by (simp add: with_spec_def)
  then have "task_to_trigger_spec (pe_runtime (ap_parse env)) ?task = Inr (restored s)"
    using stored_spec.dec_enc [OF assms(1), of ?task] by simp
  then show ?thesis
    using assms(2) by (simp add: run_background_def register_schedule_def build_trigger_from_task_def)
qed

text \<open>
  (C39) An interval of \<open>2\<^sup>3\<^sup>1\<close> seconds or more passes every check of the request and of the handler, but
  the history row of the creation cannot be stored. When the framework runs the background
  tasks before the commit, the client is told 201 and the scheduler holds a schedule for a task
  that is in no table; when it commits first, the answer is 500 and nothing has happened.
\<close>

theorem oversized_interval_lost:
  assumes "authenticate (ap_auth env) (pe_clock (ap_parse env) 0) http = Inr user"
    and "2 ^ 31 \<le> n" "fst (ap_ids env) \<notin> t_id ` set (db_tasks (st_db st))"
    and "interval_trigger (pe_aps (ap_parse env)) (pe_clock (ap_parse env) 0) n = Inr trigger"
    and "trigger_next (pe_aps (ap_parse env)) trigger = Inr r"
  shows "\<exists>body. handle_request env http (CreateTaskRequest url parameters (BodyInterval n)) st =
    Some (if ap_background_first env
      then (Answer 201 body, st\<lparr>st_schedules := (st_schedules st)
              (uuid_str (fst (ap_ids env)) \<mapsto> (trigger, [uuid_str (fst (ap_ids env))]))\<rparr>, [])
      else (ErrorAnswer 500 ''Internal Server Error'', st, []))"
proof -
  let ?env = "ap_parse env" and ?cx = "request_session env user" and ?db = "st_db st"
  let ?s = "IntervalTriggerSpec n" and ?now = "pe_clock (ap_parse env) 0"
  let ?body = "\<lparr>tc_webhook_url = url, tc_parameters = parameters, tc_trigger = Structured ?s\<rparr>"
  have session: "user_session ?cx (cu_user_id user)" by (rule authenticate_session [OF assms(1)])
  have pos: "0 < n" using assms(2) by simp
  have sched: "schedulable (pe_runtime ?env) ?s" using pos by (simp add: schedulable_def)
  have spec: "resolve_or_422 ?env (ap_llm env) (tc_trigger ?body) = Inr (?s, 0)"
    by (simp add: resolve_or_422_def resolve_trigger_spec_def)
  obtain next_run where nr: "compute_next_run_at (pe_aps ?env) (pe_runtime ?env) (pe_clock ?env 0) ?s = Inr next_run"
    using assms(4,5) by (cases "fst r"; cases "dt_tz (the (fst r))") (auto simp: compute_next_run_at_def)
  define new where "new = new_task (fst (ap_ids env)) (cu_user_id user) ?now ?body ?s next_run"
  define task where "task = stored_task ?now new"
  define row where "row = spec_row task ?s
      (history_row (snd (ap_ids env)) (cu_user_id user) (fst (ap_ids env)) TASK_CREATED ?now)"
  obtain resp where run: "create_task ?env (ap_llm env) ?cx (ap_ids env) user ?body ?db
      = \<lparr>ho_result = Inr resp, ho_db = ?db, ho_pending = [InsertTask new, InsertHistory row],
         ho_background = [RegisterSchedule task], ho_sent = []\<rparr>"
    using create_task_run [OF session assms(3) spec sched nr refl new_def task_def] unfolding row_def by blast
  have w1: "apply_write ?cx ?now (InsertTask new) ?db = Inr (?db\<lparr>db_tasks := db_tasks ?db @ [task]\<rparr>)"
    unfolding task_def using session assms(3) by (intro task_inserted) (simp_all add: new_def)
  have "\<not> int4_ok (h_interval_seconds row)"
    using assms(2) by (simp add: row_def spec_row_seconds int4_ok_def)
  then have w2: "apply_write ?cx ?now (InsertHistory row) d = Inl (DatabaseError ''value out of int32 range'')" for d
    by simp
  have commit: "apply_writes ?cx ?now [InsertTask new, InsertHistory row] ?db
      = Inl (DatabaseError ''value out of int32 range'')"
    by (simp only: apply_writes_simps w1 w2 rbind_Inr rbind_Inl)
  have "run_background env (RegisterSchedule task) m
      = Inr (m(uuid_str (fst (ap_ids env)) \<mapsto> (trigger, [uuid_str (fst (ap_ids env))])))" for m
    using new_task_registered [OF sched, where trigger = trigger] assms(4) unfolding task_def new_def by simp
  then have background: "run_backgrounds env [RegisterSchedule task] (st_schedules st)
      = (True, (st_schedules st)(uuid_str (fst (ap_ids env)) \<mapsto> (trigger, [uuid_str (fst (ap_ids env))])))"
    by simp
  have "validate_trigger (pe_runtime ?env) (BodyInterval n) = Inr (Structured ?s)"
    using pos by (simp add: mk_interval_spec_def)
  then show ?thesis
    using assms(1) run commit background
    by (cases "ap_background_first env")
      (simp_all add: handle_request_def run_handler_def request_check_def finish_request_def success_status_def)
qed

section \<open>Witnesses\<close>

definition demo_app :: "bool \<Rightarrow> demo_trigger app_env" where
  "demo_app background_first =
     \<lparr>ap_bypass = True, ap_returning = True, ap_background_first = background_first, ap_parse = no_llm,
      ap_llm = demo_settings, ap_auth = demo_auth, ap_executor = demo_globals True True 200,
      ap_task_pos = (\<lambda>_. 0), ap_history_pos = (\<lambda>_. 0), ap_ids = (7, 8)\<rparr>"

definition demo_http :: http_request where
  "demo_http = \<lparr>rq_path = ''/api/v1/tasks'', rq_authorization = Some ''Bearer token 1''\<rparr>"

definition demo_state :: "scheduled_task \<Rightarrow> demo_trigger app_state" where
  "demo_state t = \<lparr>st_db = demo_db t, st_schedules = Map.empty\<rparr>"

lemma demo_app_simps [simp]:
  "ap_parse (demo_app b) = no_llm" "ap_auth (demo_app b) = demo_auth" "ap_background_first (demo_app b) = b"
  "ap_ids (demo_app b) = (7, 8)" "st_db (demo_state t) = demo_db t"
  "ap_executor (demo_app b) = demo_globals True True 200" "st_schedules (demo_state t) = Map.empty"
  by (simp_all add: demo_app_def demo_state_def)

lemma demo_authenticated:
  "authenticate (ap_auth (demo_app b)) (pe_clock (ap_parse (demo_app b)) 0) demo_http = Inr demo_user"
proof -
  have "decode_token demo_jwt frozen_time ''token 1'' (ae_settings demo_auth)
      = Inr [(''sub'', JStr ''user-1''), (''task_id'', JStr ''1''), (''purpose'', JStr ''webhook'')]"
    by (simp add: decode_token_def demo_jwt_def)
  then show ?thesis
    by (simp add: authenticate_def auth_dispatch_def demo_http_def PUBLIC_PATHS_def demo_user_def
        dict_get_def get_current_user_def Let_def demo_auth_def)
qed

lemma demo_total: "\<exists>a st' sent. handle_request (demo_app b) http request st = Some (a, st', sent)"
  by (rule request_total [where prev = demo_prev]) (simp add: demo_advances)

text \<open>A task of another user.\<close>

definition foreign_task :: scheduled_task where
  "foreign_task = demo_task\<lparr>t_id := 2, t_user_id := ''user-2''\<rparr>"

lemma foreign_task_simps [simp]: "t_id foreign_task = 2" "t_user_id foreign_task = ''user-2''"
  by (simp_all add: foreign_task_def)

lemma request_isolated_witness:
  "\<exists>a st' sent. handle_request (demo_app True) demo_http (DeleteTaskRequest 1) (demo_state foreign_task) = Some (a, st', sent)
    \<and> filter (\<lambda>t. t_user_id t \<noteq> ''user-1'') (db_tasks (st_db st')) = [foreign_task]"
proof -
  obtain a st' sent where h: "handle_request (demo_app True) demo_http (DeleteTaskRequest 1) (demo_state foreign_task)
      = Some (a, st', sent)"
    using demo_total by blast
  have ok: "db_ok (st_db (demo_state foreign_task))" by (simp add: demo_db_ok)
  show ?thesis
    using request_isolated [OF h demo_authenticated ok] h by (simp add: demo_user_def)
qed


lemma demo_next_total: "\<exists>r. trigger_next demo_aps t = Inr r"
  by (cases t) (simp_all add: demo_aps_def)

lemma oversized_interval_lost_witness:
  "\<exists>body trigger. handle_request (demo_app True) demo_http
       (CreateTaskRequest ''https://example.com/hook'' [] (BodyInterval (2 ^ 31))) (demo_state demo_task)
     = Some (Answer 201 body, (demo_state demo_task)\<lparr>st_schedules :=
         [uuid_str 7 \<mapsto> (trigger, [uuid_str 7])]\<rparr>, [])"
proof -
  let ?t = "DemoEvery (instant frozen_time) (2 ^ 31 * us_per_second)"
  have t: "interval_trigger (pe_aps (ap_parse (demo_app True))) (pe_clock (ap_parse (demo_app True)) 0) (2 ^ 31) = Inr ?t"
    by (simp add: demo_aps_def)
  obtain r where r: "trigger_next (pe_aps (ap_parse (demo_app True))) ?t = Inr r"
    using demo_next_total [of ?t] by auto
  have "fst (ap_ids (demo_app True)) \<notin> t_id ` set (db_tasks (st_db (demo_state demo_task)))" by simp
  from oversized_interval_lost [OF demo_authenticated order_refl this t r,
      of "''https://example.com/hook''" "[]"]
  obtain body where "handle_request (demo_app True) demo_http
       (CreateTaskRequest ''https://example.com/hook'' [] (BodyInterval (2 ^ 31))) (demo_state demo_task)
     = Some (Answer 201 body, (demo_state demo_task)\<lparr>st_schedules := [uuid_str 7 \<mapsto> (?t, [uuid_str 7])]\<rparr>, [])"
    by auto
  then show ?thesis by blast
qed

end
