(* ===== verification/Api_Spec.thy ===== *)
theory Api_Spec
  imports Requests
begin

text \<open>
  What the API promises about tasks, on an abstract state that only says which ids are tasks, whose
  they are and whether they are active; and the proof that requests do exactly that.
\<close>

section \<open>The abstract state and its operations\<close>

type_synonym task_view = "uuid \<Rightarrow> (string \<times> bool) option"

definition view :: "db \<Rightarrow> task_view" where
  "view db = map_of (map (\<lambda>t. (t_id t, (t_user_id t, t_is_active t))) (db_tasks db))"

text \<open>The step that a successful request of \<open>u\<close> takes; \<open>new\<close> is the id of a task to be created.\<close>

fun api_spec :: "string \<Rightarrow> uuid \<Rightarrow> api_request \<Rightarrow> task_view \<Rightarrow> task_view" where
  "api_spec u new (CreateTaskRequest _ _ _) m = m(new \<mapsto> (u, True))"
| "api_spec u new (DeactivateTaskRequest i) m = m(i \<mapsto> (u, False))"
| "api_spec u new (ActivateTaskRequest i) m = m(i \<mapsto> (u, True))"
| "api_spec u new (DeleteTaskRequest i) m = m(i := None)"
| "api_spec u new _ m = m"

text \<open>The ids of the active tasks.\<close>

definition active_ids :: "task_view \<Rightarrow> uuid set" where
  "active_ids m = {i. \<exists>u. m i = Some (u, True)}"

section \<open>The view of a database\<close>

lemma view_Some:
  assumes "db_ok db"
  shows "view db i = Some (u, a) \<longleftrightarrow> (\<exists>t \<in> set (db_tasks db). t_id t = i \<and> t_user_id t = u \<and> t_is_active t = a)"
proof -
  have "distinct (map fst (map (\<lambda>t. (t_id t, (t_user_id t, t_is_active t))) (db_tasks db)))"
    using assms by (simp add: db_ok_def comp_def)
  then show ?thesis unfolding view_def by (subst map_of_eq_Some_iff) auto
qed

lemma view_None: "view db i = None \<longleftrightarrow> i \<notin> t_id ` set (db_tasks db)"
  by (auto simp: view_def map_of_eq_None_iff image_iff)

lemma view_same: "db_tasks db' = db_tasks db \<Longrightarrow> view db' = view db"
  by (simp add: view_def)

lemma view_insert:
  assumes "db_tasks db' = db_tasks db @ [t]" "t_id t \<notin> t_id ` set (db_tasks db)"
  shows "view db' = (view db)(t_id t \<mapsto> (t_user_id t, t_is_active t))"
proof -
  have "view db (t_id t) = None" using assms(2) by (simp only: view_None not_False_eq_True)
  then show ?thesis
    using assms(1) by (auto simp: view_def map_add_def split: option.splits)
qed

lemma map_of_update:
  assumes "distinct (map fst xs)" "(i, v) \<in> set xs"
  shows "map_of (map (\<lambda>(k, x). (k, if k = i then w else x)) xs) = (map_of xs)(i \<mapsto> w)"
  using assms
proof (induction xs)
  case (Cons x xs)
  show ?case
  proof (cases "fst x = i")
    case True
    then have "map (\<lambda>(k, x). (k, if k = i then w else x)) xs = xs"
      using Cons.prems(1) by (intro map_idI) (auto simp: image_iff)
    then show ?thesis using True by (cases x) (simp add: fun_eq_iff)
  next
    case False
    then show ?thesis using Cons by (cases x) (auto simp: fun_upd_twist)
  qed
qed simp

lemma view_update:
  assumes "db_ok db" "apply_write cx now (UpdateTask i a n) db = Inr db'" "t \<in> set (db_tasks db)" "t_id t = i"
    and "task_allowed cx (t_user_id t)"
  shows "view db' = (view db)(i \<mapsto> (t_user_id t, a))"
proof -
  let ?v = "\<lambda>t. (t_id t, (t_user_id t, t_is_active t))"
  have "db' = set_task i (updated_task now a n) db"
    using own_task_updated [OF assms(5,1,3), of now a n] assms(2) unfolding assms(4) by (metis sum.inject(2))
  then have eq: "db_tasks db' = map (\<lambda>x. if t_id x = i then updated_task now a n x else x) (db_tasks db)"
    by (simp add: set_task_def)
  have m: "map ?v (db_tasks db') = map (\<lambda>(k, x). (k, if k = i then (t_user_id t, a) else x)) (map ?v (db_tasks db))"
    unfolding eq using same_id [OF assms(1,3)] assms(4) by auto
  have d: "distinct (map fst (map ?v (db_tasks db)))" using assms(1) by (simp add: db_ok_def comp_def)
  have e: "(i, (t_user_id t, t_is_active t)) \<in> set (map ?v (db_tasks db))" using assms(3,4) by force
  show ?thesis unfolding view_def m by (rule map_of_update [OF d e])
qed

lemma view_delete:
  assumes "db_ok db" "apply_write cx now (DeleteTask i) db = Inr db'" "t \<in> set (db_tasks db)" "t_id t = i"
    and "task_allowed cx (t_user_id t)"
  shows "view db' = (view db)(i := None)"
proof -
  have "db' = drop_task i db"
    using own_task_dropped [OF assms(5,1,3), of now] assms(2) unfolding assms(4) by (metis sum.inject(2))
  then have eq: "db_tasks db' = filter (\<lambda>x. t_id x \<noteq> i) (db_tasks db)" by simp
  have "map_of (map (\<lambda>t. (t_id t, v t)) (filter (\<lambda>x. t_id x \<noteq> i) ts)) = (map_of (map (\<lambda>t. (t_id t, v t)) ts))(i := None)"
    for v and ts by (induction ts) (auto simp: fun_upd_twist)
  then show ?thesis unfolding view_def eq .
qed

lemma history_write_tasks:
  "apply_write cx now (InsertHistory h) db = Inr db' \<Longrightarrow> db_tasks db' = db_tasks db"
  by (auto split: if_splits)

section \<open>What a successful handler leaves to be done\<close>

lemma recorded_history:
  "record_task_created rt i now u task = Inr w \<Longrightarrow>
     \<exists>h. w = InsertHistory h \<and> h_user_id h = u \<and> h_task_id h = t_id task \<and> h_execution_source h = None"
  "record_task_deleted rt i now u task = Inr w \<Longrightarrow>
     \<exists>h. w = InsertHistory h \<and> h_user_id h = u \<and> h_task_id h = t_id task \<and> h_execution_source h = None"
  by (auto simp: record_task_created_def record_task_deleted_def snapshot_from_task_def rbind_eq_Inr
      history_row_def)

lemma create_task_success:
  assumes "ho_result (create_task env llm cx ids user body db) = Inr r"
  shows "\<exists>s n task h.
      create_task env llm cx ids user body db =
        \<lparr>ho_result = Inr r, ho_db = db,
         ho_pending = [InsertTask (new_task (fst ids) (cu_user_id user) (pe_clock env 0) body s n), InsertHistory h],
         ho_background = [RegisterSchedule task], ho_sent = []\<rparr>
    \<and> flush_and_refresh cx (pe_clock env 0) db
        (new_task (fst ids) (cu_user_id user) (pe_clock env 0) body s n) = Inr task
    \<and> h_user_id h = cu_user_id user \<and> h_task_id h = t_id task \<and> h_execution_source h = None"
  using assms unfolding create_task_def Let_def
  by (auto dest!: and_then_success recorded_history(1) split: prod.splits) blast

lemma deactivate_task_success:
  assumes "ho_result (deactivate_task env cx i user task_id db) = Inr r"
  shows "\<exists>t. get_task_or_404 cx db task_id = Inr t
    \<and> deactivate_task env cx i user task_id db =
        (if t_is_active t
         then \<lparr>ho_result = Inr r, ho_db = db,
               ho_pending = [UpdateTask (t_id t) False None,
                 record_task_lifecycle i (pe_clock env 0) (cu_user_id user) (t_id t) TASK_DEACTIVATED],
               ho_background = [UnregisterSchedule task_id], ho_sent = []\<rparr>
         else handler_reads db (Inr r))"
proof (cases "get_task_or_404 cx db task_id")
  case (Inr t)
  then show ?thesis
    using assms unfolding deactivate_task_def Let_def
    by (intro exI [of _ t]) (auto dest!: and_then_success split: if_splits)
qed (use assms in \<open>simp add: deactivate_task_def\<close>)

lemma activate_task_success:
  assumes "ho_result (activate_task env cx i user task_id db) = Inr r"
  shows "\<exists>t n. get_task_or_404 cx db task_id = Inr t
    \<and> activate_task env cx i user task_id db =
        (if t_is_active t then handler_reads db (Inr r)
         else \<lparr>ho_result = Inr r, ho_db = db,
               ho_pending = [UpdateTask (t_id t) True n,
                 record_task_lifecycle i (pe_clock env 0) (cu_user_id user) (t_id t) TASK_ACTIVATED],
               ho_background = [RegisterSchedule (t\<lparr>t_is_active := True, t_next_run_at := n\<rparr>)], ho_sent = []\<rparr>)"
  using assms unfolding activate_task_def Let_def
  by (auto dest!: and_then_success split: if_splits)

lemma delete_task_success:
  assumes "ho_result (delete_task env cx i user task_id db) = Inr r"
  shows "\<exists>t h. get_task_or_404 cx db task_id = Inr t
    \<and> delete_task env cx i user task_id db =
        \<lparr>ho_result = Inr r, ho_db = db, ho_pending = [InsertHistory h, DeleteTask (t_id t)],
         ho_background = (if t_is_active t then [UnregisterSchedule task_id] else []), ho_sent = []\<rparr>
    \<and> h_user_id h = cu_user_id user \<and> h_task_id h = t_id t \<and> h_execution_source h = None"
  using assms unfolding delete_task_def
  by (auto dest!: and_then_success recorded_history(2))

text \<open>
  A commit of a handler, as far as the abstract state and the scheduler are concerned: the step of
  the specification; one background task at most, which registers an id that is active after
  the commit or takes away one that was active before.
\<close>

definition commit_ok :: "task_view \<Rightarrow> task_view \<Rightarrow> background list \<Rightarrow> bool" where
  "commit_ok m m' bs \<longleftrightarrow>
     bs = [] \<and> active_ids m \<subseteq> active_ids m'
     \<or> (\<exists>t. bs = [RegisterSchedule t] \<and> t_id t \<in> active_ids m' \<and> active_ids m \<subseteq> active_ids m')
     \<or> (\<exists>i. bs = [UnregisterSchedule i] \<and> active_ids m - {i} \<subseteq> active_ids m')"

lemma create_commit:
  assumes "user_session cx (cu_user_id user)" "db_ok db"
    and "ho_result (create_task env llm cx ids user body db) = Inr r"
    and "apply_writes cx now (ho_pending (create_task env llm cx ids user body db)) db = Inr db'"
  shows "view db' = (view db)(fst ids \<mapsto> (cu_user_id user, True))"
    "commit_ok (view db) (view db') (ho_background (create_task env llm cx ids user body db))"
proof -
  let ?u = "cu_user_id user"
  obtain s n task h where out: "create_task env llm cx ids user body db =
        \<lparr>ho_result = Inr r, ho_db = db,
         ho_pending = [InsertTask (new_task (fst ids) ?u (pe_clock env 0) body s n), InsertHistory h],
         ho_background = [RegisterSchedule task], ho_sent = []\<rparr>"
    and flush: "flush_and_refresh cx (pe_clock env 0) db (new_task (fst ids) ?u (pe_clock env 0) body s n) = Inr task"
    using create_task_success [OF assms(3)] by blast
  let ?new = "new_task (fst ids) ?u (pe_clock env 0) body s n"
  have fresh: "fst ids \<notin> t_id ` set (db_tasks db)" and task: "t_id task = fst ids"
    using flush_and_refresh_Inr [OF assms(1,2) _ flush] by simp_all
  obtain db1 where w: "apply_write cx now (InsertTask ?new) db = Inr db1"
    "apply_write cx now (InsertHistory h) db1 = Inr db'"
    using assms(4) by (simp add: out apply_writes_simps rbind_eq_Inr del: apply_write.simps) blast
  have "apply_write cx now (InsertTask ?new) db = Inr (db\<lparr>db_tasks := db_tasks db @ [stored_task now ?new]\<rparr>)"
    using assms(1) fresh by (intro task_inserted) simp_all
  then have "db_tasks db1 = db_tasks db @ [stored_task now ?new]" using w(1) by auto
  then have tasks: "db_tasks db' = db_tasks db @ [stored_task now ?new]"
    using history_write_tasks [OF w(2)] by simp
  show v: "view db' = (view db)(fst ids \<mapsto> (?u, True))"
    using view_insert [OF tasks] fresh by simp
  show "commit_ok (view db) (view db') (ho_background (create_task env llm cx ids user body db))"
    unfolding out commit_ok_def v using task by (auto simp: active_ids_def)
qed

lemma active_ids_upd:
  "active_ids (m(i \<mapsto> (u, True))) = insert i (active_ids m)"
  "active_ids (m(i \<mapsto> (u, False))) = active_ids m - {i}"
  "active_ids (m(i := None)) = active_ids m - {i}"
  by (auto simp: active_ids_def)

lemma own_view:
  assumes "user_session cx u" "db_ok db" "get_task_or_404 cx db i = Inr t"
  shows "view db i = Some (u, t_is_active t)" "task_allowed cx (t_user_id t)" "t \<in> set (db_tasks db)" "t_id t = i"
  using get_task_own [OF assms(1,3)] view_Some [OF assms(2)] task_allowed_user [OF assms(1)] by auto

lemma deactivate_commit:
  assumes "user_session cx (cu_user_id user)" "db_ok db"
    and "ho_result (deactivate_task env cx i user task_id db) = Inr r"
    and "apply_writes cx now (ho_pending (deactivate_task env cx i user task_id db)) db = Inr db'"
  shows "view db' = (view db)(task_id \<mapsto> (cu_user_id user, False))
    \<and> commit_ok (view db) (view db') (ho_background (deactivate_task env cx i user task_id db))"
proof -
  obtain t where t: "get_task_or_404 cx db task_id = Inr t"
    and out: "deactivate_task env cx i user task_id db =
        (if t_is_active t
         then \<lparr>ho_result = Inr r, ho_db = db,
               ho_pending = [UpdateTask (t_id t) False None,
                 record_task_lifecycle i (pe_clock env 0) (cu_user_id user) (t_id t) TASK_DEACTIVATED],
               ho_background = [UnregisterSchedule task_id], ho_sent = []\<rparr>
         else handler_reads db (Inr r))"
    using deactivate_task_success [OF assms(3)] by blast
  note own = own_view [OF assms(1,2) t]
  have u: "t_user_id t = cu_user_id user" using get_task_own [OF assms(1) t] by simp
  show ?thesis
  proof (cases "t_is_active t")
    case False
    then have "db' = db" using assms(4) out by (simp add: apply_writes_simps)
    then show ?thesis using False own(1) out by (auto simp: commit_ok_def)
  next
    case True
    then obtain db1 where w: "apply_write cx now (UpdateTask (t_id t) False None) db = Inr db1"
      "apply_write cx now (record_task_lifecycle i (pe_clock env 0) (cu_user_id user) (t_id t) TASK_DEACTIVATED) db1
         = Inr db'"
      using assms(4) out by (simp add: apply_writes_simps rbind_eq_Inr del: apply_write.simps) blast
    have "view db1 = (view db)(task_id \<mapsto> (cu_user_id user, False))"
      using view_update [OF assms(2) w(1) own(3) refl own(2)] own(4) u by simp
    moreover have "view db' = view db1"
      using history_write_tasks w(2) unfolding record_task_lifecycle_def by (intro view_same) blast
    ultimately show ?thesis using True out by (simp add: commit_ok_def active_ids_upd)
  qed
qed

lemma activate_commit:
  assumes "user_session cx (cu_user_id user)" "db_ok db"
    and "ho_result (activate_task env cx i user task_id db) = Inr r"
    and "apply_writes cx now (ho_pending (activate_task env cx i user task_id db)) db = Inr db'"
  shows "view db' = (view db)(task_id \<mapsto> (cu_user_id user, True))
    \<and> commit_ok (view db) (view db') (ho_background (activate_task env cx i user task_id db))"
proof -
  obtain t n where t: "get_task_or_404 cx db task_id = Inr t"
    and out: "activate_task env cx i user task_id db =
        (if t_is_active t then handler_reads db (Inr r)
         else \<lparr>ho_result = Inr r, ho_db = db,
               ho_pending = [UpdateTask (t_id t) True n,
                 record_task_lifecycle i (pe_clock env 0) (cu_user_id user) (t_id t) TASK_ACTIVATED],
               ho_background = [RegisterSchedule (t\<lparr>t_is_active := True, t_next_run_at := n\<rparr>)], ho_sent = []\<rparr>)"
    using activate_task_success [OF assms(3)] by blast
  note own = own_view [OF assms(1,2) t]
  have u: "t_user_id t = cu_user_id user" using get_task_own [OF assms(1) t] by simp
  show ?thesis
  proof (cases "t_is_active t")
    case True
    then have "db' = db" using assms(4) out by (simp add: apply_writes_simps)
    then show ?thesis using True own(1) out by (auto simp: commit_ok_def)
  next
    case False
    then obtain db1 where w: "apply_write cx now (UpdateTask (t_id t) True n) db = Inr db1"
      "apply_write cx now (record_task_lifecycle i (pe_clock env 0) (cu_user_id user) (t_id t) TASK_ACTIVATED) db1
         = Inr db'"
      using assms(4) out by (simp add: apply_writes_simps rbind_eq_Inr del: apply_write.simps) blast
    have "view db1 = (view db)(task_id \<mapsto> (cu_user_id user, True))"
      using view_update [OF assms(2) w(1) own(3) refl own(2)] own(4) u by simp
    moreover have "view db' = view db1"
      using history_write_tasks w(2) unfolding record_task_lifecycle_def by (intro view_same) blast
    ultimately show ?thesis using False out own(4) by (auto simp: commit_ok_def active_ids_upd)
  qed
qed

lemma delete_commit:
  assumes "user_session cx (cu_user_id user)" "db_ok db"
    and "ho_result (delete_task env cx i user task_id db) = Inr r"
    and "apply_writes cx now (ho_pending (delete_task env cx i user task_id db)) db = Inr db'"
  shows "view db' = (view db)(task_id := None)
    \<and> commit_ok (view db) (view db') (ho_background (delete_task env cx i user task_id db))"
proof -
  obtain t h where t: "get_task_or_404 cx db task_id = Inr t"
    and out: "delete_task env cx i user task_id db =
        \<lparr>ho_result = Inr r, ho_db = db, ho_pending = [InsertHistory h, DeleteTask (t_id t)],
         ho_background = (if t_is_active t then [UnregisterSchedule task_id] else []), ho_sent = []\<rparr>"
    using delete_task_success [OF assms(3)] by blast
  note own = own_view [OF assms(1,2) t]
  obtain db1 where w: "apply_write cx now (InsertHistory h) db = Inr db1"
    "apply_write cx now (DeleteTask (t_id t)) db1 = Inr db'"
    using assms(4) out by (simp add: apply_writes_simps rbind_eq_Inr del: apply_write.simps) blast
  have tasks: "db_tasks db1 = db_tasks db" by (rule history_write_tasks [OF w(1)])
  have "view db' = (view db1)(task_id := None)"
    using view_delete [OF apply_write_db_ok [OF w(1) assms(2)] w(2) _ refl own(2)] tasks own(3,4) by simp
  then have v: "view db' = (view db)(task_id := None)" using view_same [OF tasks] by simp
  have "commit_ok (view db) (view db') (if t_is_active t then [UnregisterSchedule task_id] else [])"
    unfolding v commit_ok_def active_ids_upd using own(1) by (auto simp: active_ids_def)
  then show ?thesis using v out by simp
qed

lemma run_task_tasks:
  "db_tasks (ho_db (run_task env g lib cx i user task_id db)) = db_tasks db"
  "ho_pending (run_task env g lib cx i user task_id db) = []"
  "ho_background (run_task env g lib cx i user task_id db) = []"
proof -
  have row: "db_tasks db' = db_tasks db"
    if "apply_writes cx now [record_execution j n u tid src url b st m] db = Inr db'"
    for now j n u tid src url b st m db'
    using that history_write_tasks unfolding record_execution_def
    by (simp add: apply_writes_simps rbind_eq_Inr del: apply_write.simps)
  show "db_tasks (ho_db (run_task env g lib cx i user task_id db)) = db_tasks db"
    unfolding run_task_def and_then_def Let_def
    by (auto dest: row split: sum.splits prod.splits)
  show "ho_pending (run_task env g lib cx i user task_id db) = []"
    "ho_background (run_task env g lib cx i user task_id db) = []"
    unfolding run_task_def and_then_def Let_def by (auto split: sum.splits prod.splits)
qed

text \<open>The requests that only read.\<close>

fun only_reads :: "api_request \<Rightarrow> bool" where
  "only_reads MeRequest = True"
| "only_reads (ListTasksRequest _) = True"
| "only_reads (TaskScheduleRequest _ _) = True"
| "only_reads (ListHistoryRequest _) = True"
| "only_reads (TaskHistoryRequest _ _) = True"
| "only_reads (ParseTriggerRequest _ _) = True"
| "only_reads _ = False"

lemma and_then_idle:
  assumes "\<And>x. ho_db (f x) = db \<and> ho_pending (f x) = [] \<and> ho_background (f x) = [] \<and> ho_sent (f x) = []"
  shows "ho_db (and_then db r f) = db \<and> ho_pending (and_then db r f) = []
    \<and> ho_background (and_then db r f) = [] \<and> ho_sent (and_then db r f) = []"
  using assms by (cases r) simp_all

lemma run_handler_reads:
  assumes "run_handler env cx user request db = Some out" "only_reads request"
  shows "ho_db out = db \<and> ho_pending out = [] \<and> ho_background out = [] \<and> ho_sent out = []"
proof (cases request)
  case (TaskScheduleRequest i n)
  then show ?thesis
    using assms by (auto simp: run_handler_def get_task_schedule_def split: sum.splits)
next
  case (ListTasksRequest query)
  then show ?thesis
    using assms by (auto simp: run_handler_def list_tasks_def Let_def intro!: and_then_idle)
next
  case (ListHistoryRequest query)
  then show ?thesis
    using assms by (auto simp: run_handler_def list_history_def list_history_rows_def Let_def intro!: and_then_idle)
next
  case (TaskHistoryRequest i query)
  then show ?thesis
    using assms by (auto simp: run_handler_def list_task_history_def list_history_rows_def Let_def intro!: and_then_idle)
qed (use assms in \<open>auto simp: run_handler_def\<close>)

lemma run_handler_commit:
  assumes "user_session cx (cu_user_id user)" "db_ok db" "run_handler env cx user request db = Some out"
    and "ho_result out = Inr b" "apply_writes cx now (ho_pending out) (ho_db out) = Inr db'"
  shows "view db' = api_spec (cu_user_id user) (fst (ap_ids env)) request (view db)
    \<and> commit_ok (view db) (view db') (ho_background out)"
proof (cases "only_reads request")
  case True
  from run_handler_reads [OF assms(3) this] have "db' = db" "ho_background out = []"
    using assms(5) by (simp_all add: apply_writes_simps)
  then show ?thesis using True by (cases request) (simp_all add: commit_ok_def)
next
  case False
  then show ?thesis
  proof (cases request)
    case (CreateTaskRequest url parameters body)
    then obtain trigger where out: "out = map_out TaskBody (create_task (ap_parse env) (ap_llm env) cx (ap_ids env) user
        \<lparr>tc_webhook_url = url, tc_parameters = parameters, tc_trigger = trigger\<rparr> db)"
      using assms(3,4) by (auto simp: run_handler_def dest!: and_then_success)
    obtain r where r: "ho_result (create_task (ap_parse env) (ap_llm env) cx (ap_ids env) user
        \<lparr>tc_webhook_url = url, tc_parameters = parameters, tc_trigger = trigger\<rparr> db) = Inr r"
      using assms(4) out by (auto simp: rbind_eq_Inr)
    then show ?thesis
      using create_commit [OF assms(1,2) r, of now db'] create_task_success [OF r] assms(5) out CreateTaskRequest
      by auto
  next
    case (RunTaskRequest i)
    then have out: "out = map_out TaskRunBody (run_task (ap_parse env) (ap_executor env) (ae_lib (ap_auth env)) cx
        (fst (ap_ids env)) user i db)"
      using assms(3) by (simp add: run_handler_def)
    then have "view db' = view db"
      using assms(5) run_task_tasks(1) by (intro view_same) (auto simp: run_task_tasks(2) apply_writes_simps)
    then show ?thesis using RunTaskRequest out by (simp add: run_task_tasks commit_ok_def)
  next
    case (DeactivateTaskRequest i)
    then have out: "out = map_out TaskBody (deactivate_task (ap_parse env) cx (fst (ap_ids env)) user i db)"
      using assms(3) by (simp add: run_handler_def)
    then obtain r where r: "ho_result (deactivate_task (ap_parse env) cx (fst (ap_ids env)) user i db) = Inr r"
      using assms(4) by (auto simp: rbind_eq_Inr)
    have "ho_db (deactivate_task (ap_parse env) cx (fst (ap_ids env)) user i db) = db"
      using deactivate_task_success [OF r] by (auto split: if_splits)
    then show ?thesis
      using deactivate_commit [OF assms(1,2) r, of now db'] assms(5) out DeactivateTaskRequest by auto
  next
    case (ActivateTaskRequest i)
    then have out: "out = map_out TaskBody (activate_task (ap_parse env) cx (fst (ap_ids env)) user i db)"
      using assms(3) by (simp add: run_handler_def)
    then obtain r where r: "ho_result (activate_task (ap_parse env) cx (fst (ap_ids env)) user i db) = Inr r"
      using assms(4) by (auto simp: rbind_eq_Inr)
    have "ho_db (activate_task (ap_parse env) cx (fst (ap_ids env)) user i db) = db"
      using activate_task_success [OF r] by (auto split: if_splits)
    then show ?thesis
      using activate_commit [OF assms(1,2) r, of now db'] assms(5) out ActivateTaskRequest by auto
  next
    case (DeleteTaskRequest i)
    then have out: "out = map_out (\<lambda>_. EmptyBody) (delete_task (ap_parse env) cx (fst (ap_ids env)) user i db)"
      using assms(3) by (simp add: run_handler_def)
    then obtain r where r: "ho_result (delete_task (ap_parse env) cx (fst (ap_ids env)) user i db) = Inr r"
      using assms(4) by (auto simp: rbind_eq_Inr)
    have "ho_db (delete_task (ap_parse env) cx (fst (ap_ids env)) user i db) = db"
      using delete_task_success [OF r] by auto
    then show ?thesis
      using delete_commit [OF assms(1,2) r, of now db'] assms(5) out DeleteTaskRequest by auto
  qed simp_all
qed

text \<open>
  Whatever a handler has committed itself, and whatever ends in an exception, leaves the abstract
  state as it was.
\<close>

lemma run_handler_view:
  assumes "run_handler env cx user request db = Some out"
  shows "view (ho_db out) = view db"
proof -
  have c: "ho_db (create_task pe llm cx ids user body db) = db" for pe llm ids body
    by (auto simp: create_task_def and_then_def Let_def split: sum.splits prod.splits)
  have l: "ho_db (deactivate_task pe cx i user tid db) = db" "ho_db (activate_task pe cx i user tid db) = db"
    "ho_db (delete_task pe cx i user tid db) = db" for pe i tid
    by (auto simp: deactivate_task_def activate_task_def delete_task_def and_then_def Let_def split: sum.splits)
  show ?thesis
  proof (cases "only_reads request")
    case True
    then show ?thesis using run_handler_reads [OF assms] by simp
  next
    case False
    have a: "ho_db (and_then db r (\<lambda>x. map_out f (create_task pe llm cx ids user (g x) db))) = db"
      for r :: "trigger_spec result" and f pe llm ids g
      by (cases r) (simp_all add: c)
    show ?thesis
      using False assms
      by (cases request) (auto simp: run_handler_def a l run_task_tasks intro!: view_same)
  qed
qed

section \<open>Properties\<close>

text \<open>
  (C5) Refinement. On the abstract state, which says of every id whose task it is and whether it is
  active, a request either does nothing or takes exactly the step of the specification: creation
  adds an active task of the user, deactivation and activation set the flag, deletion removes
  the task, the other requests do nothing. An error answer means that nothing was done; when the
  framework commits before it runs the background tasks, a success means that the step was taken.
\<close>

theorem request_refines_spec:
  assumes "handle_request env http request st = Some (a, st', sent)"
    and "authenticate (ap_auth env) (pe_clock (ap_parse env) 0) http = Inr user"
    and "db_ok (st_db st)"
  shows "(view (st_db st') = view (st_db st)
      \<or> view (st_db st') = api_spec (cu_user_id user) (fst (ap_ids env)) request (view (st_db st)))
    \<and> (\<forall>status detail. a = ErrorAnswer status detail \<longrightarrow> view (st_db st') = view (st_db st))
    \<and> (\<forall>status body. a = Answer status body \<and> \<not> ap_background_first env \<longrightarrow>
         view (st_db st') = api_spec (cu_user_id user) (fst (ap_ids env)) request (view (st_db st)))"
proof -
  let ?cx = "request_session env user"
  let ?spec = "api_spec (cu_user_id user) (fst (ap_ids env)) request (view (st_db st))"
  obtain out where run: "run_handler env ?cx user request (st_db st) = Some out"
    and fin: "finish_request env ?cx request st out = (a, st')"
    using handle_request_Some [OF assms(1,2)] by blast
  note same = run_handler_view [OF run]
  note commit = run_handler_commit [OF authenticate_session [OF assms(2)] assms(3) run]
  show ?thesis
  proof (cases "ho_result out")
    case (Inl e)
    moreover have "error_answer e \<noteq> Answer s b" for s b by (cases e) simp_all
    ultimately show ?thesis using fin same by (auto simp: finish_request_def)
  next
    case (Inr body)
    let ?commit = "apply_writes ?cx (pe_clock (ap_parse env) 0) (ho_pending out) (ho_db out)"
    show ?thesis
    proof (cases ?commit)
      case (Inl e)
      moreover have "error_answer e \<noteq> Answer s b" for s b by (cases e) simp_all
      ultimately show ?thesis
        using fin Inr same by (auto simp: finish_request_def Let_def split: prod.splits if_splits)
    next
      case c: (Inr db')
      then have "view db' = ?spec" using commit Inr by blast
      then show ?thesis
        using fin Inr c same by (auto simp: finish_request_def Let_def split: prod.splits if_splits)
    qed
  qed
qed

lemma request_refines_spec_witness:
  "\<exists>a st' sent. handle_request (demo_app False) demo_http (DeleteTaskRequest 1) (demo_state demo_task) = Some (a, st', sent)
    \<and> (view (st_db st') = [1 \<mapsto> (''user-1'', True)] \<or> view (st_db st') = Map.empty)"
proof -
  obtain a st' sent where h: "handle_request (demo_app False) demo_http (DeleteTaskRequest 1) (demo_state demo_task)
      = Some (a, st', sent)"
    using demo_total by blast
  have "db_ok (st_db (demo_state demo_task))" by (simp add: demo_db_ok)
  from request_refines_spec [OF h demo_authenticated this] h
  show ?thesis by (auto simp: view_def)
qed

end
