(* ===== verification/App_System.thy ===== *)
theory App_System
  imports Api_Spec
begin

text \<open>
  The whole service as a transition system. Its state is the database, the schedules that the
  scheduling library holds and the scheduled runs that wait for their webhook; its steps are a
  request, the start and the end of a scheduled run, and the library forgetting a schedule.
  Requests of any users and any number of scheduled runs interleave.
\<close>

section \<open>States and steps\<close>

record 't system =
  sy_app :: "'t app_state"
  sy_running :: "(rls_ctx \<times> scheduled_task \<times> webhook_fire_outcome) list"

definition initial_system :: "'t system" where
  "initial_system =
     \<lparr>sy_app = \<lparr>st_db = \<lparr>db_tasks = [], db_history = []\<rparr>, st_schedules = Map.empty\<rparr>, sy_running = []\<rparr>"

text \<open>\<^verbatim>\<open>uuid4()\<close> gives an id that nothing in the system has.\<close>

definition fresh_id :: "uuid \<Rightarrow> 't system \<Rightarrow> bool" where
  "fresh_id i s \<longleftrightarrow>
     i \<notin> t_id ` set (db_tasks (st_db (sy_app s)))
     \<and> i \<notin> h_task_id ` set (db_history (st_db (sy_app s)))
     \<and> i \<notin> (\<lambda>(cx, task, outcome). t_id task) ` set (sy_running s)"

text \<open>
  A request loses its commit when its background tasks have run and the database then refuses its
  writes. Only an order with the background tasks first has such requests.
\<close>

definition commit_lost :: "'t app_env \<Rightarrow> http_request \<Rightarrow> api_request \<Rightarrow> 't app_state \<Rightarrow> bool" where
  "commit_lost env http request st \<longleftrightarrow>
     ap_background_first env
     \<and> (case authenticate (ap_auth env) (pe_clock (ap_parse env) 0) http of
          Inl e \<Rightarrow> False
        | Inr user \<Rightarrow>
            (case run_handler env (request_session env user) user request (st_db st) of
               None \<Rightarrow> False
             | Some out \<Rightarrow>
                 (case (ho_result out, apply_writes (request_session env user) (pe_clock (ap_parse env) 0)
                          (ho_pending out) (ho_db out)) of
                    (Inr body, Inl e) \<Rightarrow> True
                  | _ \<Rightarrow> False)))"

text \<open>
  The steps of a deployment: \<open>background_first\<close> is the order at the end of a request, \<open>lossy\<close> says
  whether requests may lose their commit, \<open>g\<close> and \<open>lib\<close> are the executor's variables and token
  library. Everything else about a request or a run is arbitrary and may differ from step to step:
  the clock, the outside world, the user.
\<close>

inductive system_step ::
  "bool \<Rightarrow> bool \<Rightarrow> executor_globals \<Rightarrow> jwt_lib \<Rightarrow> 't system \<Rightarrow> 't system \<Rightarrow> bool"
  for background_first lossy g lib where
  request:
    "system_step background_first lossy g lib s (s\<lparr>sy_app := st'\<rparr>)"
    if "ap_background_first env = background_first" "fresh_id (fst (ap_ids env)) s"
      "handle_request env http request (sy_app s) = Some (a, st', sent)"
      "lossy \<or> \<not> commit_lost env http request (sy_app s)"
| run_starts:
    "system_step background_first lossy g lib s (s\<lparr>sy_running := (cx, task, outcome) # sy_running s\<rparr>)"
    if "st_schedules (sy_app s) key = Some (trigger, [task_id])"
      "execution_begin g lib now (st_db (sy_app s)) task_id = (ExecutionFired cx task outcome, sent)"
| run_ends:
    "system_step background_first lossy g lib s
       \<lparr>sy_app = \<lparr>st_db = er_db r, st_schedules = apply_scheds (er_calls r) (st_schedules (sy_app s))\<rparr>,
        sy_running = before @ after\<rparr>"
    if "sy_running s = before @ (cx, task, outcome) # after"
      "execution_finish g i now cx task outcome (st_db (sy_app s)) = r"
| schedule_over:
    "system_step background_first lossy g lib s
       (s\<lparr>sy_app := (sy_app s)\<lparr>st_schedules := (st_schedules (sy_app s))(key := None)\<rparr>\<rparr>)"

inductive reachable :: "bool \<Rightarrow> bool \<Rightarrow> executor_globals \<Rightarrow> jwt_lib \<Rightarrow> 't system \<Rightarrow> bool"
  for background_first lossy g lib where
  start: "reachable background_first lossy g lib initial_system"
| step: "reachable background_first lossy g lib t"
    if "reachable background_first lossy g lib s" "system_step background_first lossy g lib s t"

inductive_cases system_stepE: "system_step background_first lossy g lib s t"

section \<open>The invariant of the database\<close>

definition source_ok :: "task_history \<Rightarrow> bool" where
  "source_ok h \<longleftrightarrow> (\<forall>src. h_execution_source h = Some src \<longrightarrow> (\<exists>x. src = execution_source_value x))"

text \<open>The ids and owners of the tasks.\<close>

definition owners :: "db \<Rightarrow> (uuid \<times> string) list" where
  "owners db = map (\<lambda>t. (t_id t, t_user_id t)) (db_tasks db)"

lemma owners_write:
  "apply_write cx now (UpdateTask i a n) db = Inr db' \<Longrightarrow> owners db' = owners db"
  "apply_write cx now (InsertTask t) db = Inr db' \<Longrightarrow> owners db' = owners db @ [(t_id t, t_user_id t)]"
  "apply_write cx now (DeleteTask i) db = Inr db' \<Longrightarrow> set (owners db') \<subseteq> set (owners db)"
  "apply_write cx now (InsertHistory h) db = Inr db' \<Longrightarrow> owners db' = owners db"
  "apply_write cx now (MutateHistory i x) db = Inr db' \<Longrightarrow> owners db' = owners db"
  by (auto simp: owners_def split: if_splits)

lemma history_write:
  "apply_write cx now (InsertHistory h) db = Inr db' \<Longrightarrow> db_history db' = db_history db @ [stored_history now h]"
  "apply_write cx now (InsertTask t) db = Inr db' \<Longrightarrow> db_history db' = db_history db"
  "apply_write cx now (UpdateTask i a n) db = Inr db' \<Longrightarrow> db_history db' = db_history db"
  "apply_write cx now (DeleteTask i) db = Inr db' \<Longrightarrow> db_history db' = db_history db"
  "apply_write cx now (MutateHistory i x) db = Inr db' \<Longrightarrow> db_history db' = db_history db"
  by (auto split: if_splits)

text \<open>
  An inactive task has no next fire time; the source of an execution is one that the program
  knows; the history of a task is the history of its owner.
\<close>

definition paused_ok :: "db \<Rightarrow> bool" where
  "paused_ok db \<longleftrightarrow> (\<forall>t \<in> set (db_tasks db). \<not> t_is_active t \<longrightarrow> t_next_run_at t = None)"

definition history_owned :: "db \<Rightarrow> bool" where
  "history_owned db \<longleftrightarrow>
     (\<forall>h \<in> set (db_history db). \<forall>u. (h_task_id h, u) \<in> set (owners db) \<longrightarrow> h_user_id h = u)"

definition db_inv :: "db \<Rightarrow> bool" where
  "db_inv db \<longleftrightarrow> db_ok db \<and> paused_ok db \<and> (\<forall>h \<in> set (db_history db). source_ok h) \<and> history_owned db"

text \<open>
  Writes on behalf of \<open>u\<close>: new tasks have ids in \<open>new\<close>, history rows are about tasks in \<open>own\<close>.
  \<open>own_inv\<close> says what these sets must be for such writes to keep the invariant.
\<close>

fun good_write :: "string \<Rightarrow> uuid set \<Rightarrow> uuid set \<Rightarrow> db_write \<Rightarrow> bool" where
  "good_write u new own (InsertTask t) = (t_user_id t = u \<and> t_id t \<in> new \<and> t_is_active t)"
| "good_write u new own (UpdateTask i a n) = (\<not> a \<longrightarrow> n = None)"
| "good_write u new own (DeleteTask i) = True"
| "good_write u new own (InsertHistory h) = (h_user_id h = u \<and> h_task_id h \<in> own \<and> source_ok h)"
| "good_write u new own (MutateHistory i h) = True"

definition own_inv :: "string \<Rightarrow> uuid set \<Rightarrow> uuid set \<Rightarrow> db \<Rightarrow> bool" where
  "own_inv u new own db \<longleftrightarrow>
     db_inv db \<and> new \<subseteq> own
     \<and> (\<forall>i v. (i, v) \<in> set (owners db) \<and> i \<in> own \<longrightarrow> v = u)
     \<and> (\<forall>h \<in> set (db_history db). h_task_id h \<in> new \<longrightarrow> h_user_id h = u)"

lemma stored_history_more [simp]:
  "h_task_id (stored_history now h) = h_task_id h" "source_ok (stored_history now h) = source_ok h"
  by (simp_all add: stored_history_def source_ok_def)

lemma good_write_paused:
  "good_write u new own w \<Longrightarrow> apply_write cx now w db = Inr db' \<Longrightarrow> paused_ok db \<Longrightarrow> paused_ok db'"
  by (cases w) (auto simp: paused_ok_def split: if_splits)

lemma good_write_keeps:
  assumes "good_write u new own w" "apply_write cx now w db = Inr db'" "own_inv u new own db"
  shows "own_inv u new own db'"
proof -
  have ok: "db_ok db'" "paused_ok db'"
    using assms apply_write_db_ok good_write_paused by (auto simp: own_inv_def db_inv_def)
  show ?thesis
  proof (cases w)
    case (InsertTask t)
    note after = owners_write(2) [OF assms(2) [unfolded InsertTask]] history_write(2) [OF assms(2) [unfolded InsertTask]]
    show ?thesis
      using assms(1,3) ok unfolding InsertTask own_inv_def db_inv_def history_owned_def after by auto
  next
    case (InsertHistory h)
    note after = owners_write(4) [OF assms(2) [unfolded InsertHistory]] history_write(1) [OF assms(2) [unfolded InsertHistory]]
    show ?thesis
      using assms(1,3) ok unfolding InsertHistory own_inv_def db_inv_def history_owned_def after by auto
  next
    case (UpdateTask i a n)
    note after = owners_write(1) [OF assms(2) [unfolded UpdateTask]] history_write(3) [OF assms(2) [unfolded UpdateTask]]
    show ?thesis
      using assms(1,3) ok unfolding own_inv_def db_inv_def history_owned_def after by auto
  next
    case (DeleteTask i)
    note after = owners_write(3) [OF assms(2) [unfolded DeleteTask]] history_write(4) [OF assms(2) [unfolded DeleteTask]]
    show ?thesis
      using assms(1,3) ok after(1) unfolding own_inv_def db_inv_def history_owned_def after(2) by blast
  next
    case (MutateHistory i x)
    note after = owners_write(5) [OF assms(2) [unfolded MutateHistory]]
      history_write(5) [OF assms(2) [unfolded MutateHistory]]
    show ?thesis
      using assms(1,3) ok unfolding own_inv_def db_inv_def history_owned_def after by auto
  qed
qed

interpretation good_writes: step_relation
  "apply_write cx now" "good_write u new own" "\<lambda>db db'. own_inv u new own db \<longrightarrow> own_inv u new own db'"
  for cx now u new own
  by unfold_locales (auto dest: good_write_keeps)

lemma apply_writes_good:
  "list_all (good_write u new own) ws \<Longrightarrow> apply_writes cx now ws db = Inr db' \<Longrightarrow> own_inv u new own db
     \<Longrightarrow> own_inv u new own db'"
  using good_writes.run_R by (simp add: apply_writes_def)

text \<open>The rows of the tasks: every row after a write was there before, with the same id and owner, or is new.\<close>

definition rows_from :: "uuid set \<Rightarrow> db \<Rightarrow> db \<Rightarrow> bool" where
  "rows_from new db db' \<longleftrightarrow> set (owners db') \<subseteq> set (owners db) \<union> new \<times> UNIV"

lemma good_write_rows:
  "good_write u new own w \<Longrightarrow> apply_write cx now w db = Inr db' \<Longrightarrow> rows_from new db db'"
  by (cases w) (auto simp: rows_from_def simp del: apply_write.simps dest: owners_write owners_write(3) [THEN subsetD])

interpretation row_origin: step_relation "apply_write cx now" "good_write u new own" "rows_from new"
  for cx now u new own
  by unfold_locales (auto simp: rows_from_def dest: good_write_rows [unfolded rows_from_def])

lemma apply_writes_rows:
  "list_all (good_write u new own) ws \<Longrightarrow> apply_writes cx now ws db = Inr db' \<Longrightarrow> rows_from new db db'"
  using row_origin.run_R by (simp add: apply_writes_def)

section \<open>Requests and runs make good writes\<close>

lemma source_ok_rows [simp]:
  "source_ok (history_row i u tid ev now)"
  "source_ok ((history_row i u tid ev now)\<lparr>h_webhook_url := url,
     h_execution_source := Some (execution_source_value src), h_http_status := st, h_error_message := m,
     h_success := ok\<rparr>)"
  by (auto simp: source_ok_def history_row_def)

lemma good_lifecycle [simp]:
  "good_write u new own (record_task_lifecycle i now v tid ev) \<longleftrightarrow> v = u \<and> tid \<in> own"
  "good_write u new own (record_execution i now v tid src url b st m) \<longleftrightarrow> v = u \<and> tid \<in> own"
  by (auto simp: record_task_lifecycle_def record_execution_def) (auto simp: history_row_def)

text \<open>The pending writes of a handler, and the one that it may have committed itself.\<close>

definition good_out :: "rls_ctx \<Rightarrow> string \<Rightarrow> uuid set \<Rightarrow> uuid set \<Rightarrow> db \<Rightarrow> 'r handler_out \<Rightarrow> bool" where
  "good_out cx u new own db out \<longleftrightarrow>
     list_all (good_write u new own) (ho_pending out)
     \<and> (ho_db out = db
        \<or> (\<exists>now w. good_write u new own w \<and> apply_writes cx now [w] db = Inr (ho_db out)))"

lemma good_out_raises [simp]: "good_out cx u new own db (handler_raises db e)"
  and good_out_reads [simp]: "good_out cx u new own db (handler_reads db r)"
  by (simp_all add: good_out_def)

lemma good_out_and_then:
  "(\<And>x. r = Inr x \<Longrightarrow> good_out cx u new own db (f x)) \<Longrightarrow> good_out cx u new own db (and_then db r f)"
  by (cases r) simp_all

lemma good_out_map_out [simp]: "good_out cx u new own db (map_out f out) = good_out cx u new own db out"
  by (simp add: good_out_def)

lemma good_out_create:
  assumes "user_session cx (cu_user_id user)" "db_ok db" "fst ids \<in> new" "fst ids \<in> own"
  shows "good_out cx (cu_user_id user) new own db (create_task env llm cx ids user body db)"
proof (cases "ho_result (create_task env llm cx ids user body db)")
  case (Inl e)
  then show ?thesis
    by (auto simp: good_out_def create_task_def and_then_def Let_def split: sum.splits prod.splits)
next
  case (Inr r)
  from create_task_success [OF this] obtain s n task h where out:
    "create_task env llm cx ids user body db =
        \<lparr>ho_result = Inr r, ho_db = db,
         ho_pending = [InsertTask (new_task (fst ids) (cu_user_id user) (pe_clock env 0) body s n), InsertHistory h],
         ho_background = [RegisterSchedule task], ho_sent = []\<rparr>"
    and flush: "flush_and_refresh cx (pe_clock env 0) db
        (new_task (fst ids) (cu_user_id user) (pe_clock env 0) body s n) = Inr task"
    and h: "h_user_id h = cu_user_id user" "h_task_id h = t_id task" "h_execution_source h = None"
    by blast
  have "t_id task = fst ids" using flush_and_refresh_Inr(1) [OF assms(1,2) _ flush] by simp
  then show ?thesis using assms(3,4) h unfolding out by (simp add: good_out_def source_ok_def)
qed

lemma good_out_lifecycle:
  assumes "user_session cx (cu_user_id user)" "\<And>t. get_task_or_404 cx db task_id = Inr t \<Longrightarrow> t_id t \<in> own"
  shows "good_out cx (cu_user_id user) new own db (deactivate_task env cx i user task_id db)"
    and "good_out cx (cu_user_id user) new own db (activate_task env cx i user task_id db)"
    and "good_out cx (cu_user_id user) new own db (delete_task env cx i user task_id db)"
    and "good_out cx (cu_user_id user) new own db (run_task env g lib cx i user task_id db)"
proof -
  note own = assms(2)
  show "good_out cx (cu_user_id user) new own db (deactivate_task env cx i user task_id db)"
    unfolding deactivate_task_def Let_def
    by (auto intro!: good_out_and_then) (auto simp: good_out_def own)
  show "good_out cx (cu_user_id user) new own db (activate_task env cx i user task_id db)"
    unfolding activate_task_def Let_def
    by (auto intro!: good_out_and_then) (auto simp: good_out_def own)
  show "good_out cx (cu_user_id user) new own db (delete_task env cx i user task_id db)"
    unfolding delete_task_def
    by (auto intro!: good_out_and_then)
      (auto simp: good_out_def own source_ok_def dest!: recorded_history(2))
  have raised: "good_out cx u new own db ((handler_raises db e)\<lparr>ho_sent := sent\<rparr>)" for u e sent
    by (simp add: good_out_def)
  show "good_out cx (cu_user_id user) new own db (run_task env g lib cx i user task_id db)"
    unfolding run_task_def Let_def
    by (auto intro!: good_out_and_then raised split: prod.splits sum.splits)
      (auto simp: good_out_def own intro!: exI)
qed

lemma run_handler_good:
  assumes "user_session cx (cu_user_id user)" "db_ok db" "run_handler env cx user request db = Some out"
    and "fst (ap_ids env) \<in> new" "new \<subseteq> own_ids (cu_user_id user) db"
  shows "good_out cx (cu_user_id user) new (own_ids (cu_user_id user) db) db out"
proof (cases "only_reads request")
  case True
  then show ?thesis using run_handler_reads [OF assms(3)] by (simp add: good_out_def)
next
  case False
  let ?own = "own_ids (cu_user_id user) db"
  have own: "t_id t \<in> ?own" if "get_task_or_404 cx db i = Inr t" for t i
    using get_task_own [OF assms(1) that] own_ids_task [OF assms(2)] by auto
  note good = good_out_create [OF assms(1,2,4) subsetD [OF assms(5,4)]]
    good_out_lifecycle [OF assms(1) own]
  show ?thesis
    using False assms(3) by (cases request) (auto simp: run_handler_def intro!: good_out_and_then good)
qed

lemma good_out_db:
  assumes "good_out cx u new own db out" "own_inv u new own db"
  shows "own_inv u new own (ho_db out) \<and> rows_from new db (ho_db out) \<and> history_extends db (ho_db out)"
proof (cases "ho_db out = db")
  case True
  then show ?thesis using assms(2) by (simp add: row_origin.R_refl)
next
  case False
  then obtain now w where w: "list_all (good_write u new own) [w]" "apply_writes cx now [w] db = Inr (ho_db out)"
    using assms(1) by (auto simp: good_out_def)
  show ?thesis
    using apply_writes_good [OF w assms(2)] apply_writes_rows [OF w] apply_writes_history [OF w(2)] by blast
qed

text \<open>What every request keeps, whoever sends it.\<close>

lemma request_keeps:
  assumes "handle_request env http request st = Some (a, st', sent)" "db_inv (st_db st)"
    and "fst (ap_ids env) \<notin> t_id ` set (db_tasks (st_db st))"
    and "fst (ap_ids env) \<notin> h_task_id ` set (db_history (st_db st))"
  shows "db_inv (st_db st') \<and> rows_from {fst (ap_ids env)} (st_db st) (st_db st')
    \<and> history_extends (st_db st) (st_db st')"
proof (cases "authenticate (ap_auth env) (pe_clock (ap_parse env) 0) http")
  case (Inl e)
  then show ?thesis
    using assms(1,2) handle_request_refused [OF Inl, of request st] by (simp add: row_origin.R_refl)
next
  case (Inr user)
  let ?u = "cu_user_id user" and ?cx = "request_session env user" and ?db = "st_db st"
  let ?new = "{fst (ap_ids env)}" and ?own = "own_ids (cu_user_id user) (st_db st)"
  obtain out where run: "run_handler env ?cx user request ?db = Some out"
    and fin: "finish_request env ?cx request st out = (a, st')"
    using handle_request_Some [OF assms(1) Inr] by blast
  have new: "?new \<subseteq> ?own" using assms(3) by (auto simp: own_ids_def image_iff)
  have own: "own_inv ?u ?new ?own ?db"
    using assms(2,4) new by (auto simp: own_inv_def owners_def own_ids_def image_iff)
  have ok: "db_ok ?db" using assms(2) by (simp add: db_inv_def)
  have good: "good_out ?cx ?u ?new ?own ?db out"
    by (rule run_handler_good [OF authenticate_session [OF Inr] ok run singletonI new])
  note mid = good_out_db [OF good own]
  show ?thesis
    using finish_request_db [OF fin]
  proof
    assume "st_db st' = ho_db out"
    then show ?thesis using mid by (simp add: own_inv_def)
  next
    assume w: "apply_writes ?cx (pe_clock (ap_parse env) 0) (ho_pending out) (ho_db out) = Inr (st_db st')"
    have ws: "list_all (good_write ?u ?new ?own) (ho_pending out)" using good by (simp add: good_out_def)
    have "own_inv ?u ?new ?own (st_db st')"
      using apply_writes_good [OF ws w] mid by blast
    moreover have "rows_from ?new ?db (st_db st')"
      using apply_writes_rows [OF ws w] mid row_origin.R_trans by blast
    moreover have "history_extends ?db (st_db st')"
      using apply_writes_history [OF w] mid history_step.R_trans by blast
    ultimately show ?thesis by (simp add: own_inv_def)
  qed
qed

text \<open>The same for the end of a scheduled run.\<close>

lemma execution_finish_writes:
  assumes "execution_finish g i now cx task outcome db = r"
  shows "er_db r = db
    \<or> (\<exists>ws. list_all (good_write (t_user_id task) {} {t_id task}) ws \<and> apply_writes cx now ws db = Inr (er_db r))"
proof -
  let ?row = "record_execution i now (t_user_id task) (t_id task) SCHEDULED (t_webhook_url task)
      (wo_success outcome) (wo_http_status outcome) (wo_error_message outcome)"
  have "er_db r = db \<or> apply_writes cx now [?row] db = Inr (er_db r)
      \<or> apply_writes cx now [?row, UpdateTask (t_id task) False None] db = Inr (er_db r)"
    using assms unfolding execution_finish_def Let_def by (auto split: sum.splits if_splits)
  moreover have "list_all (good_write (t_user_id task) {} {t_id task}) [?row]"
    "list_all (good_write (t_user_id task) {} {t_id task}) [?row, UpdateTask (t_id task) False None]"
    by simp_all
  ultimately show ?thesis by blast
qed

lemma execution_finish_keeps:
  assumes "execution_finish g i now cx task outcome db = r" "db_inv db"
    and "\<And>v. (t_id task, v) \<in> set (owners db) \<Longrightarrow> v = t_user_id task"
  shows "db_inv (er_db r) \<and> rows_from {} db (er_db r) \<and> history_extends db (er_db r)"
proof (cases "er_db r = db")
  case True
  then show ?thesis using assms(2) by (simp add: row_origin.R_refl)
next
  case False
  then obtain ws where w: "list_all (good_write (t_user_id task) {} {t_id task}) ws"
    "apply_writes cx now ws db = Inr (er_db r)"
    using execution_finish_writes [OF assms(1)] by blast
  have "own_inv (t_user_id task) {} {t_id task} db" using assms(2,3) by (auto simp: own_inv_def)
  from apply_writes_good [OF w this] show ?thesis
    using apply_writes_rows [OF w] apply_writes_history [OF w(2)] by (simp add: own_inv_def)
qed

section \<open>The invariant of the system\<close>

definition running_owned :: "'t system \<Rightarrow> bool" where
  "running_owned s \<longleftrightarrow>
     (\<forall>(cx, task, outcome) \<in> set (sy_running s). \<forall>v. (t_id task, v) \<in> set (owners (st_db (sy_app s))) \<longrightarrow>
        v = t_user_id task)"

definition system_inv :: "'t system \<Rightarrow> bool" where
  "system_inv s \<longleftrightarrow> db_inv (st_db (sy_app s)) \<and> running_owned s"

lemma running_owned_rows:
  assumes "running_owned s" "rows_from new (st_db (sy_app s)) db'"
    and "\<forall>(cx, task, outcome) \<in> set (sy_running s). t_id task \<notin> new"
    and "st_db (sy_app s') = db'" "set (sy_running s') \<subseteq> set (sy_running s)"
  shows "running_owned s'"
  using assms unfolding running_owned_def rows_from_def by fastforce

lemma system_step_keeps:
  assumes "system_step background_first lossy g lib s t" "system_inv s"
  shows "system_inv t \<and> history_extends (st_db (sy_app s)) (st_db (sy_app t))"
  using assms
proof (cases rule: system_step.cases)
  case (request env http request a st' sent)
  have inv: "db_inv (st_db (sy_app s))" "running_owned s" using assms(2) by (simp_all add: system_inv_def)
  have fresh: "fst (ap_ids env) \<notin> t_id ` set (db_tasks (st_db (sy_app s)))"
    "fst (ap_ids env) \<notin> h_task_id ` set (db_history (st_db (sy_app s)))"
    "\<forall>(cx, task, outcome) \<in> set (sy_running s). t_id task \<notin> {fst (ap_ids env)}"
    using request(3) by (auto simp: fresh_id_def image_iff)
  note keeps = request_keeps [OF request(4) inv(1) fresh(1,2)]
  have "running_owned t"
    by (rule running_owned_rows [OF inv(2) _ fresh(3), where db' = "st_db st'"])
      (use keeps request(1) in simp_all)
  then show ?thesis using keeps request(1) by (simp add: system_inv_def)
next
  case (run_starts key trigger task_id now cx task outcome sent)
  have inv: "db_inv (st_db (sy_app s))" "running_owned s" using assms(2) by (simp_all add: system_inv_def)
  obtain factory where "load_task (set_scheduler_rls factory) (st_db (sy_app s)) task_id = Inr (Some task)"
    using run_starts(3) by (auto simp: execution_begin_def Let_def split: option.splits sum.splits prod.splits if_splits)
  then have "task \<in> set (db_tasks (st_db (sy_app s)))" by (rule load_task_Inr(1))
  then have "v = t_user_id task" if "(t_id task, v) \<in> set (owners (st_db (sy_app s)))" for v
    using that inv(1) same_id by (auto simp: owners_def db_inv_def)
  then show ?thesis
    using inv run_starts(1) by (auto simp: system_inv_def running_owned_def)
next
  case (run_ends before cx task outcome after i now r)
  have inv: "db_inv (st_db (sy_app s))" "running_owned s" using assms(2) by (simp_all add: system_inv_def)
  have "v = t_user_id task" if "(t_id task, v) \<in> set (owners (st_db (sy_app s)))" for v
    using that inv(2) run_ends(2) by (auto simp: running_owned_def)
  note keeps = execution_finish_keeps [OF run_ends(3) inv(1) this]
  have "running_owned t"
    by (rule running_owned_rows [OF inv(2), where new = "{}" and db' = "er_db r"])
      (use keeps run_ends(1,2) in auto)
  then show ?thesis using keeps run_ends(1) by (simp add: system_inv_def)
next
  case (schedule_over key)
  then show ?thesis using assms(2) by (simp add: system_inv_def running_owned_def)
qed

lemma reachable_system_inv: "reachable background_first lossy g lib s \<Longrightarrow> system_inv s"
proof (induction rule: reachable.induct)
  case start
  show ?case
    by (simp add: initial_system_def system_inv_def db_inv_def db_ok_def paused_ok_def history_owned_def
        running_owned_def)
next
  case (step s t)
  then show ?case using system_step_keeps by blast
qed

section \<open>Schedules and active tasks\<close>

text \<open>Every schedule is the schedule of an active task, with the task's id as its argument.\<close>

definition schedules_ok :: "task_view \<Rightarrow> 't schedules \<Rightarrow> bool" where
  "schedules_ok m sch \<longleftrightarrow>
     (\<forall>key trigger args. sch key = Some (trigger, args) \<longrightarrow>
        (\<exists>i \<in> active_ids m. key = uuid_str i) \<and> args = [key])"

lemma schedules_ok_mono: "schedules_ok m sch \<Longrightarrow> active_ids m \<subseteq> active_ids m' \<Longrightarrow> schedules_ok m' sch"
  unfolding schedules_ok_def by blast

lemma schedules_ok_remove:
  "schedules_ok m sch \<Longrightarrow> active_ids m - {i} \<subseteq> active_ids m' \<Longrightarrow> schedules_ok m' (sch(uuid_str i := None))"
  unfolding schedules_ok_def by (auto split: if_splits) blast

lemma schedules_ok_add:
  "schedules_ok m sch \<Longrightarrow> i \<in> active_ids m \<Longrightarrow> schedules_ok m (sch(uuid_str i \<mapsto> (trigger, [uuid_str i])))"
  unfolding schedules_ok_def by auto

lemma commit_ok_schedules:
  assumes "schedules_ok m sch" "commit_ok m m' bs"
  shows "schedules_ok m' (snd (run_backgrounds env bs sch))"
  using assms(2) unfolding commit_ok_def
proof (elim disjE exE conjE)
  assume "bs = []" "active_ids m \<subseteq> active_ids m'"
  then show ?thesis using assms(1) schedules_ok_mono by auto
next
  fix t assume t: "bs = [RegisterSchedule t]" "t_id t \<in> active_ids m'" "active_ids m \<subseteq> active_ids m'"
  have "schedules_ok m' sch" using assms(1) t(3) by (rule schedules_ok_mono)
  then show ?thesis
    using t(1,2) schedules_ok_add
    by (auto simp: run_background_def register_schedule_def rbind_def split: sum.splits)
next
  fix i assume i: "bs = [UnregisterSchedule i]" "active_ids m - {i} \<subseteq> active_ids m'"
  then show ?thesis
    using schedules_ok_remove [OF assms(1) i(2)] by (simp add: run_background_def unregister_schedule_def)
qed

text \<open>A background task that fails is the only one, and changes nothing.\<close>

lemma failed_background:
  assumes "commit_ok m m' bs" "\<not> fst (run_backgrounds env bs sch)"
  shows "snd (run_backgrounds env bs sch) = sch"
  using assms by (auto simp: commit_ok_def split: sum.splits)

lemma request_schedules:
  assumes "handle_request env http request st = Some (a, st', sent)" "\<not> commit_lost env http request st"
    and "db_ok (st_db st)" "schedules_ok (view (st_db st)) (st_schedules st)"
  shows "schedules_ok (view (st_db st')) (st_schedules st')"
proof (cases "authenticate (ap_auth env) (pe_clock (ap_parse env) 0) http")
  case (Inl e)
  then show ?thesis using assms handle_request_refused [OF Inl, of request st] by simp
next
  case (Inr user)
  let ?cx = "request_session env user"
  obtain out where run: "run_handler env ?cx user request (st_db st) = Some out"
    and fin: "finish_request env ?cx request st out = (a, st')"
    using handle_request_Some [OF assms(1) Inr] by blast
  note commit = run_handler_commit [OF authenticate_session [OF Inr] assms(3) run]
  let ?commit = "apply_writes ?cx (pe_clock (ap_parse env) 0) (ho_pending out) (ho_db out)"
  let ?runs = "run_backgrounds env (ho_background out) (st_schedules st)"
  consider b db' where "ho_result out = Inr b" "?commit = Inr db'" "st_db st' = db'" "st_schedules st' = snd ?runs"
    | b db' where "ho_result out = Inr b" "?commit = Inr db'" "\<not> fst ?runs" "st_db st' = ho_db out" "st_schedules st' = snd ?runs"
    | "view (st_db st') = view (ho_db out)" "st_schedules st' = st_schedules st"
    using fin assms(2) Inr run
    by (auto simp: finish_request_def commit_lost_def Let_def split: sum.splits prod.splits if_splits)
  then show ?thesis
  proof cases
    case 1
    moreover have "commit_ok (view (st_db st)) (view db') (ho_background out)" using commit [OF 1(1,2)] by blast
    ultimately show ?thesis using commit_ok_schedules [OF assms(4)] by metis
  next
    case 2
    have "commit_ok (view (st_db st)) (view db') (ho_background out)" using commit [OF 2(1,2)] by blast
    then have "st_schedules st' = st_schedules st" using 2(3,5) failed_background by metis
    then show ?thesis using 2(4) assms(4) run_handler_view [OF run] by simp
  next
    case 3
    then show ?thesis using assms(4) run_handler_view [OF run] by simp
  qed
qed

lemma execution_finish_schedules:
  assumes "execution_finish g i now cx task outcome db = r" "g_scheduler g" "db_ok db"
    and "schedules_ok (view db) sch"
  shows "schedules_ok (view (er_db r)) (apply_scheds (er_calls r) sch)"
proof -
  let ?row = "record_execution i now (t_user_id task) (t_id task) SCHEDULED (t_webhook_url task)
      (wo_success outcome) (wo_http_status outcome) (wo_error_message outcome)"
  have row: "db_tasks db' = db_tasks db" "db_ok db'" if "apply_write cx now ?row db = Inr db'" for db'
    using history_write_tasks [OF that [unfolded record_execution_def]] apply_write_db_ok [OF that assms(3)]
    by blast+
  have same: "view db' = view db" if "apply_writes cx now [?row] db = Inr db'" for db'
    using that row(1) by (intro view_same) (simp add: apply_writes_simps rbind_eq_Inr del: apply_write.simps)
  have "er_calls r = [] \<and> (er_db r = db \<or> apply_writes cx now [?row] db = Inr (er_db r))
      \<or> er_calls r = [RemoveSchedule (uuid_str (t_id task))]
        \<and> apply_writes cx now [?row, UpdateTask (t_id task) False None] db = Inr (er_db r)"
    using assms(1,2) unfolding execution_finish_def Let_def by (auto split: sum.splits if_splits)
  then consider "view (er_db r) = view db" "er_calls r = []"
    | db1 where "apply_write cx now ?row db = Inr db1"
        "apply_write cx now (UpdateTask (t_id task) False None) db1 = Inr (er_db r)"
        "er_calls r = [RemoveSchedule (uuid_str (t_id task))]"
    using same by (auto simp: apply_writes_simps rbind_eq_Inr simp del: apply_write.simps)
  then show ?thesis
  proof cases
    case 1
    then show ?thesis using assms(4) by (simp add: apply_scheds_def)
  next
    case 2
    note db1 = row [OF 2(1)]
    obtain t where t: "t \<in> set (db_tasks db1)" "t_id t = t_id task" "task_allowed cx (t_user_id t)"
      using 2(2) by (auto split: if_splits)
    have "view (er_db r) = (view db)(t_id task \<mapsto> (t_user_id t, False))"
      using view_update [OF db1(2) 2(2) t] view_same [OF db1(1)] by simp
    then have "active_ids (view db) - {t_id task} \<subseteq> active_ids (view (er_db r))"
      by (simp add: active_ids_upd)
    then show ?thesis
      using schedules_ok_remove [OF assms(4)] 2(3) by (simp add: apply_scheds_def)
  qed
qed

lemma system_step_schedules:
  assumes "system_step background_first lossy g lib s t" "\<not> (background_first \<and> lossy)" "g_scheduler g"
    and "db_ok (st_db (sy_app s))" "schedules_ok (view (st_db (sy_app s))) (st_schedules (sy_app s))"
  shows "schedules_ok (view (st_db (sy_app t))) (st_schedules (sy_app t))"
  using assms(1)
proof (cases rule: system_step.cases)
  case (request env http request a st' sent)
  then have "\<not> commit_lost env http request (sy_app s)" using assms(2) by (auto simp: commit_lost_def)
  then show ?thesis using request_schedules [OF request(4)] request(1) assms(4,5) by simp
next
  case (run_ends before cx task outcome after i now r)
  then show ?thesis using execution_finish_schedules [OF run_ends(3) assms(3-5)] by simp
next
  case (schedule_over key)
  then show ?thesis using assms(5) by (auto simp: schedules_ok_def split: if_splits)
qed (use assms(5) in simp)

lemma reachable_schedules_ok:
  "reachable background_first lossy g lib s \<Longrightarrow> \<not> (background_first \<and> lossy) \<Longrightarrow> g_scheduler g \<Longrightarrow>
     schedules_ok (view (st_db (sy_app s))) (st_schedules (sy_app s))"
proof (induction rule: reachable.induct)
  case start
  show ?case by (simp add: initial_system_def schedules_ok_def)
next
  case (step s t)
  have "db_ok (st_db (sy_app s))"
    using reachable_system_inv [OF step.hyps(1)] by (simp add: system_inv_def db_inv_def)
  then show ?case using step.IH [OF step.prems] system_step_schedules [OF step.hyps(2) step.prems] by blast
qed

text \<open>A successful creation: what the handler leaves to do, and that all of it succeeds.\<close>

lemma create_request_parts:
  assumes "authenticate (ap_auth env) (pe_clock (ap_parse env) 0) http = Inr user"
    and "fst (ap_ids env) \<notin> t_id ` set (db_tasks db)" "snd (ap_ids env) \<notin> h_id ` set (db_history db)"
    and "validate_trigger (pe_runtime (ap_parse env)) body = Inr spec"
    and "resolve_or_422 (ap_parse env) (ap_llm env) spec = Inr (s, k)"
    and "schedulable (pe_runtime (ap_parse env)) s" "fits_history s"
    and "compute_next_run_at (pe_aps (ap_parse env)) (pe_runtime (ap_parse env)) (pe_clock (ap_parse env) k) s
           = Inr next_run_at"
    and "build_trigger (pe_aps (ap_parse env)) (pe_runtime (ap_parse env)) (pe_clock (ap_parse env) 0) (restored s)
           = Inr trigger"
  shows "\<exists>new row task answer.
      run_handler env (request_session env user) user (CreateTaskRequest url parameters body) db
        = Some \<lparr>ho_result = Inr answer, ho_db = db, ho_pending = [InsertTask new, InsertHistory row],
                ho_background = [RegisterSchedule task], ho_sent = []\<rparr>
    \<and> apply_writes (request_session env user) (pe_clock (ap_parse env) 0) [InsertTask new, InsertHistory row] db
        = Inr \<lparr>db_tasks = db_tasks db @ [task],
               db_history = db_history db @ [stored_history (pe_clock (ap_parse env) 0) row]\<rparr>
    \<and> (\<forall>m. run_background env (RegisterSchedule task) m
        = Inr (m(uuid_str (fst (ap_ids env)) \<mapsto> (trigger, [uuid_str (fst (ap_ids env))]))))
    \<and> t_id task = fst (ap_ids env) \<and> t_is_active task \<and> t_user_id task = cu_user_id user
    \<and> t_webhook_url task = url \<and> t_parameters task = parameters \<and> t_next_run_at task = map_option stored_time next_run_at
    \<and> stores_spec task s \<and> h_event_type row = event_type_value TASK_CREATED \<and> h_task_id row = t_id task
    \<and> h_id row = snd (ap_ids env) \<and> h_user_id row = cu_user_id user"
proof -
  let ?env = "ap_parse env" and ?cx = "request_session env user"
  let ?now = "pe_clock (ap_parse env) 0" and ?i = "fst (ap_ids env)"
  let ?body = "\<lparr>tc_webhook_url = url, tc_parameters = parameters, tc_trigger = spec\<rparr>"
  have session: "user_session ?cx (cu_user_id user)" by (rule authenticate_session [OF assms(1)])
  have spec: "resolve_or_422 ?env (ap_llm env) (tc_trigger ?body) = Inr (s, k)" using assms(5) by simp
  define new where "new = new_task ?i (cu_user_id user) ?now ?body s next_run_at"
  define task where "task = stored_task ?now new"
  define row where "row = spec_row task s
      (history_row (snd (ap_ids env)) (cu_user_id user) ?i TASK_CREATED ?now)"
  obtain resp where run: "create_task ?env (ap_llm env) ?cx (ap_ids env) user ?body db
      = \<lparr>ho_result = Inr resp, ho_db = db, ho_pending = [InsertTask new, InsertHistory row],
         ho_background = [RegisterSchedule task], ho_sent = []\<rparr>"
    using create_task_run [OF session assms(2) spec assms(6,8) refl new_def task_def] unfolding row_def by blast
  let ?db1 = "db\<lparr>db_tasks := db_tasks db @ [task]\<rparr>"
  have w1: "apply_write ?cx ?now (InsertTask new) db = Inr ?db1"
    unfolding task_def using session assms(2) by (intro task_inserted) (simp_all add: new_def)
  have w2: "apply_write ?cx ?now (InsertHistory row) ?db1
      = Inr (?db1\<lparr>db_history := db_history ?db1 @ [stored_history ?now row]\<rparr>)"
    unfolding row_def using session assms(3,7) by (intro spec_row_inserted) simp_all
  have commit: "apply_writes ?cx ?now [InsertTask new, InsertHistory row] db
      = Inr \<lparr>db_tasks = db_tasks db @ [task], db_history = db_history db @ [stored_history ?now row]\<rparr>"
    by (simp only: apply_writes_simps w1 w2 rbind_Inr) (cases db, simp)
  have background: "run_background env (RegisterSchedule task) m
      = Inr (m(uuid_str ?i \<mapsto> (trigger, [uuid_str ?i])))" for m
    unfolding task_def new_def by (rule new_task_registered [OF assms(6,9)])
  have "stores_spec task s" using stores_new_task unfolding task_def new_def by blast
  moreover have "h_event_type row = event_type_value TASK_CREATED" "h_task_id row = t_id task"
    "h_id row = snd (ap_ids env)" "h_user_id row = cu_user_id user"
    by (simp_all add: row_def spec_row_def history_row_def task_def new_def)
  moreover have "t_id task = ?i" "t_is_active task" "t_user_id task = cu_user_id user" "t_webhook_url task = url"
    "t_parameters task = parameters" "t_next_run_at task = map_option stored_time next_run_at"
    by (simp_all add: task_def new_def)
  ultimately show ?thesis
    using assms(4) run commit background
    by (intro exI [of _ new] exI [of _ row] exI [of _ task] exI [of _ "TaskBody resp"])
      (simp add: run_handler_def request_check_def)
qed

text \<open>The whole of it, up to the start of the first run.\<close>

lemma create_request_fires:
  assumes "authenticate (ap_auth env) (pe_clock (ap_parse env) 0) http = Inr user" "db_ok (st_db st)"
    and "fst (ap_ids env) \<notin> t_id ` set (db_tasks (st_db st))"
    and "snd (ap_ids env) \<notin> h_id ` set (db_history (st_db st))"
    and "validate_trigger (pe_runtime (ap_parse env)) body = Inr spec"
    and "resolve_or_422 (ap_parse env) (ap_llm env) spec = Inr (s, k)"
    and "schedulable (pe_runtime (ap_parse env)) s" "fits_history s"
    and "compute_next_run_at (pe_aps (ap_parse env)) (pe_runtime (ap_parse env)) (pe_clock (ap_parse env) k) s
           = Inr next_run_at"
    and "build_trigger (pe_aps (ap_parse env)) (pe_runtime (ap_parse env)) (pe_clock (ap_parse env) 0) (restored s)
           = Inr trigger"
    and "g_session_factory g = Some (new_session bypass returning)"
  shows "\<exists>answer st' task.
      handle_request env http (CreateTaskRequest url parameters body) st = Some (Answer 201 answer, st', [])
    \<and> st_schedules st' (uuid_str (fst (ap_ids env))) = Some (trigger, [uuid_str (fst (ap_ids env))])
    \<and> db_tasks (st_db st') = db_tasks (st_db st) @ [task]
    \<and> t_user_id task = cu_user_id user \<and> t_webhook_url task = url \<and> t_parameters task = parameters
    \<and> (\<forall>outcome sent. fire_task_webhook g lib later task = (Inr outcome, sent) \<longrightarrow>
         execution_begin g lib later (st_db st') (uuid_str (fst (ap_ids env)))
           = (ExecutionFired (set_scheduler_rls (new_session bypass returning)) task outcome, sent))"
proof -
  let ?cx = "request_session env user" and ?db = "st_db st" and ?i = "fst (ap_ids env)"
  let ?now = "pe_clock (ap_parse env) 0"
  obtain new row task answer where run:
    "run_handler env ?cx user (CreateTaskRequest url parameters body) ?db
      = Some \<lparr>ho_result = Inr answer, ho_db = ?db, ho_pending = [InsertTask new, InsertHistory row],
              ho_background = [RegisterSchedule task], ho_sent = []\<rparr>"
    and commit: "apply_writes ?cx ?now [InsertTask new, InsertHistory row] ?db
      = Inr \<lparr>db_tasks = db_tasks ?db @ [task], db_history = db_history ?db @ [stored_history ?now row]\<rparr>"
    and background: "\<forall>m. run_background env (RegisterSchedule task) m = Inr (m(uuid_str ?i \<mapsto> (trigger, [uuid_str ?i])))"
    and task: "t_id task = ?i" "t_is_active task" "t_user_id task = cu_user_id user" "t_webhook_url task = url"
      "t_parameters task = parameters"
    using create_request_parts [OF assms(1,3-10)] by metis
  let ?db2 = "\<lparr>db_tasks = db_tasks ?db @ [task], db_history = db_history ?db @ [stored_history ?now row]\<rparr>"
  let ?st = "\<lparr>st_db = ?db2, st_schedules = (st_schedules st)(uuid_str ?i \<mapsto> (trigger, [uuid_str ?i]))\<rparr>"
  have handled: "handle_request env http (CreateTaskRequest url parameters body) st
      = Some (Answer 201 answer, ?st, [])"
    using assms(1) run commit background
    by (cases "ap_background_first env") (simp_all add: handle_request_def finish_request_def success_status_def)
  have ok: "db_ok ?db2" by (rule apply_writes_db_ok [OF commit assms(2)])
  have "execution_begin g lib later ?db2 (uuid_str ?i)
      = (ExecutionFired (set_scheduler_rls (new_session bypass returning)) task outcome, sent)"
    if "fire_task_webhook g lib later task = (Inr outcome, sent)" for outcome sent
    using that assms(11) load_task_found [OF ok, of task bypass returning] task by (simp add: execution_begin_def)
  then show ?thesis
    using task by (intro exI [of _ answer] exI [of _ ?st] exI [of _ task]) (simp add: handled)
qed

section \<open>Properties\<close>

text \<open>
  The invariant of the service, in every state that any interleaving of requests of all users
  and of scheduled runs can reach: the ids of tasks and of history rows are distinct, every
  history row satisfies the constraint of its table and has a known source, an inactive task has
  no next fire time, and the history of a task belongs to the owner of the task. No step ever
  loses or changes a history row.
\<close>

theorem reachable_invariant:
  assumes "reachable background_first lossy g lib s"
  shows "distinct (map t_id (db_tasks (st_db (sy_app s))))
    \<and> distinct (map h_id (db_history (st_db (sy_app s))))
    \<and> (\<forall>h \<in> set (db_history (st_db (sy_app s))). task_history_event_shape h \<and> source_ok h)
    \<and> (\<forall>t \<in> set (db_tasks (st_db (sy_app s))). \<not> t_is_active t \<longrightarrow> t_next_run_at t = None)
    \<and> (\<forall>t \<in> set (db_tasks (st_db (sy_app s))). \<forall>h \<in> set (db_history (st_db (sy_app s))).
         h_task_id h = t_id t \<longrightarrow> h_user_id h = t_user_id t)
    \<and> (\<forall>t. system_step background_first lossy g lib s t \<longrightarrow>
         (\<exists>rows. db_history (st_db (sy_app t)) = db_history (st_db (sy_app s)) @ rows))"
proof -
  have inv: "system_inv s" by (rule reachable_system_inv [OF assms])
  then have "history_extends (st_db (sy_app s)) (st_db (sy_app t))" if "system_step background_first lossy g lib s t" for t
    using system_step_keeps [OF that] by blast
  then show ?thesis
    using inv by (auto simp: system_inv_def db_inv_def db_ok_def paused_ok_def history_owned_def owners_def
        history_extends_def list_all_iff history_row_ok_def)
qed

text \<open>
  (C11) Whichever comes first at the end of a request, its commit or its background tasks: as long as
  no request has lost its commit after its background tasks had run, every schedule in every
  reachable state is the schedule of an active task and fires with the id of that task. No deleted,
  deactivated or finished task, and no task that was never stored, keeps firing. When the commit
  comes first, no request can lose it in this way and the proviso is empty.
\<close>

theorem reachable_schedules_active:
  assumes "reachable background_first lossy g lib s" "\<not> (background_first \<and> lossy)" "g_scheduler g"
    and "st_schedules (sy_app s) key = Some (trigger, args)"
  shows "\<exists>t \<in> set (db_tasks (st_db (sy_app s))). t_is_active t \<and> key = uuid_str (t_id t) \<and> args = [key]"
proof -
  have "schedules_ok (view (st_db (sy_app s))) (st_schedules (sy_app s))"
    by (rule reachable_schedules_ok [OF assms(1-3)])
  then have sch: "(\<exists>i \<in> active_ids (view (st_db (sy_app s))). key = uuid_str i) \<and> args = [key]"
    using assms(4) unfolding schedules_ok_def by blast
  then obtain i u where i: "view (st_db (sy_app s)) i = Some (u, True)" "key = uuid_str i"
    by (auto simp: active_ids_def)
  have "db_ok (st_db (sy_app s))"
    using reachable_system_inv [OF assms(1)] by (simp add: system_inv_def db_inv_def)
  then show ?thesis using i sch view_Some by auto
qed

text \<open>
  (C9) From the request to the webhook. After a successful creation, in either order at the end of
  the request, the scheduler holds a schedule under the new task's id that fires with that id; and
  when it fires, the run finds the stored task and sends its webhook, to the address and with the
  parameters of the request, for the user of the request.
\<close>

theorem created_task_fires:
  assumes "authenticate (ap_auth env) (pe_clock (ap_parse env) 0) http = Inr user" "db_ok (st_db st)"
    and "fst (ap_ids env) \<notin> t_id ` set (db_tasks (st_db st))"
    and "snd (ap_ids env) \<notin> h_id ` set (db_history (st_db st))"
    and "validate_trigger (pe_runtime (ap_parse env)) body = Inr spec"
    and "resolve_or_422 (ap_parse env) (ap_llm env) spec = Inr (s, k)"
    and "schedulable (pe_runtime (ap_parse env)) s" "fits_history s"
    and "compute_next_run_at (pe_aps (ap_parse env)) (pe_runtime (ap_parse env)) (pe_clock (ap_parse env) k) s
           = Inr next_run_at"
    and "build_trigger (pe_aps (ap_parse env)) (pe_runtime (ap_parse env)) (pe_clock (ap_parse env) 0) (restored s)
           = Inr trigger"
    and "g_session_factory g = Some (new_session bypass returning)"
  shows "\<exists>answer st' task.
      handle_request env http (CreateTaskRequest url parameters body) st = Some (Answer 201 answer, st', [])
    \<and> st_schedules st' (uuid_str (fst (ap_ids env))) = Some (trigger, [uuid_str (fst (ap_ids env))])
    \<and> db_tasks (st_db st') = db_tasks (st_db st) @ [task]
    \<and> t_user_id task = cu_user_id user \<and> t_webhook_url task = url \<and> t_parameters task = parameters
    \<and> (\<forall>outcome sent. fire_task_webhook g lib later task = (Inr outcome, sent) \<longrightarrow>
         execution_begin g lib later (st_db st') (uuid_str (fst (ap_ids env)))
           = (ExecutionFired (set_scheduler_rls (new_session bypass returning)) task outcome, sent))"
  by (rule create_request_fires [OF assms])

section \<open>Witnesses\<close>

text \<open>A user creates a task that runs every hour, in an empty system.\<close>

definition empty_state :: "demo_trigger app_state" where
  "empty_state = \<lparr>st_db = empty_db, st_schedules = Map.empty\<rparr>"

lemma empty_state_simps [simp]:
  "st_db empty_state = empty_db" "db_tasks empty_db = []" "db_history empty_db = []"
  by (simp_all add: empty_state_def empty_db_def)

definition hourly :: demo_trigger where
  "hourly = DemoEvery (instant frozen_time) (3600 * us_per_second)"

lemma hourly_setup:
  "authenticate (ap_auth (demo_app b)) (pe_clock (ap_parse (demo_app b)) 0) demo_http = Inr demo_user"
  "db_ok (st_db empty_state)" "fst (ap_ids (demo_app b)) \<notin> t_id ` set (db_tasks (st_db empty_state))"
  "snd (ap_ids (demo_app b)) \<notin> h_id ` set (db_history (st_db empty_state))"
  "validate_trigger (pe_runtime (ap_parse (demo_app b))) (BodyInterval 3600) = Inr (Structured (IntervalTriggerSpec 3600))"
  "resolve_or_422 (ap_parse (demo_app b)) (ap_llm (demo_app b)) (Structured (IntervalTriggerSpec 3600))
     = Inr (IntervalTriggerSpec 3600, 0)"
  "schedulable (pe_runtime (ap_parse (demo_app b))) (IntervalTriggerSpec 3600)"
  "fits_history (IntervalTriggerSpec 3600)"
  "compute_next_run_at (pe_aps (ap_parse (demo_app b))) (pe_runtime (ap_parse (demo_app b)))
     (pe_clock (ap_parse (demo_app b)) 0) (IntervalTriggerSpec 3600) = Inr (Some frozen_time)"
  "build_trigger (pe_aps (ap_parse (demo_app b))) (pe_runtime (ap_parse (demo_app b)))
     (pe_clock (ap_parse (demo_app b)) 0) (restored (IntervalTriggerSpec 3600)) = Inr hourly"
  using demo_authenticated demo_next_run
  by (simp_all add: db_ok_def mk_interval_spec_def resolve_or_422_def resolve_trigger_spec_def hourly_def
      demo_aps_def)

lemma demo_factory: "g_session_factory (demo_globals True True 200) = Some (new_session True True)"
  "g_scheduler (demo_globals True True 200)"
  by (simp_all add: demo_globals_def init_executor_def)

lemma created_task_fires_witness:
  "\<exists>answer st' task.
      handle_request (demo_app True) demo_http (CreateTaskRequest ''https://example.com/hook'' [] (BodyInterval 3600))
        empty_state = Some (Answer 201 answer, st', [])
    \<and> st_schedules st' (uuid_str 7) = Some (hourly, [uuid_str 7])
    \<and> db_tasks (st_db st') = [task] \<and> t_webhook_url task = ''https://example.com/hook''"
  using created_task_fires [OF hourly_setup demo_factory(1), where b1 = True
      and url = "''https://example.com/hook''" and parameters = "[]" and lib = demo_jwt and later = frozen_time]
  by auto

text \<open>In the order of the framework that the project requires, and with a commit that is not lost.\<close>

lemma demo_reached:
  "\<exists>s. reachable True False (demo_globals True True 200) demo_jwt s
    \<and> st_schedules (sy_app s) (uuid_str 7) = Some (hourly, [uuid_str 7])
    \<and> length (db_tasks (st_db (sy_app s))) = 1"
proof -
  let ?env = "demo_app True" and ?request = "CreateTaskRequest ''https://example.com/hook'' [] (BodyInterval 3600)"
  obtain answer st' task where h: "handle_request ?env demo_http ?request empty_state = Some (Answer 201 answer, st', [])"
    "st_schedules st' (uuid_str 7) = Some (hourly, [uuid_str 7])" "db_tasks (st_db st') = [task]"
    using create_request_fires [OF hourly_setup demo_factory(1), where b1 = True
      and url = "''https://example.com/hook''" and parameters = "[]" and lib = demo_jwt and later = frozen_time]
    by auto
  have init: "sy_app initial_system = empty_state"
    by (simp add: initial_system_def empty_state_def empty_db_def)
  have "fresh_id (fst (ap_ids ?env)) (initial_system :: demo_trigger system)"
    by (simp add: fresh_id_def init) (simp add: initial_system_def)
  moreover have "\<not> commit_lost ?env demo_http ?request empty_state"
    using create_request_parts [OF hourly_setup(1,3-10), where b1 = True and url = "''https://example.com/hook''"
        and parameters = "[]"] hourly_setup(1) [of True]
    by (auto simp: commit_lost_def split: option.splits sum.splits)
  ultimately have "system_step True False (demo_globals True True 200) demo_jwt initial_system (initial_system\<lparr>sy_app := st'\<rparr>)"
    using h(1) by (intro system_step.request [where env = ?env]) (simp_all add: init)
  then have "reachable True False (demo_globals True True 200) demo_jwt (initial_system\<lparr>sy_app := st'\<rparr>)"
    by (rule reachable.step [OF reachable.start])
  then show ?thesis using h by (intro exI [of _ "initial_system\<lparr>sy_app := st'\<rparr>"]) simp
qed

lemma reachable_invariant_witness:
  "\<exists>s :: demo_trigger system. length (db_tasks (st_db (sy_app s))) = 1
    \<and> (\<forall>t \<in> set (db_tasks (st_db (sy_app s))). \<not> t_is_active t \<longrightarrow> t_next_run_at t = None)
    \<and> (\<forall>h \<in> set (db_history (st_db (sy_app s))). task_history_event_shape h \<and> source_ok h)"
proof -
  obtain s :: "demo_trigger system" where "reachable True False (demo_globals True True 200) demo_jwt s"
    "length (db_tasks (st_db (sy_app s))) = 1"
    using demo_reached by blast
  then show ?thesis using reachable_invariant by blast
qed

lemma reachable_schedules_active_witness:
  "\<exists>s. reachable True False (demo_globals True True 200) demo_jwt s
    \<and> st_schedules (sy_app s) (uuid_str 7) = Some (hourly, [uuid_str 7])
    \<and> (\<exists>t \<in> set (db_tasks (st_db (sy_app s))). t_is_active t \<and> uuid_str 7 = uuid_str (t_id t))"
proof -
  obtain s where s: "reachable True False (demo_globals True True 200) demo_jwt s"
    "st_schedules (sy_app s) (uuid_str 7) = Some (hourly, [uuid_str 7])"
    using demo_reached by blast
  show ?thesis using reachable_schedules_active [OF s(1) _ demo_factory(2) s(2)] s by blast
qed

end
