(* ===== verification/Interleaving.thy ===== *)
theory Interleaving
  imports App_System
begin

text \<open>
  Requests that overlap. In \<open>App_System\<close> a request is one step; here it is as many as the event loop
  may make of it. The handler reads the database and answers; its commit and its background tasks
  are steps of their own, in the order of the framework, and everything else may come in between:
  other requests, fire times of the scheduler, jobs that it starts, the ends of running jobs. The
  scheduler is the one of APScheduler: a schedule that is due puts a job in the queue and moves its
  trigger on, and is over when its trigger has no further fire time.

  A column that keeps its value is not written by the mapper; \<open>UpdateTask\<close> writes both columns. The
  two differ only for a row whose next fire time was empty when it was read and is set by somebody
  else before the commit, which needs a trigger that gains a fire time after it had none.
\<close>

section \<open>A request in steps\<close>

datatype action = Commit rls_ctx datetime "db_write list" | Background background

definition request_actions :: "'t app_env \<Rightarrow> rls_ctx \<Rightarrow> 'r handler_out \<Rightarrow> action list" where
  "request_actions env cx out =
     (case ho_result out of
        Inl e \<Rightarrow> []
      | Inr _ \<Rightarrow>
          let commit = Commit cx (pe_clock (ap_parse env) 0) (ho_pending out);
              background = map Background (ho_background out)
          in if ap_background_first env then background @ [commit] else commit # background)"

fun run_action :: "'t app_env \<Rightarrow> action \<Rightarrow> 't app_state \<Rightarrow> 't app_state result" where
  "run_action env (Commit cx now ws) st =
     rbind (apply_writes cx now ws (st_db st)) (\<lambda>db. Inr (st\<lparr>st_db := db\<rparr>))"
| "run_action env (Background b) st =
     rbind (run_background env b (st_schedules st)) (\<lambda>m. Inr (st\<lparr>st_schedules := m\<rparr>))"

text \<open>The rest of a request when nothing comes in between: the first failure ends it.\<close>

fun run_actions :: "'t app_env \<Rightarrow> action list \<Rightarrow> 't app_state \<Rightarrow> 't app_state" where
  "run_actions env [] st = st"
| "run_actions env (a # as) st =
     (case run_action env a st of Inl e \<Rightarrow> st | Inr st' \<Rightarrow> run_actions env as st')"

section \<open>The service\<close>

text \<open>A request that has been answered by its handler: what is left to do for it.\<close>

record 't flight =
  fl_env :: "'t app_env"
  fl_user :: string
  fl_actions :: "action list"

record 't service =
  sv_app :: "'t app_state"
  sv_flights :: "nat \<Rightarrow> 't flight option"
  sv_jobs :: "string list"
  sv_runs :: "nat \<Rightarrow> (rls_ctx \<times> scheduled_task \<times> webhook_fire_outcome) option"

definition initial_service :: "'t service" where
  "initial_service =
     \<lparr>sv_app = \<lparr>st_db = \<lparr>db_tasks = [], db_history = []\<rparr>, st_schedules = Map.empty\<rparr>,
      sv_flights = Map.empty, sv_jobs = [], sv_runs = Map.empty\<rparr>"

fun write_ids :: "db_write \<Rightarrow> uuid set" where
  "write_ids (InsertTask t) = {t_id t}"
| "write_ids (UpdateTask i a n) = {i}"
| "write_ids (DeleteTask i) = {i}"
| "write_ids (InsertHistory h) = {h_task_id h}"
| "write_ids (MutateHistory i h) = {}"

fun action_writes :: "action \<Rightarrow> db_write list" where
  "action_writes (Commit cx now ws) = ws"
| "action_writes (Background b) = []"

fun action_ids :: "action \<Rightarrow> uuid set" where
  "action_ids (Commit cx now ws) = \<Union> (write_ids ` set ws)"
| "action_ids (Background b) = {background_id b}"

definition flight_ids :: "'t flight \<Rightarrow> uuid set" where
  "flight_ids f = \<Union> (action_ids ` set (fl_actions f))"

text \<open>\<^verbatim>\<open>uuid4()\<close> gives an id that no task, no history, no schedule and nothing under way has.\<close>

definition unused_id :: "uuid \<Rightarrow> 't service \<Rightarrow> bool" where
  "unused_id i s \<longleftrightarrow>
     i \<notin> t_id ` set (db_tasks (st_db (sv_app s)))
     \<and> i \<notin> h_task_id ` set (db_history (st_db (sv_app s)))
     \<and> st_schedules (sv_app s) (uuid_str i) = None \<and> uuid_str i \<notin> set (sv_jobs s)
     \<and> (\<forall>k f. sv_flights s k = Some f \<longrightarrow> i \<notin> flight_ids f)
     \<and> (\<forall>k cx task outcome. sv_runs s k = Some (cx, task, outcome) \<longrightarrow> i \<noteq> t_id task)"

definition some_flight :: "'t flight \<Rightarrow> 't flight option" where
  "some_flight f = (if fl_actions f = [] then None else Some f)"

inductive service_step ::
  "bool \<Rightarrow> executor_globals \<Rightarrow> jwt_lib \<Rightarrow> 't aps \<Rightarrow> 't service \<Rightarrow> 't service \<Rightarrow> bool"
  for background_first g lib aps where
  request_handled:
    "service_step background_first g lib aps s
       (s\<lparr>sv_app := (sv_app s)\<lparr>st_db := ho_db out\<rparr>,
          sv_flights := (sv_flights s)(k := some_flight
            \<lparr>fl_env = env, fl_user = cu_user_id user,
             fl_actions = request_actions env (request_session env user) out\<rparr>)\<rparr>)"
    if "ap_background_first env = background_first" "unused_id (fst (ap_ids env)) s" "sv_flights s k = None"
      "authenticate (ap_auth env) (pe_clock (ap_parse env) 0) http = Inr user"
      "run_handler env (request_session env user) user request (st_db (sv_app s)) = Some out"
| action_done:
    "service_step background_first g lib aps s
       (s\<lparr>sv_app := st, sv_flights := (sv_flights s)(k := some_flight (f\<lparr>fl_actions := rest\<rparr>))\<rparr>)"
    if "sv_flights s k = Some f" "fl_actions f = a # rest" "run_action (fl_env f) a (sv_app s) = Inr st"
| action_fails:
    "service_step background_first g lib aps s (s\<lparr>sv_flights := (sv_flights s)(k := None)\<rparr>)"
    if "sv_flights s k = Some f" "fl_actions f = a # rest" "run_action (fl_env f) a (sv_app s) = Inl e"
| schedule_fires:
    "service_step background_first g lib aps s
       (s\<lparr>sv_app := (sv_app s)\<lparr>st_schedules := (st_schedules (sv_app s))(key \<mapsto> (trigger', [task_id]))\<rparr>,
          sv_jobs := task_id # sv_jobs s\<rparr>)"
    if "st_schedules (sv_app s) key = Some (trigger, [task_id])"
      "trigger_next aps trigger = Inr (Some d, trigger')"
| schedule_over:
    "service_step background_first g lib aps s
       (s\<lparr>sv_app := (sv_app s)\<lparr>st_schedules := (st_schedules (sv_app s))(key := None)\<rparr>\<rparr>)"
    if "st_schedules (sv_app s) key = Some (trigger, args)" "trigger_next aps trigger = Inr (None, trigger')"
| job_fires:
    "service_step background_first g lib aps s
       (s\<lparr>sv_jobs := remove1 task_id (sv_jobs s), sv_runs := (sv_runs s)(k \<mapsto> (cx, task, outcome))\<rparr>)"
    if "task_id \<in> set (sv_jobs s)" "sv_runs s k = None"
      "execution_begin g lib now (st_db (sv_app s)) task_id = (ExecutionFired cx task outcome, sent)"
| job_done:
    "service_step background_first g lib aps s (s\<lparr>sv_jobs := remove1 task_id (sv_jobs s)\<rparr>)"
    if "task_id \<in> set (sv_jobs s)"
      "execution_begin g lib now (st_db (sv_app s)) task_id = (ExecutionDone r, sent)"
| run_ends:
    "service_step background_first g lib aps s
       (s\<lparr>sv_app := \<lparr>st_db = er_db r, st_schedules = apply_scheds (er_calls r) (st_schedules (sv_app s))\<rparr>,
          sv_runs := (sv_runs s)(k := None)\<rparr>)"
    if "sv_runs s k = Some (cx, task, outcome)"
      "execution_finish g i now cx task outcome (st_db (sv_app s)) = r"

abbreviation service_steps ::
  "bool \<Rightarrow> executor_globals \<Rightarrow> jwt_lib \<Rightarrow> 't aps \<Rightarrow> 't service \<Rightarrow> 't service \<Rightarrow> bool" where
  "service_steps background_first g lib aps \<equiv> (service_step background_first g lib aps)\<^sup>*\<^sup>*"

inductive_cases service_stepE: "service_step background_first g lib aps s t"

section \<open>A request without interference\<close>

lemma run_actions_background:
  "run_actions env (map Background bs @ as) st =
     (let (done_all, m) = run_backgrounds env bs (st_schedules st); st' = st\<lparr>st_schedules := m\<rparr>
      in if done_all then run_actions env as st' else st')"
  by (induction bs arbitrary: st) (auto simp: rbind_def Let_def split: sum.splits prod.splits)

lemma run_actions_backgrounds:
  "run_actions env (map Background bs) st = st\<lparr>st_schedules := snd (run_backgrounds env bs (st_schedules st))\<rparr>"
  using run_actions_background [of env bs "[]" st] by (simp add: Let_def split: prod.splits)

lemma finish_request_actions:
  "snd (finish_request env cx request st out) = run_actions env (request_actions env cx out) (st\<lparr>st_db := ho_db out\<rparr>)"
  by (auto simp: finish_request_def request_actions_def Let_def run_actions_background run_actions_backgrounds
      rbind_def split: sum.splits prod.splits)

lemma some_flight_simps [simp]:
  "some_flight (f\<lparr>fl_actions := []\<rparr>) = None" "fl_actions f = a # as \<Longrightarrow> some_flight f = Some f"
  "some_flight (f\<lparr>fl_actions := a # as\<rparr>) = Some (f\<lparr>fl_actions := a # as\<rparr>)"
  by (simp_all add: some_flight_def)

lemma flight_runs:
  assumes "sv_flights s k = None"
  shows "service_steps b g lib aps (s\<lparr>sv_flights := (sv_flights s)(k := some_flight f)\<rparr>)
    (s\<lparr>sv_app := run_actions (fl_env f) (fl_actions f) (sv_app s)\<rparr>)"
  using assms
proof (induction "fl_actions f" arbitrary: f s)
  case Nil
  then have "(sv_flights s)(k := some_flight f) = sv_flights s" by (simp add: some_flight_def fun_upd_idem)
  then show ?case using Nil by simp
next
  case (Cons a as)
  let ?s = "s\<lparr>sv_flights := (sv_flights s)(k := some_flight f)\<rparr>"
  have k: "sv_flights ?s k = Some f" using Cons.hyps(2) [symmetric] by simp
  show ?case
  proof (cases "run_action (fl_env f) a (sv_app s)")
    case (Inl e)
    have "service_step b g lib aps ?s (?s\<lparr>sv_flights := (sv_flights ?s)(k := None)\<rparr>)"
      using k Cons.hyps(2) [symmetric] Inl by (intro service_step.action_fails [of _ k f a as]) simp_all
    moreover have "?s\<lparr>sv_flights := (sv_flights ?s)(k := None)\<rparr> = s"
      using Cons.prems by (cases s) (simp add: fun_upd_idem)
    ultimately show ?thesis using Cons.hyps(2) [symmetric] Inl by simp
  next
    case (Inr st)
    let ?f = "f\<lparr>fl_actions := as\<rparr>"
    have "service_step b g lib aps ?s (?s\<lparr>sv_app := st, sv_flights := (sv_flights ?s)(k := some_flight ?f)\<rparr>)"
      using k Cons.hyps(2) [symmetric] Inr by (intro service_step.action_done [of _ k f a as]) simp_all
    moreover have "?s\<lparr>sv_app := st, sv_flights := (sv_flights ?s)(k := some_flight ?f)\<rparr>
        = (s\<lparr>sv_app := st\<rparr>)\<lparr>sv_flights := (sv_flights (s\<lparr>sv_app := st\<rparr>))(k := some_flight ?f)\<rparr>"
      by (cases s) simp
    moreover have "service_steps b g lib aps
        ((s\<lparr>sv_app := st\<rparr>)\<lparr>sv_flights := (sv_flights (s\<lparr>sv_app := st\<rparr>))(k := some_flight ?f)\<rparr>)
        ((s\<lparr>sv_app := st\<rparr>)\<lparr>sv_app := run_actions (fl_env ?f) (fl_actions ?f) (sv_app (s\<lparr>sv_app := st\<rparr>))\<rparr>)"
      by (rule Cons.hyps(1)) (use Cons.prems in simp_all)
    ultimately show ?thesis
      using Cons.hyps(2) [symmetric] Inr by (auto intro: converse_rtranclp_into_rtranclp)
  qed
qed

text \<open>
  What a request does when it is one step is what its steps do when nothing comes
  in between, in either order at the end of a request.
\<close>

theorem request_is_interleaving:
  assumes "handle_request env http request (sv_app s) = Some (a, st, sent)"
    and "unused_id (fst (ap_ids env)) s" "sv_flights s k = None"
  shows "service_steps (ap_background_first env) g lib aps s (s\<lparr>sv_app := st\<rparr>)"
proof (cases "authenticate (ap_auth env) (pe_clock (ap_parse env) 0) http")
  case (Inl e)
  then show ?thesis using assms(1) handle_request_refused [OF Inl, of request "sv_app s"] by (cases s) auto
next
  case (Inr user)
  let ?cx = "request_session env user"
  obtain out where run: "run_handler env ?cx user request (st_db (sv_app s)) = Some out"
    and fin: "finish_request env ?cx request (sv_app s) out = (a, st)"
    using handle_request_Some [OF assms(1) Inr] by blast
  let ?f = "\<lparr>fl_env = env, fl_user = cu_user_id user, fl_actions = request_actions env ?cx out\<rparr>"
  let ?s = "s\<lparr>sv_app := (sv_app s)\<lparr>st_db := ho_db out\<rparr>\<rparr>"
  have "service_step (ap_background_first env) g lib aps s (?s\<lparr>sv_flights := (sv_flights ?s)(k := some_flight ?f)\<rparr>)"
    using service_step.request_handled [OF refl assms(2,3) Inr run] by (cases s) simp
  moreover have "service_steps (ap_background_first env) g lib aps
      (?s\<lparr>sv_flights := (sv_flights ?s)(k := some_flight ?f)\<rparr>)
      (?s\<lparr>sv_app := run_actions (fl_env ?f) (fl_actions ?f) (sv_app ?s)\<rparr>)"
    by (rule flight_runs) (use assms(3) in simp)
  moreover have "run_actions (fl_env ?f) (fl_actions ?f) (sv_app ?s) = st"
    using fin finish_request_actions [of env ?cx request "sv_app s" out] by simp
  ultimately show ?thesis by (auto intro: converse_rtranclp_into_rtranclp)
qed

section \<open>A creation in steps\<close>

text \<open>
  The first two steps of a successful creation when the background tasks come first: the handler,
  and the registration of the schedule. The commit is still to come, and would succeed.
\<close>

lemma creation_steps:
  assumes "unused_id (fst (ap_ids env)) s" "sv_flights s f = None" "ap_background_first env"
    and "authenticate (ap_auth env) (pe_clock (ap_parse env) 0) http = Inr user"
    and "snd (ap_ids env) \<notin> h_id ` set (db_history (st_db (sv_app s)))"
    and "validate_trigger (pe_runtime (ap_parse env)) body = Inr spec"
    and "resolve_or_422 (ap_parse env) (ap_llm env) spec = Inr (sch, k)"
    and "schedulable (pe_runtime (ap_parse env)) sch" "fits_history sch"
    and "compute_next_run_at (pe_aps (ap_parse env)) (pe_runtime (ap_parse env)) (pe_clock (ap_parse env) k) sch
           = Inr next_run_at"
    and "build_trigger (pe_aps (ap_parse env)) (pe_runtime (ap_parse env)) (pe_clock (ap_parse env) 0)
           (restored sch) = Inr trigger"
  shows "\<exists>new row task.
      service_step True g lib aps s
        (s\<lparr>sv_flights := (sv_flights s)(f \<mapsto> \<lparr>fl_env = env, fl_user = cu_user_id user,
           fl_actions = [Background (RegisterSchedule task),
             Commit (request_session env user) (pe_clock (ap_parse env) 0) [InsertTask new, InsertHistory row]]\<rparr>)\<rparr>)
    \<and> service_steps True g lib aps s
        (s\<lparr>sv_app := (sv_app s)\<lparr>st_schedules := (st_schedules (sv_app s))
             (uuid_str (fst (ap_ids env)) \<mapsto> (trigger, [uuid_str (fst (ap_ids env))]))\<rparr>,
           sv_flights := (sv_flights s)(f \<mapsto> \<lparr>fl_env = env, fl_user = cu_user_id user,
             fl_actions = [Commit (request_session env user) (pe_clock (ap_parse env) 0)
               [InsertTask new, InsertHistory row]]\<rparr>)\<rparr>)
    \<and> apply_writes (request_session env user) (pe_clock (ap_parse env) 0) [InsertTask new, InsertHistory row]
          (st_db (sv_app s))
        = Inr \<lparr>db_tasks = db_tasks (st_db (sv_app s)) @ [task],
               db_history = db_history (st_db (sv_app s)) @ [stored_history (pe_clock (ap_parse env) 0) row]\<rparr>
    \<and> t_id task = fst (ap_ids env) \<and> t_is_active task \<and> t_user_id task = cu_user_id user
    \<and> t_webhook_url task = url \<and> t_parameters task = parameters
    \<and> t_next_run_at task = map_option stored_time next_run_at
    \<and> stores_spec task sch \<and> h_event_type row = event_type_value TASK_CREATED \<and> h_task_id row = t_id task"
proof -
  let ?cx = "request_session env user" and ?now = "pe_clock (ap_parse env) 0"
  let ?db = "st_db (sv_app s)" and ?i = "fst (ap_ids env)"
  have "?i \<notin> t_id ` set (db_tasks ?db)" using assms(1) by (simp add: unused_id_def)
  from create_request_parts [OF assms(4) this assms(5-11), of url parameters]
  obtain new row task answer where run:
    "run_handler env ?cx user (CreateTaskRequest url parameters body) ?db
      = Some \<lparr>ho_result = Inr answer, ho_db = ?db, ho_pending = [InsertTask new, InsertHistory row],
              ho_background = [RegisterSchedule task], ho_sent = []\<rparr>"
    and commit: "apply_writes ?cx ?now [InsertTask new, InsertHistory row] ?db
      = Inr \<lparr>db_tasks = db_tasks ?db @ [task], db_history = db_history ?db @ [stored_history ?now row]\<rparr>"
    and background: "\<forall>m. run_background env (RegisterSchedule task) m
      = Inr (m(uuid_str ?i \<mapsto> (trigger, [uuid_str ?i])))"
    and task: "t_id task = ?i \<and> t_is_active task \<and> t_user_id task = cu_user_id user
      \<and> t_webhook_url task = url \<and> t_parameters task = parameters
      \<and> t_next_run_at task = map_option stored_time next_run_at
      \<and> stores_spec task sch \<and> h_event_type row = event_type_value TASK_CREATED \<and> h_task_id row = t_id task"
    by metis
  let ?commit = "Commit ?cx ?now [InsertTask new, InsertHistory row]"
  let ?f = "\<lparr>fl_env = env, fl_user = cu_user_id user,
    fl_actions = [Background (RegisterSchedule task), ?commit]\<rparr>"
  let ?s = "s\<lparr>sv_flights := (sv_flights s)(f \<mapsto> ?f)\<rparr>"
  let ?m = "(st_schedules (sv_app s))(uuid_str ?i \<mapsto> (trigger, [uuid_str ?i]))"
  have handled: "service_step True g lib aps s ?s"
    using service_step.request_handled [OF _ assms(1,2,4) run, of True g lib aps] assms(3)
    by (simp add: request_actions_def Let_def some_flight_def)
  have "service_step True g lib aps ?s
      (?s\<lparr>sv_app := (sv_app s)\<lparr>st_schedules := ?m\<rparr>,
          sv_flights := (sv_flights ?s)(f := some_flight (?f\<lparr>fl_actions := [?commit]\<rparr>))\<rparr>)"
    by (rule service_step.action_done [of _ _ _ "Background (RegisterSchedule task)"])
      (use background in simp_all)
  then have "service_steps True g lib aps s (s\<lparr>sv_app := (sv_app s)\<lparr>st_schedules := ?m\<rparr>,
      sv_flights := (sv_flights s)(f \<mapsto> ?f\<lparr>fl_actions := [?commit]\<rparr>)\<rparr>)"
    using handled by (auto simp: some_flight_def intro: converse_rtranclp_into_rtranclp)
  then show ?thesis using handled commit task by (intro exI [of _ new] exI [of _ row] exI [of _ task]) simp
qed

section \<open>Witness\<close>

lemma initial_service_simps [simp]:
  "sv_app initial_service = empty_state" "sv_flights initial_service = Map.empty"
  "sv_jobs initial_service = []" "sv_runs initial_service = Map.empty"
  by (simp_all add: initial_service_def empty_state_def empty_db_def)

lemma demo_unused: "unused_id (fst (ap_ids (demo_app b))) (initial_service :: demo_trigger service)"
  by (simp add: unused_id_def) (simp add: empty_state_def)

lemma request_is_interleaving_witness:
  "\<exists>st task. service_steps True (demo_globals True True 200) demo_jwt demo_aps initial_service
      (initial_service\<lparr>sv_app := st\<rparr>)
    \<and> db_tasks (st_db st) = [task] \<and> st_schedules st (uuid_str 7) = Some (hourly, [uuid_str 7])"
proof -
  obtain answer st task where h: "handle_request (demo_app True) demo_http
      (CreateTaskRequest ''https://example.com/hook'' [] (BodyInterval 3600)) (sv_app initial_service)
      = Some (Answer 201 answer, st, [])"
    "st_schedules st (uuid_str 7) = Some (hourly, [uuid_str 7])" "db_tasks (st_db st) = [task]"
    using create_request_fires [OF hourly_setup demo_factory(1), where b1 = True
      and url = "''https://example.com/hook''" and parameters = "[]" and lib = demo_jwt and later = frozen_time]
    by auto
  show ?thesis using request_is_interleaving [OF h(1) demo_unused] h(2,3) by auto
qed

end
