(* ===== verification/Interleaved_Invariant.thy ===== *)
theory Interleaved_Invariant
  imports Interleaving
begin

text \<open>
  The invariant of the interleaved service: what holds of the database in every state that any
  interleaving reaches, and what a step of one user's request leaves of everybody else's data.
\<close>

section \<open>The writes that are under way\<close>

fun created_ids :: "db_write \<Rightarrow> uuid set" where
  "created_ids (InsertTask t) = {t_id t}"
| "created_ids _ = {}"

fun is_commit :: "action \<Rightarrow> bool" where
  "is_commit (Commit cx now ws) = True"
| "is_commit (Background b) = False"

definition flight_writes :: "'t flight \<Rightarrow> db_write list" where
  "flight_writes f = concat (map action_writes (fl_actions f))"

definition flight_new :: "'t flight \<Rightarrow> uuid set" where
  "flight_new f = \<Union> (created_ids ` set (flight_writes f))"

text \<open>
  What a request may still write is good, it is about ids that are nobody else's, the ids that it
  creates are not there yet, and it commits once.
\<close>

definition flight_ok :: "db \<Rightarrow> 't flight \<Rightarrow> bool" where
  "flight_ok db f \<longleftrightarrow>
     list_all (good_write (fl_user f) (flight_new f) (flight_ids f)) (flight_writes f)
     \<and> (\<forall>i v. (i, v) \<in> set (owners db) \<and> i \<in> flight_ids f \<longrightarrow> v = fl_user f)
     \<and> (\<forall>i \<in> flight_new f. i \<notin> t_id ` set (db_tasks db) \<and> i \<notin> h_task_id ` set (db_history db))
     \<and> length (filter is_commit (fl_actions f)) \<le> 1"

lemma flight_okI:
  assumes "list_all (good_write (fl_user f) (flight_new f) (flight_ids f)) (flight_writes f)"
    and "\<And>i v. (i, v) \<in> set (owners db) \<Longrightarrow> i \<in> flight_ids f \<Longrightarrow> v = fl_user f"
    and "\<And>i. i \<in> flight_new f \<Longrightarrow> i \<notin> t_id ` set (db_tasks db) \<and> i \<notin> h_task_id ` set (db_history db)"
    and "length (filter is_commit (fl_actions f)) \<le> 1"
  shows "flight_ok db f"
  using assms unfolding flight_ok_def by blast

lemma flight_okD:
  assumes "flight_ok db f"
  shows "list_all (good_write (fl_user f) (flight_new f) (flight_ids f)) (flight_writes f)"
    and "(i, v) \<in> set (owners db) \<Longrightarrow> i \<in> flight_ids f \<Longrightarrow> v = fl_user f"
    and "i \<in> flight_new f \<Longrightarrow> i \<notin> t_id ` set (db_tasks db) \<and> i \<notin> h_task_id ` set (db_history db)"
    and "length (filter is_commit (fl_actions f)) \<le> 1"
  using assms unfolding flight_ok_def by blast+

lemma action_writes_ids: "w \<in> set (action_writes a) \<Longrightarrow> write_ids w \<subseteq> action_ids a"
  by (cases a) auto

lemma flight_writes_ids: "w \<in> set (flight_writes f) \<Longrightarrow> write_ids w \<subseteq> flight_ids f"
  using action_writes_ids unfolding flight_writes_def flight_ids_def by fastforce

lemma flight_new_ids: "flight_new f \<subseteq> flight_ids f"
proof -
  have "created_ids w \<subseteq> write_ids w" for w by (cases w) auto
  then show ?thesis using flight_writes_ids unfolding flight_new_def by blast
qed

lemma good_write_narrow:
  "good_write u new own w \<Longrightarrow> created_ids w \<subseteq> new' \<Longrightarrow> write_ids w \<subseteq> own' \<Longrightarrow> good_write u new' own' w"
  by (cases w) auto

lemma flight_rest:
  assumes "fl_actions f = a # rest"
  shows "flight_new (f\<lparr>fl_actions := rest\<rparr>) \<subseteq> flight_new f" "flight_ids (f\<lparr>fl_actions := rest\<rparr>) \<subseteq> flight_ids f"
    "set (flight_writes (f\<lparr>fl_actions := rest\<rparr>)) \<subseteq> set (flight_writes f)"
  using assms by (auto simp: flight_new_def flight_ids_def flight_writes_def)

lemma flight_good:
  assumes "list_all (good_write u new own) (flight_writes f)"
  shows "list_all (good_write u (flight_new f) (flight_ids f)) (flight_writes f)"
  unfolding list_all_iff
proof
  fix w assume w: "w \<in> set (flight_writes f)"
  have "good_write u new own w" using assms w by (simp add: list_all_iff)
  moreover have "created_ids w \<subseteq> flight_new f" using w by (auto simp: flight_new_def)
  ultimately show "good_write u (flight_new f) (flight_ids f) w"
    using flight_writes_ids [OF w] by (rule good_write_narrow)
qed

lemma flight_ok_rest:
  assumes "flight_ok db f" "fl_actions f = a # rest"
  shows "flight_ok db (f\<lparr>fl_actions := rest\<rparr>)"
proof (rule flight_okI)
  let ?f = "f\<lparr>fl_actions := rest\<rparr>"
  note ok = flight_okD [OF assms(1)] and sub = flight_rest [OF assms(2)]
  have "list_all (good_write (fl_user f) (flight_new f) (flight_ids f)) (flight_writes ?f)"
    using ok(1) sub(3) unfolding list_all_iff by blast
  from flight_good [OF this]
  show "list_all (good_write (fl_user ?f) (flight_new ?f) (flight_ids ?f)) (flight_writes ?f)" by simp
  show "v = fl_user ?f" if "(i, v) \<in> set (owners db)" "i \<in> flight_ids ?f" for i v
    using ok(2) [OF that(1)] that(2) sub(2) by (simp add: subset_iff)
  show "i \<notin> t_id ` set (db_tasks db) \<and> i \<notin> h_task_id ` set (db_history db)" if "i \<in> flight_new ?f" for i
    using ok(3) sub(1) that by blast
  show "length (filter is_commit (fl_actions ?f)) \<le> 1"
    using ok(4) assms(2) by (simp split: if_splits)
qed

section \<open>What a change of the database leaves in order\<close>

definition history_about :: "uuid set \<Rightarrow> db \<Rightarrow> db \<Rightarrow> bool" where
  "history_about ids db db' \<longleftrightarrow>
     h_task_id ` set (db_history db') \<subseteq> h_task_id ` set (db_history db) \<union> ids"

lemma good_write_about: "good_write u new own w \<Longrightarrow> apply_write cx now w db = Inr db' \<Longrightarrow> history_about own db db'"
  by (cases w) (auto simp: history_about_def simp del: apply_write.simps dest!: history_write)

interpretation history_origin: step_relation "apply_write cx now" "good_write u new own" "history_about own"
  for cx now u new own
proof unfold_locales
  show "history_about own db db" for db by (simp add: history_about_def)
  show "history_about own a b \<Longrightarrow> history_about own b c \<Longrightarrow> history_about own a c" for a b c
    unfolding history_about_def by blast
qed (rule good_write_about)

lemma apply_writes_about:
  "list_all (good_write u new own) ws \<Longrightarrow> apply_writes cx now ws db = Inr db' \<Longrightarrow> history_about own db db'"
  using history_origin.run_R by (simp add: apply_writes_def)

lemma owner_ids: "fst ` set (owners db) = t_id ` set (db_tasks db)"
  by (force simp: owners_def)

lemma rows_from_ids: "rows_from new db db' \<Longrightarrow> t_id ` set (db_tasks db') \<subseteq> t_id ` set (db_tasks db) \<union> new"
  unfolding rows_from_def owner_ids [symmetric] by force

lemma flight_ok_change:
  assumes "flight_ok db f" "rows_from new db db'" "history_about ids db db'"
    and "new \<inter> flight_ids f = {}" "ids \<inter> flight_new f = {}"
  shows "flight_ok db' f"
proof (rule flight_okI)
  note ok = flight_okD [OF assms(1)]
  show "v = fl_user f" if "(i, v) \<in> set (owners db')" "i \<in> flight_ids f" for i v
    using that ok(2) assms(2,4) unfolding rows_from_def by blast
  show "i \<notin> t_id ` set (db_tasks db') \<and> i \<notin> h_task_id ` set (db_history db')" if i: "i \<in> flight_new f" for i
  proof -
    have "i \<notin> new" "i \<notin> ids" using assms(4,5) flight_new_ids [of f] i by blast+
    then show ?thesis
      using ok(3) [OF i] rows_from_ids [OF assms(2)] assms(3) unfolding history_about_def by blast
  qed
qed (use flight_okD [OF assms(1)] in blast)+

lemma flight_own: "flight_ok db f \<Longrightarrow> db_inv db \<Longrightarrow> own_inv (fl_user f) (flight_new f) (flight_ids f) db"
  using flight_okD [of db f] flight_new_ids [of f] unfolding own_inv_def by blast

section \<open>Handlers\<close>

text \<open>A handler that writes something later has written nothing yet, and works on known ids or on the new one.\<close>

definition known_out :: "uuid \<Rightarrow> db \<Rightarrow> 'r handler_out \<Rightarrow> bool" where
  "known_out i db out \<longleftrightarrow>
     (ho_db out = db \<or> ho_pending out = [] \<and> ho_background out = [])
     \<and> (\<forall>w \<in> set (ho_pending out). created_ids w \<subseteq> {i} \<and> write_ids w \<subseteq> t_id ` set (db_tasks db) \<union> {i})
     \<and> (\<forall>b \<in> set (ho_background out). background_id b \<in> t_id ` set (db_tasks db) \<union> {i})"

lemma known_out_map_out [simp]: "known_out i db (map_out f out) = known_out i db out"
  by (simp add: known_out_def)

lemma known_out_idle [simp]: "ho_pending out = [] \<Longrightarrow> ho_background out = [] \<Longrightarrow> known_out i db out"
  by (simp add: known_out_def)

lemma create_task_known:
  assumes "user_session cx (cu_user_id user)" "db_ok db" "ho_result (create_task env llm cx ids user body db) = Inr r"
  shows "known_out (fst ids) db (create_task env llm cx ids user body db)"
proof -
  from create_task_success [OF assms(3)] obtain s n task h where out:
    "create_task env llm cx ids user body db =
        \<lparr>ho_result = Inr r, ho_db = db,
         ho_pending = [InsertTask (new_task (fst ids) (cu_user_id user) (pe_clock env 0) body s n), InsertHistory h],
         ho_background = [RegisterSchedule task], ho_sent = []\<rparr>"
    and flush: "flush_and_refresh cx (pe_clock env 0) db
        (new_task (fst ids) (cu_user_id user) (pe_clock env 0) body s n) = Inr task"
    and h: "h_task_id h = t_id task"
    by blast
  have "t_id task = fst ids" using flush_and_refresh_Inr(1) [OF assms(1,2) _ flush] by simp
  then show ?thesis using h unfolding out known_out_def by simp
qed

lemma lifecycle_known:
  assumes "user_session cx (cu_user_id user)"
  shows "ho_result (deactivate_task env cx i user task_id db) = Inr r \<Longrightarrow>
      known_out j db (deactivate_task env cx i user task_id db)"
    and "ho_result (activate_task env cx i user task_id db) = Inr r \<Longrightarrow>
      known_out j db (activate_task env cx i user task_id db)"
    and "ho_result (delete_task env cx i user task_id db) = Inr r' \<Longrightarrow>
      known_out j db (delete_task env cx i user task_id db)"
    and "known_out j db (run_task env g lib cx i user task_id db)"
proof -
  note own = get_task_own(1,2) [OF assms]
  have row: "created_ids (record_task_lifecycle i now u tid ev) = {}"
    "write_ids (record_task_lifecycle i now u tid ev) = {tid}" for now u tid ev
    by (simp_all add: record_task_lifecycle_def history_row_def)
  show "known_out j db (deactivate_task env cx i user task_id db)"
    if r: "ho_result (deactivate_task env cx i user task_id db) = Inr r"
  proof -
    obtain t where t: "get_task_or_404 cx db task_id = Inr t" using deactivate_task_success [OF r] by blast
    show ?thesis using deactivate_task_success [OF r] t own [OF t] row
      by (cases "t_is_active t") (auto simp: known_out_def)
  qed
  show "known_out j db (activate_task env cx i user task_id db)"
    if r: "ho_result (activate_task env cx i user task_id db) = Inr r"
  proof -
    obtain t where t: "get_task_or_404 cx db task_id = Inr t" using activate_task_success [OF r] by blast
    show ?thesis using activate_task_success [OF r] t own [OF t] row
      by (cases "t_is_active t") (auto simp: known_out_def)
  qed
  show "known_out j db (delete_task env cx i user task_id db)"
    if r: "ho_result (delete_task env cx i user task_id db) = Inr r'"
  proof -
    obtain t where t: "get_task_or_404 cx db task_id = Inr t" using delete_task_success [OF r] by blast
    show ?thesis using delete_task_success [OF r] t own [OF t]
      by (cases "t_is_active t") (auto simp: known_out_def)
  qed
  have "ho_pending (run_task env g lib cx i user task_id db) = []"
    "ho_background (run_task env g lib cx i user task_id db) = []"
    by (auto simp: run_task_def and_then_def Let_def split: sum.splits prod.splits)
  then show "known_out j db (run_task env g lib cx i user task_id db)" by simp
qed

lemma run_handler_known:
  assumes "user_session cx (cu_user_id user)" "db_ok db" "run_handler env cx user request db = Some out"
    and "ho_result out = Inr b"
  shows "known_out (fst (ap_ids env)) db out"
proof (cases "only_reads request")
  case True
  then show ?thesis using run_handler_reads [OF assms(3)] by simp
next
  case False
  then show ?thesis
  proof (cases request)
    case (CreateTaskRequest url parameters body)
    then obtain trigger where out: "out = map_out TaskBody (create_task (ap_parse env) (ap_llm env) cx (ap_ids env) user
        \<lparr>tc_webhook_url = url, tc_parameters = parameters, tc_trigger = trigger\<rparr> db)"
      using assms(3,4) by (auto simp: run_handler_def dest!: and_then_success)
    then obtain r where "ho_result (create_task (ap_parse env) (ap_llm env) cx (ap_ids env) user
        \<lparr>tc_webhook_url = url, tc_parameters = parameters, tc_trigger = trigger\<rparr> db) = Inr r"
      using assms(4) by (auto simp: rbind_eq_Inr)
    from create_task_known [OF assms(1,2) this] show ?thesis using out by simp
  qed (use assms(3,4) lifecycle_known [OF assms(1)] in \<open>auto simp: run_handler_def rbind_eq_Inr\<close>)
qed

text \<open>The request that is under way after its handler.\<close>

lemma handled_flight_ok:
  assumes "authenticate (ap_auth env) (pe_clock (ap_parse env) 0) http = Inr user" "db_inv db"
    and "run_handler env (request_session env user) user request db = Some out"
    and "fst (ap_ids env) \<notin> t_id ` set (db_tasks db)" "fst (ap_ids env) \<notin> h_task_id ` set (db_history db)"
    and "f = \<lparr>fl_env = env, fl_user = cu_user_id user, fl_actions = request_actions env (request_session env user) out\<rparr>"
  shows "flight_ok (ho_db out) f" "flight_new f \<subseteq> {fst (ap_ids env)}"
    "flight_ids f \<subseteq> t_id ` set (db_tasks db) \<union> {fst (ap_ids env)}"
proof -
  let ?i = "fst (ap_ids env)" and ?cx = "request_session env user" and ?u = "cu_user_id user"
  let ?own = "own_ids ?u db"
  have session: "user_session ?cx ?u" by (rule authenticate_session [OF assms(1)])
  have ok: "db_ok db" using assms(2) by (simp add: db_inv_def)
  have new: "{?i} \<subseteq> ?own" using assms(4) by (auto simp: own_ids_def image_iff)
  have idle: "flight_ok d f" "flight_new f = {}" "flight_ids f = {}"
    if "ho_pending out = []" "ho_background out = []" for d
    using that assms(6)
    by (auto simp: flight_ok_def flight_new_def flight_ids_def flight_writes_def request_actions_def Let_def
        split: sum.splits)
  have "flight_ok (ho_db out) f \<and> flight_new f \<subseteq> {?i} \<and> flight_ids f \<subseteq> t_id ` set (db_tasks db) \<union> {?i}"
  proof (cases "ho_result out")
    case (Inl e)
    then show ?thesis
      using assms(6)
      by (simp add: flight_ok_def flight_new_def flight_ids_def flight_writes_def request_actions_def)
  next
    case (Inr b)
    have known: "known_out ?i db out" by (rule run_handler_known [OF session ok assms(3) Inr])
    have writes: "flight_writes f = ho_pending out"
      and ids: "flight_ids f = \<Union> (write_ids ` set (ho_pending out)) \<union> background_id ` set (ho_background out)"
      and once: "length (filter is_commit (fl_actions f)) \<le> 1"
      using assms(6) Inr
      by (auto simp: flight_writes_def flight_ids_def request_actions_def Let_def comp_def)
    have good: "list_all (good_write ?u {?i} ?own) (ho_pending out)"
      using run_handler_good [OF session ok assms(3) singletonI new] by (simp add: good_out_def)
    have keeps: "keeps_to ?u db out" by (rule run_handler_keeps [OF session ok assms(3)])
    have "write_ids w \<subseteq> ?own" if w: "w \<in> set (ho_pending out)" for w
    proof -
      have "good_write ?u {?i} ?own w" "touches ?u ?own w"
        using good keeps w by (auto simp: list_all_iff keeps_to_defs)
      then show ?thesis using new by (cases w) auto
    qed
    then have own: "flight_ids f \<subseteq> ?own" using keeps unfolding ids keeps_to_defs by blast
    show ?thesis
    proof (cases "ho_db out = db")
      case True
      have sub: "flight_new f \<subseteq> {?i}" "flight_ids f \<subseteq> t_id ` set (db_tasks db) \<union> {?i}"
        using known unfolding flight_new_def writes ids known_out_def by blast+
      have "flight_ok db f"
      proof (rule flight_okI)
        show "list_all (good_write (fl_user f) (flight_new f) (flight_ids f)) (flight_writes f)"
          using flight_good [of ?u "{?i}" ?own f] good writes assms(6) by simp
        show "v = fl_user f" if "(j, v) \<in> set (owners db)" "j \<in> flight_ids f" for j v
          using that own assms(6) by (auto simp: owners_def own_ids_def)
        show "j \<notin> t_id ` set (db_tasks db) \<and> j \<notin> h_task_id ` set (db_history db)" if "j \<in> flight_new f" for j
          using subsetD [OF sub(1) that] assms(4,5) by simp
      qed (rule once)
      then show ?thesis using sub True by simp
    next
      case False
      then have "ho_pending out = []" "ho_background out = []" using known by (auto simp: known_out_def)
      from idle [OF this] show ?thesis by simp
    qed
  qed
  then show "flight_ok (ho_db out) f" "flight_new f \<subseteq> {?i}" "flight_ids f \<subseteq> t_id ` set (db_tasks db) \<union> {?i}"
    by blast+
qed

section \<open>The invariant of the service\<close>

definition run_ok :: "'t service \<Rightarrow> scheduled_task \<Rightarrow> bool" where
  "run_ok s task \<longleftrightarrow>
     (\<forall>v. (t_id task, v) \<in> set (owners (st_db (sv_app s))) \<longrightarrow> v = t_user_id task)
     \<and> (\<forall>k f. sv_flights s k = Some f \<longrightarrow> t_id task \<notin> flight_new f)"

definition service_inv :: "'t service \<Rightarrow> bool" where
  "service_inv s \<longleftrightarrow>
     db_inv (st_db (sv_app s))
     \<and> (\<forall>k f. sv_flights s k = Some f \<longrightarrow> flight_ok (st_db (sv_app s)) f)
     \<and> (\<forall>k k' f f'. sv_flights s k = Some f \<and> sv_flights s k' = Some f' \<and> k \<noteq> k' \<longrightarrow>
          flight_new f \<inter> flight_ids f' = {})
     \<and> (\<forall>k cx task outcome. sv_runs s k = Some (cx, task, outcome) \<longrightarrow> run_ok s task)"

lemma service_invI:
  assumes "db_inv (st_db (sv_app s))"
    and "\<And>k f. sv_flights s k = Some f \<Longrightarrow> flight_ok (st_db (sv_app s)) f"
    and "\<And>k k' f f'. sv_flights s k = Some f \<Longrightarrow> sv_flights s k' = Some f' \<Longrightarrow> k \<noteq> k' \<Longrightarrow>
      flight_new f \<inter> flight_ids f' = {}"
    and "\<And>k cx task outcome. sv_runs s k = Some (cx, task, outcome) \<Longrightarrow> run_ok s task"
  shows "service_inv s"
  using assms unfolding service_inv_def by blast

lemma service_invD:
  assumes "service_inv s"
  shows "db_inv (st_db (sv_app s))"
    and "sv_flights s k = Some f \<Longrightarrow> flight_ok (st_db (sv_app s)) f"
    and "sv_flights s k = Some f \<Longrightarrow> sv_flights s k' = Some f' \<Longrightarrow> k \<noteq> k' \<Longrightarrow>
      flight_new f \<inter> flight_ids f' = {}"
    and "sv_runs s k = Some (cx, task, outcome) \<Longrightarrow> run_ok s task"
  using assms unfolding service_inv_def by blast+

text \<open>
  A step that changes the database keeps the invariant when what it adds is nothing that anybody
  else has under way, and leaves no more under way than there was.
\<close>

definition fewer_flights :: "'t service \<Rightarrow> 't service \<Rightarrow> bool" where
  "fewer_flights s t \<longleftrightarrow>
     (\<forall>k f. sv_flights t k = Some f \<longrightarrow>
        (\<exists>f'. sv_flights s k = Some f' \<and> flight_new f \<subseteq> flight_new f' \<and> flight_ids f \<subseteq> flight_ids f'))"

lemma service_inv_change:
  assumes "service_inv s" "db_inv (st_db (sv_app t))"
    and "rows_from new (st_db (sv_app s)) (st_db (sv_app t))"
    and "history_about ids (st_db (sv_app s)) (st_db (sv_app t))"
    and "\<And>k f. sv_flights t k = Some f \<Longrightarrow> flight_ok (st_db (sv_app t)) f"
    and "fewer_flights s t"
    and "\<And>k cx task outcome. sv_runs t k = Some (cx, task, outcome) \<Longrightarrow> run_ok s task \<and> t_id task \<notin> new"
  shows "service_inv t"
proof (rule service_invI)
  show "flight_new f \<inter> flight_ids f' = {}"
    if f: "sv_flights t k = Some f" "sv_flights t k' = Some f'" "k \<noteq> k'" for k k' f f'
  proof -
    obtain f0 where f0: "sv_flights s k = Some f0" "flight_new f \<subseteq> flight_new f0"
      using f(1) assms(6) unfolding fewer_flights_def by blast
    obtain f1 where f1: "sv_flights s k' = Some f1" "flight_ids f' \<subseteq> flight_ids f1"
      using f(2) assms(6) unfolding fewer_flights_def by blast
    have "flight_new f0 \<inter> flight_ids f1 = {}" by (rule service_invD(3) [OF assms(1) f0(1) f1(1) f(3)])
    then show ?thesis using f0(2) f1(2) by blast
  qed
  show "run_ok t task" if r: "sv_runs t k = Some (cx, task, outcome)" for k cx task outcome
    unfolding run_ok_def
  proof (intro conjI allI impI)
    note old = assms(7) [OF r]
    show "v = t_user_id task" if "(t_id task, v) \<in> set (owners (st_db (sv_app t)))" for v
      using that old assms(3) unfolding rows_from_def run_ok_def by blast
    show "t_id task \<notin> flight_new f" if "sv_flights t k' = Some f" for k' f
      using that old assms(6) unfolding fewer_flights_def run_ok_def by blast
  qed
qed (rule assms(2), rule assms(5))

lemma fewer_flights_same [simp]: "sv_flights t = sv_flights s \<Longrightarrow> fewer_flights s t"
  by (simp add: fewer_flights_def)

lemma fewer_flights_drop: "sv_flights t = (sv_flights s)(k := None) \<Longrightarrow> fewer_flights s t"
  by (auto simp: fewer_flights_def split: if_splits)

lemma fewer_flights_rest:
  assumes "sv_flights s k = Some f" "fl_actions f = a # rest"
    and "sv_flights t = (sv_flights s)(k := some_flight (f\<lparr>fl_actions := rest\<rparr>))"
  shows "fewer_flights s t"
  using assms flight_rest(1,2) [OF assms(2)] by (auto simp: fewer_flights_def some_flight_def split: if_splits)

section \<open>Every step keeps it\<close>

lemma flight_committed:
  assumes "flight_ok db f" "db_inv db" "fl_actions f = Commit cx now ws # rest" "apply_writes cx now ws db = Inr db'"
  shows "db_inv db'" "rows_from (flight_new f) db db'" "history_about (flight_ids f) db db'"
    "flight_ok db' (f\<lparr>fl_actions := rest\<rparr>)"
proof -
  let ?f = "f\<lparr>fl_actions := rest\<rparr>"
  have "set ws \<subseteq> set (flight_writes f)" using assms(3) by (simp add: flight_writes_def)
  then have good: "list_all (good_write (fl_user f) (flight_new f) (flight_ids f)) ws"
    using flight_okD(1) [OF assms(1)] unfolding list_all_iff by blast
  have own: "own_inv (fl_user f) (flight_new f) (flight_ids f) db'"
    by (rule apply_writes_good [OF good assms(4) flight_own [OF assms(1,2)]])
  then show "db_inv db'" by (simp add: own_inv_def)
  show "rows_from (flight_new f) db db'" by (rule apply_writes_rows [OF good assms(4)])
  show "history_about (flight_ids f) db db'" by (rule apply_writes_about [OF good assms(4)])
  have "filter is_commit rest = []"
    using flight_okD(4) [OF assms(1)] assms(3) by simp
  then have "action_writes a = []" if "a \<in> set rest" for a
    using that by (cases a) (auto simp: filter_empty_conv)
  then have none: "flight_writes ?f = []" by (simp add: flight_writes_def)
  then have new: "flight_new ?f = {}" by (simp add: flight_new_def)
  show "flight_ok db' ?f"
  proof (rule flight_okI)
    show "v = fl_user ?f" if "(i, v) \<in> set (owners db')" "i \<in> flight_ids ?f" for i v
    proof -
      have "i \<in> flight_ids f" using that(2) flight_rest(2) [OF assms(3)] by blast
      then show ?thesis using own that(1) unfolding own_inv_def by simp
    qed
    show "length (filter is_commit (fl_actions ?f)) \<le> 1" using \<open>filter is_commit rest = []\<close> by simp
  qed (simp_all add: none new)
qed

lemma other_flight_ok:
  assumes "service_inv s" "sv_flights s k = Some f" "sv_flights s k' = Some f'" "k' \<noteq> k"
    and "rows_from (flight_new f) (st_db (sv_app s)) db'" "history_about (flight_ids f) (st_db (sv_app s)) db'"
  shows "flight_ok db' f'"
proof (rule flight_ok_change [OF service_invD(2) [OF assms(1,3)] assms(5,6)])
  show "flight_new f \<inter> flight_ids f' = {}"
    by (rule service_invD(3) [OF assms(1-3)]) (use assms(4) in simp)
  show "flight_ids f \<inter> flight_new f' = {}"
    using service_invD(3) [OF assms(1,3,2,4)] by blast
qed

lemma history_about_refl [simp]: "history_about ids db db"
  by (simp add: history_about_def)

text \<open>Steps that leave the database alone and have no more under way.\<close>

lemma service_inv_same_db:
  assumes "service_inv s" "st_db (sv_app t) = st_db (sv_app s)" "fewer_flights s t"
    and "\<And>k f. sv_flights t k = Some f \<Longrightarrow> flight_ok (st_db (sv_app s)) f"
    and "\<And>k cx task outcome. sv_runs t k = Some (cx, task, outcome) \<Longrightarrow> run_ok s task"
  shows "service_inv t"
  by (rule service_inv_change [OF assms(1), where new = "{}" and ids = "{}"])
    (use assms service_invD(1) [OF assms(1)] in \<open>simp_all add: row_origin.R_refl\<close>)

lemma action_keeps:
  assumes "service_inv s" "sv_flights s k = Some f" "fl_actions f = a # rest"
    and "run_action (fl_env f) a (sv_app s) = Inr st"
    and "t = s\<lparr>sv_app := st, sv_flights := (sv_flights s)(k := some_flight (f\<lparr>fl_actions := rest\<rparr>))\<rparr>"
  shows "service_inv t"
proof -
  have few: "fewer_flights s t" using assms(2,3,5) by (intro fewer_flights_rest) simp_all
  note ok = service_invD(2) [OF assms(1,2)]
  have flight: "g = f\<lparr>fl_actions := rest\<rparr> \<and> k' = k \<or> sv_flights s k' = Some g \<and> k' \<noteq> k"
    if "sv_flights t k' = Some g" for k' g
    using that assms(5) by (auto simp: some_flight_def split: if_splits)
  have runs: "run_ok s task" if "sv_runs t k' = Some (cx, task, outcome)" for k' cx task outcome
    using that assms(5) service_invD(4) [OF assms(1)] by simp
  show ?thesis
  proof (cases a)
    case (Commit cx now ws)
    have st: "apply_writes cx now ws (st_db (sv_app s)) = Inr (st_db (sv_app t))"
      using assms(4,5) Commit by (auto simp: rbind_eq_Inr)
    note new = flight_committed [OF ok service_invD(1) [OF assms(1)] assms(3) [unfolded Commit] st]
    show ?thesis
    proof (rule service_inv_change [OF assms(1) new(1-3) _ few])
      show "flight_ok (st_db (sv_app t)) g" if "sv_flights t k' = Some g" for k' g
        using flight [OF that] new(4) other_flight_ok [OF assms(1,2) _ _ new(2,3)] by blast
      show "run_ok s task \<and> t_id task \<notin> flight_new f" if r: "sv_runs t k' = Some (cx', task, outcome)"
        for k' cx' task outcome
        using runs [OF r] assms(2) by (auto simp: run_ok_def)
    qed
  next
    case (Background b)
    show ?thesis
    proof (rule service_inv_same_db [OF assms(1) _ few])
      show "st_db (sv_app t) = st_db (sv_app s)"
        using assms(4,5) Background by (auto simp: rbind_eq_Inr)
      show "flight_ok (st_db (sv_app s)) g" if "sv_flights t k' = Some g" for k' g
        using flight [OF that] flight_ok_rest [OF ok assms(3)] service_invD(2) [OF assms(1)] by blast
    qed (rule runs)
  qed
qed

text \<open>What a handler commits itself is at most a history row about a task that is there.\<close>

lemma run_task_about:
  assumes "user_session cx (cu_user_id user)"
  shows "history_about (t_id ` set (db_tasks db)) db (ho_db (run_task env g lib cx i user task_id db))"
proof (cases "get_task_or_404 cx db task_id")
  case (Inr task)
  have "history_about (t_id ` set (db_tasks db)) db db'"
    if "apply_writes cx now [record_execution i now u (t_id task) src url b st m] db = Inr db'"
    for now u src url b st m db'
  proof -
    have "list_all (good_write u {} {t_id task}) [record_execution i now u (t_id task) src url b st m]" by simp
    from apply_writes_about [OF this that] show ?thesis
      using get_task_own(1) [OF assms Inr] unfolding history_about_def by blast
  qed
  then show ?thesis using Inr by (auto simp: run_task_def Let_def split: sum.splits prod.splits)
qed (simp add: run_task_def)

lemma run_handler_about:
  assumes "user_session cx (cu_user_id user)" "run_handler env cx user request db = Some out"
  shows "history_about (t_id ` set (db_tasks db)) db (ho_db out) \<and> db_tasks (ho_db out) = db_tasks db"
proof (cases "only_reads request")
  case True
  then show ?thesis using run_handler_reads [OF assms(2)] by simp
next
  case False
  have c: "ho_db (create_task pe llm cx ids user body db) = db" for pe llm ids body
    by (auto simp: create_task_def and_then_def Let_def split: sum.splits prod.splits)
  have a: "ho_db (and_then db r (\<lambda>x. map_out f (create_task pe llm cx ids user (h x) db))) = db"
    for r :: "trigger_spec result" and f pe llm ids h
    by (cases r) (simp_all add: c)
  have l: "ho_db (deactivate_task pe cx i user tid db) = db" "ho_db (activate_task pe cx i user tid db) = db"
    "ho_db (delete_task pe cx i user tid db) = db" for pe i tid
    by (auto simp: deactivate_task_def activate_task_def delete_task_def and_then_def Let_def split: sum.splits)
  show ?thesis
    using False assms(2) run_task_about [OF assms(1)]
    by (cases request) (auto simp: run_handler_def a l run_task_tasks)
qed

lemma request_handled_keeps:
  assumes "service_inv s" "unused_id (fst (ap_ids env)) s" "sv_flights s k = None"
    and "authenticate (ap_auth env) (pe_clock (ap_parse env) 0) http = Inr user"
    and "run_handler env (request_session env user) user request (st_db (sv_app s)) = Some out"
    and "t = s\<lparr>sv_app := (sv_app s)\<lparr>st_db := ho_db out\<rparr>,
          sv_flights := (sv_flights s)(k := some_flight
            \<lparr>fl_env = env, fl_user = cu_user_id user,
             fl_actions = request_actions env (request_session env user) out\<rparr>)\<rparr>"
  shows "service_inv t \<and> history_extends (st_db (sv_app s)) (st_db (sv_app t))"
proof -
  let ?i = "fst (ap_ids env)" and ?db = "st_db (sv_app s)" and ?cx = "request_session env user"
  let ?f = "\<lparr>fl_env = env, fl_user = cu_user_id user, fl_actions = request_actions env ?cx out\<rparr>"
  have session: "user_session ?cx (cu_user_id user)" by (rule authenticate_session [OF assms(4)])
  note inv = service_invD(1) [OF assms(1)]
  have i: "?i \<notin> t_id ` set (db_tasks ?db)" "?i \<notin> h_task_id ` set (db_history ?db)"
    using assms(2) by (simp_all add: unused_id_def)
  note flight = handled_flight_ok [OF assms(4) inv assms(5) i refl]
  note about = run_handler_about [OF session assms(5)]
  have owners: "owners (ho_db out) = owners ?db" using about by (simp add: owners_def)
  then have rows: "rows_from {} ?db (ho_db out)" by (simp add: rows_from_def)
  have new: "{?i} \<subseteq> own_ids (cu_user_id user) ?db" using i(1) by (auto simp: own_ids_def image_iff)
  have own: "own_inv (cu_user_id user) {?i} (own_ids (cu_user_id user) ?db) ?db"
    using inv i(2) new by (auto simp: own_inv_def owners_def own_ids_def image_iff)
  have good: "good_out ?cx (cu_user_id user) {?i} (own_ids (cu_user_id user) ?db) ?db out"
    using inv by (intro run_handler_good [OF session _ assms(5) singletonI new]) (simp add: db_inv_def)
  have db: "db_inv (ho_db out)" "history_extends ?db (ho_db out)"
    using good_out_db [OF good own] by (simp_all add: own_inv_def)
  have known: "i \<in> t_id ` set (db_tasks ?db) \<Longrightarrow> i \<notin> flight_new g" if "sv_flights s k' = Some g" for i k' g
    using flight_okD(3) [OF service_invD(2) [OF assms(1) that]] by blast
  have old: "flight_ok (ho_db out) g" if "sv_flights s k' = Some g" for k' g
    by (rule flight_ok_change [OF service_invD(2) [OF assms(1) that] rows conjunct1 [OF about]])
      (use known [OF that] in blast)+
  have now: "sv_flights t k' = Some g \<Longrightarrow> g = ?f \<and> k' = k \<or> sv_flights s k' = Some g \<and> k' \<noteq> k" for k' g
    using assms(6) by (auto simp: some_flight_def split: if_splits)
  have apart: "flight_new ?f \<inter> flight_ids g = {} \<and> flight_new g \<inter> flight_ids ?f = {}"
    if "sv_flights s k' = Some g" for k' g
  proof -
    have "?i \<notin> flight_ids g" using assms(2) that unfolding unused_id_def by blast
    then show ?thesis using flight(2,3) known [OF that] flight_new_ids [of g] by blast
  qed
  have "service_inv t"
  proof (rule service_invI)
    show "db_inv (st_db (sv_app t))" using db(1) assms(6) by simp
    show "flight_ok (st_db (sv_app t)) g" if "sv_flights t k' = Some g" for k' g
      using now [OF that] old flight(1) assms(6) by auto
    show "flight_new g \<inter> flight_ids g' = {}"
      if "sv_flights t k' = Some g" "sv_flights t k'' = Some g'" "k' \<noteq> k''" for k' k'' g g'
      using now [OF that(1)] now [OF that(2)] that(3) apart service_invD(3) [OF assms(1) _ _ that(3)] by blast
    show "run_ok t task" if r: "sv_runs t k' = Some (cx, task, outcome)" for k' cx task outcome
    proof -
      have r: "sv_runs s k' = Some (cx, task, outcome)" using r assms(6) by simp
      have "?i \<noteq> t_id task" using assms(2) r unfolding unused_id_def by blast
      then have "t_id task \<notin> flight_new g" if "sv_flights t k'' = Some g" for k'' g
        using now [OF that] flight(2) service_invD(4) [OF assms(1) r]
        by (elim disjE conjE) (auto simp: run_ok_def)
      then show ?thesis
        using service_invD(4) [OF assms(1) r] owners assms(6) unfolding run_ok_def by simp
    qed
  qed
  then show ?thesis using db(2) assms(6) by simp
qed

lemma run_ends_keeps:
  assumes "service_inv s" "sv_runs s k = Some (cx, task, outcome)"
    and "execution_finish g i now cx task outcome (st_db (sv_app s)) = r"
    and "t = s\<lparr>sv_app := \<lparr>st_db = er_db r, st_schedules = apply_scheds (er_calls r) (st_schedules (sv_app s))\<rparr>,
          sv_runs := (sv_runs s)(k := None)\<rparr>"
  shows "service_inv t \<and> history_extends (st_db (sv_app s)) (st_db (sv_app t))"
proof -
  let ?db = "st_db (sv_app s)"
  note inv = service_invD(1) [OF assms(1)] and run = service_invD(4) [OF assms(1,2)]
  have "v = t_user_id task" if "(t_id task, v) \<in> set (owners ?db)" for v
    using that run by (simp add: run_ok_def)
  note keeps = execution_finish_keeps [OF assms(3) inv this]
  have about: "history_about {t_id task} ?db (er_db r)"
    using execution_finish_writes [OF assms(3)] apply_writes_about by fastforce
  have few: "fewer_flights s t" using assms(4) by simp
  have "service_inv t"
  proof (rule service_inv_change [OF assms(1) _ _ _ _ few, where new = "{}" and ids = "{t_id task}"])
    show "flight_ok (st_db (sv_app t)) f" if "sv_flights t k' = Some f" for k' f
    proof -
      have f: "sv_flights s k' = Some f" using that assms(4) by simp
      show ?thesis
        by (rule flight_ok_change [OF service_invD(2) [OF assms(1) f], of "{}" _ "{t_id task}"])
          (use keeps about run f assms(4) in \<open>auto simp: run_ok_def\<close>)
    qed
    show "run_ok s task' \<and> t_id task' \<notin> {}" if "sv_runs t k' = Some (cx', task', outcome')" for k' cx' task' outcome'
      using that assms(4) service_invD(4) [OF assms(1)] by (simp split: if_splits)
  qed (use keeps about assms(4) in simp_all)
  then show ?thesis using keeps assms(4) by simp
qed

lemma execution_begin_fired:
  assumes "execution_begin g lib now db task_id = (ExecutionFired cx task outcome, sent)"
  shows "task \<in> set (db_tasks db)" "t_is_active task" "uuid_parse task_id = Inr (t_id task)"
    "fire_task_webhook g lib now task = (Inr outcome, sent)"
proof -
  obtain factory where l: "load_task (set_scheduler_rls factory) db task_id = Inr (Some task)"
    and f: "t_is_active task" "fire_task_webhook g lib now task = (Inr outcome, sent)"
    using assms by (auto simp: execution_begin_def Let_def split: option.splits sum.splits prod.splits if_splits)
  show "task \<in> set (db_tasks db)" "uuid_parse task_id = Inr (t_id task)" using load_task_Inr [OF l] .
qed (use assms in \<open>auto simp: execution_begin_def Let_def split: option.splits sum.splits prod.splits if_splits\<close>)

lemma job_fires_keeps:
  assumes "service_inv s" "execution_begin g lib now (st_db (sv_app s)) task_id = (ExecutionFired cx task outcome, sent)"
    and "t = s\<lparr>sv_jobs := js, sv_runs := (sv_runs s)(k \<mapsto> (cx, task, outcome))\<rparr>"
  shows "service_inv t"
proof (rule service_inv_same_db [OF assms(1)])
  note here = execution_begin_fired(1) [OF assms(2)] and inv = service_invD(1) [OF assms(1)]
  have "v = t_user_id task" if "(t_id task, v) \<in> set (owners (st_db (sv_app s)))" for v
    using that here inv same_id by (auto simp: owners_def db_inv_def)
  moreover have "t_id task \<notin> flight_new f" if "sv_flights s k' = Some f" for k' f
    using flight_okD(3) [OF service_invD(2) [OF assms(1) that]] here by blast
  ultimately have "run_ok s task" by (simp add: run_ok_def)
  then show "run_ok s task'" if "sv_runs t k' = Some (cx', task', outcome')" for k' cx' task' outcome'
    using that assms(3) service_invD(4) [OF assms(1)] by (auto split: if_splits)
qed (use assms service_invD(2) [OF assms(1)] in simp_all)

lemma service_step_keeps:
  assumes "service_step b g lib aps s t" "service_inv s"
  shows "service_inv t \<and> history_extends (st_db (sv_app s)) (st_db (sv_app t))"
  using assms(1)
proof (cases rule: service_step.cases)
  case (request_handled env k http user request out)
  show ?thesis
    by (rule request_handled_keeps [OF assms(2) request_handled(3-6)]) (use request_handled(1) in simp)
next
  case (action_done k f a rest st)
  have "history_extends (st_db (sv_app s)) (st_db st)"
    using action_done(4) by (cases a) (auto simp: rbind_eq_Inr dest: apply_writes_history)
  then show ?thesis using action_keeps [OF assms(2) action_done(2-4,1)] action_done(1) by simp
next
  case (action_fails k f a rest e)
  have "service_inv t"
    by (rule service_inv_same_db [OF assms(2)])
      (use action_fails(1) service_invD(2,4) [OF assms(2)] in
        \<open>auto simp: fewer_flights_drop split: if_splits\<close>)
  then show ?thesis using action_fails(1) by simp
next
  case (job_fires task_id k now cx task outcome sent)
  then show ?thesis using job_fires_keeps [OF assms(2) job_fires(4,1)] by simp
next
  case (run_ends k cx task outcome i now r)
  show ?thesis by (rule run_ends_keeps [OF assms(2) run_ends(2,3,1)])
next
  case (job_done task_id now r sent)
  have "service_inv t"
    by (rule service_inv_same_db [OF assms(2)]) (use job_done(1) service_invD(2,4) [OF assms(2)] in simp_all)
  then show ?thesis using job_done(1) by simp
next
  case (schedule_fires key trigger task_id d trigger')
  have "service_inv t"
    by (rule service_inv_same_db [OF assms(2)]) (use schedule_fires(1) service_invD(2,4) [OF assms(2)] in simp_all)
  then show ?thesis using schedule_fires(1) by simp
next
  case (schedule_over key trigger args trigger')
  have "service_inv t"
    by (rule service_inv_same_db [OF assms(2)]) (use schedule_over(1) service_invD(2,4) [OF assms(2)] in simp_all)
  then show ?thesis using schedule_over(1) by simp
qed

lemma initial_service_inv: "service_inv initial_service"
  by (simp add: initial_service_def service_inv_def db_inv_def db_ok_def paused_ok_def history_owned_def)

lemma reached_service_inv: "service_steps b g lib aps initial_service s \<Longrightarrow> service_inv s"
  by (induction rule: rtranclp_induct) (use initial_service_inv service_step_keeps in blast)+

section \<open>Schedules and jobs\<close>

text \<open>A schedule has the text of an id as its key and as its argument, and so have the jobs.\<close>

definition schedules_keyed :: "'t schedules \<Rightarrow> bool" where
  "schedules_keyed m \<longleftrightarrow>
     (\<forall>key trigger args. m key = Some (trigger, args) \<longrightarrow> args = [key] \<and> (\<exists>i. key = uuid_str i))"

definition jobs_keyed :: "'t service \<Rightarrow> bool" where
  "jobs_keyed s \<longleftrightarrow> schedules_keyed (st_schedules (sv_app s)) \<and> (\<forall>j \<in> set (sv_jobs s). \<exists>i. j = uuid_str i)"

lemma schedules_keyed_del: "schedules_keyed m \<Longrightarrow> schedules_keyed (m(key := None))"
  by (simp add: schedules_keyed_def)

lemma run_background_keyed: "run_background env b m = Inr m' \<Longrightarrow> schedules_keyed m \<Longrightarrow> schedules_keyed m'"
  by (cases b)
    (auto simp: run_background_def register_schedule_def unregister_schedule_def rbind_eq_Inr schedules_keyed_def
      split: if_splits)

lemma execution_finish_keyed:
  assumes "execution_finish g i now cx task outcome db = r" "schedules_keyed m"
  shows "schedules_keyed (apply_scheds (er_calls r) m)"
proof -
  have "er_calls r = [] \<or> er_calls r = [RemoveSchedule (uuid_str (t_id task))]"
    using assms(1) unfolding execution_finish_def Let_def by (auto split: sum.splits if_splits)
  then show ?thesis using assms(2) schedules_keyed_del by (auto simp: apply_scheds_def)
qed

lemma service_step_keyed:
  assumes "service_step b g lib aps s t" "jobs_keyed s"
  shows "jobs_keyed t"
  using assms(1)
proof (cases rule: service_step.cases)
  case (action_done k f a rest st)
  have "schedules_keyed (st_schedules st)"
    using action_done(4) assms(2) run_background_keyed
    by (cases a) (auto simp: rbind_eq_Inr jobs_keyed_def)
  then show ?thesis using action_done(1) assms(2) by (simp add: jobs_keyed_def)
next
  case (schedule_fires key trigger task_id d trigger')
  then show ?thesis using assms(2) by (auto simp: jobs_keyed_def schedules_keyed_def split: if_splits)
next
  case (schedule_over key trigger args trigger')
  then show ?thesis using assms(2) by (auto simp: jobs_keyed_def intro!: schedules_keyed_del)
next
  case (run_ends k cx task outcome i now r)
  then show ?thesis using assms(2) execution_finish_keyed [OF run_ends(3)] by (simp add: jobs_keyed_def)
qed (use assms(2) in \<open>auto simp: jobs_keyed_def dest: set_remove1_subset [THEN subsetD]\<close>)

lemma reached_keyed: "service_steps b g lib aps initial_service s \<Longrightarrow> jobs_keyed s"
proof (induction rule: rtranclp_induct)
  case base
  show ?case by (simp add: jobs_keyed_def schedules_keyed_def initial_service_def)
next
  case (step s t)
  then show ?case using service_step_keyed by blast
qed

lemma execution_begin_sent:
  assumes "execution_begin g lib now db task_id = (phase, sent)" "q \<in> set sent"
  shows "\<exists>task token. task \<in> set (db_tasks db) \<and> t_is_active task \<and> uuid_parse task_id = Inr (t_id task)
    \<and> q = webhook_request_for task token"
proof -
  obtain factory task where l: "load_task (set_scheduler_rls factory) db task_id = Inr (Some task)" "t_is_active task"
    and f: "snd (fire_task_webhook g lib now task) = sent"
    using assms
    by (auto simp: execution_begin_def Let_def split: option.splits sum.splits prod.splits if_splits)
  have "\<exists>token. q = webhook_request_for task token"
    using f assms(2) by (auto simp: fire_task_webhook_def Let_def split: sum.splits prod.splits)
  then show ?thesis using load_task_Inr [OF l(1)] l(2) by blast
qed

lemma good_write_touches: "good_write u new own w \<Longrightarrow> write_ids w \<subseteq> own \<Longrightarrow> touches u own w"
  by (cases w) auto

section \<open>Properties\<close>

text \<open>
  (C1) The invariant of the service, in every state that any interleaving reaches of the parts of
  requests of all users with the scheduler and its jobs, in either order at the end of a request:
  the ids of tasks and of history rows are distinct, every history row satisfies the constraint of
  its table and has a known source, an inactive task has no next fire time, and the history of a
  task belongs to the owner of the task. No step ever loses or changes a history row.
\<close>

theorem interleaved_invariant:
  assumes "service_steps background_first g lib aps initial_service s"
  shows "distinct (map t_id (db_tasks (st_db (sv_app s))))
    \<and> distinct (map h_id (db_history (st_db (sv_app s))))
    \<and> (\<forall>h \<in> set (db_history (st_db (sv_app s))). task_history_event_shape h \<and> source_ok h)
    \<and> (\<forall>t \<in> set (db_tasks (st_db (sv_app s))). \<not> t_is_active t \<longrightarrow> t_next_run_at t = None)
    \<and> (\<forall>t \<in> set (db_tasks (st_db (sv_app s))). \<forall>h \<in> set (db_history (st_db (sv_app s))).
         h_task_id h = t_id t \<longrightarrow> h_user_id h = t_user_id t)
    \<and> (\<forall>t. service_step background_first g lib aps s t \<longrightarrow>
         (\<exists>rows. db_history (st_db (sv_app t)) = db_history (st_db (sv_app s)) @ rows))"
proof -
  have inv: "service_inv s" by (rule reached_service_inv [OF assms])
  then have "history_extends (st_db (sv_app s)) (st_db (sv_app t))" if "service_step background_first g lib aps s t" for t
    using service_step_keeps [OF that] by blast
  then show ?thesis
    using service_invD(1) [OF inv]
    by (auto simp: db_inv_def db_ok_def paused_ok_def history_owned_def owners_def history_extends_def
        list_all_iff history_row_ok_def)
qed

text \<open>
  (C6) Tenant isolation under concurrency: whatever has happened between the reading of a user's
  request and one of its later steps, a commit or a background task, that step leaves the tasks,
  the history and the schedules of everybody else as they are. Requests of others that run at the
  same time, and ids that are deleted and created meanwhile, make no difference.
\<close>

theorem interleaved_isolation:
  assumes "service_steps background_first g lib aps initial_service s"
    and "sv_flights s k = Some f" "fl_actions f = a # rest" "run_action (fl_env f) a (sv_app s) = Inr st"
  shows "filter (\<lambda>t. t_user_id t \<noteq> fl_user f) (db_tasks (st_db st))
       = filter (\<lambda>t. t_user_id t \<noteq> fl_user f) (db_tasks (st_db (sv_app s)))
    \<and> filter (\<lambda>h. h_user_id h \<noteq> fl_user f) (db_history (st_db st))
       = filter (\<lambda>h. h_user_id h \<noteq> fl_user f) (db_history (st_db (sv_app s)))
    \<and> (\<forall>t \<in> set (db_tasks (st_db (sv_app s))). t_user_id t \<noteq> fl_user f \<longrightarrow>
         st_schedules st (uuid_str (t_id t)) = st_schedules (sv_app s) (uuid_str (t_id t)))"
proof -
  note ok = flight_okD [OF service_invD(2) [OF reached_service_inv [OF assms(1)] assms(2)]]
  have own: "t_user_id t = fl_user f" if "t \<in> set (db_tasks (st_db (sv_app s)))" "t_id t \<in> flight_ids f" for t
    using ok(2) [of "t_id t" "t_user_id t"] that by (auto simp: owners_def)
  show ?thesis
  proof (cases a)
    case (Commit cx now ws)
    have w: "w \<in> set (flight_writes f)" if "w \<in> set ws" for w
      using that assms(3) Commit by (simp add: flight_writes_def)
    have "touches (fl_user f) (flight_ids f) w" if "w \<in> set ws" for w
      using ok(1) w [OF that] flight_writes_ids [OF w [OF that]] good_write_touches
      unfolding list_all_iff by blast
    then have t: "list_all (touches (fl_user f) (flight_ids f)) ws" by (simp add: list_all_iff)
    obtain db where db: "apply_writes cx now ws (st_db (sv_app s)) = Inr db" "st = (sv_app s)\<lparr>st_db := db\<rparr>"
      using assms(4) Commit by (auto simp: rbind_eq_Inr)
    show ?thesis
      using apply_writes_isolated [OF t db(1)] own db(2)
      by (auto simp: isolated_def others_tasks_def others_history_def)
  next
    case (Background b)
    have "background_id b \<in> flight_ids f" using assms(3) Background by (simp add: flight_ids_def)
    moreover obtain m where m: "run_background (fl_env f) b (st_schedules (sv_app s)) = Inr m"
      "st = (sv_app s)\<lparr>st_schedules := m\<rparr>"
      using assms(4) Background by (auto simp: rbind_eq_Inr)
    ultimately have "st_schedules st (uuid_str (t_id t)) = st_schedules (sv_app s) (uuid_str (t_id t))"
      if "t \<in> set (db_tasks (st_db (sv_app s)))" "t_user_id t \<noteq> fl_user f" for t
      using run_background_other [OF m(1), of "t_id t"] own [OF that(1)] that(2) by fastforce
    then show ?thesis using m(2) by simp
  qed
qed

text \<open>
  (C10) What the scheduler sends: in every reachable state, a job that sends a webhook does it for a
  task that is stored and active at that moment, whose id is the job's argument, to that task's
  address and with its parameters. A schedule that outlives its task or is left behind by a pause
  starts jobs that send nothing.
\<close>

theorem job_fires_active_task:
  assumes "service_steps background_first g lib aps initial_service s" "task_id \<in> set (sv_jobs s)"
    and "execution_begin g lib now (st_db (sv_app s)) task_id = (phase, sent)" "q \<in> set sent"
  shows "\<exists>t \<in> set (db_tasks (st_db (sv_app s))). t_is_active t \<and> task_id = uuid_str (t_id t)
    \<and> wq_url q = t_webhook_url t \<and> wq_params q = t_parameters t"
proof -
  obtain task token where t: "task \<in> set (db_tasks (st_db (sv_app s)))" "t_is_active task"
    "uuid_parse task_id = Inr (t_id task)" "q = webhook_request_for task token"
    using execution_begin_sent [OF assms(3,4)] by blast
  obtain i where "task_id = uuid_str i" using reached_keyed [OF assms(1)] assms(2) by (auto simp: jobs_keyed_def)
  then have "task_id = uuid_str (t_id task)" using t(3) by (simp add: uuid_parse_str)
  then show ?thesis using t by (auto simp: webhook_request_for_def)
qed

section \<open>Witnesses\<close>

text \<open>
  A user creates a task that runs every hour: the state before the commit, and the one after it, in
  which the scheduler has started the first job.
\<close>

lemma hourly_next:
  "trigger_next demo_aps hourly = Inr (Some (utc_datetime (instant frozen_time)),
     DemoEvery (instant frozen_time + 3600 * us_per_second) (3600 * us_per_second))"
  by (simp add: demo_aps_def hourly_def time_units frozen_time_def wall_ok_def max_wall_def instant_def utcoffset_def)

lemma demo_fire_sent:
  assumes "t_user_id t = ''user-1''"
  shows "\<exists>q. fire_task_webhook (demo_globals bypass returning status) demo_jwt frozen_time t
    = (outcome_of (HttpResponse status), [q])"
  using assms
  by (simp add: fire_task_webhook_def demo_globals_def init_executor_def require_executor_def
      default_scheduler_settings_def mk_timedelta_def time_units encode_token_def frozen_time_def
      dt_add_def wall_ok_def claims_update_def webhook_claims_def demo_jwt_def demo_encode_def)

lemma demo_service:
  "\<exists>s f cx new row task st.
      service_steps True (demo_globals True True 200) demo_jwt demo_aps initial_service s
    \<and> sv_flights s 0 = Some f \<and> fl_actions f = [Commit cx frozen_time [InsertTask new, InsertHistory row]]
    \<and> run_action (fl_env f) (Commit cx frozen_time [InsertTask new, InsertHistory row]) (sv_app s) = Inr st
    \<and> st_db (sv_app s) = empty_db
    \<and> fl_user f = ''user-1'' \<and> db_tasks (st_db st) = [task] \<and> t_id task = 7 \<and> t_is_active task
    \<and> t_user_id task = ''user-1'' \<and> length (db_history (st_db st)) = 1
    \<and> service_steps True (demo_globals True True 200) demo_jwt demo_aps initial_service
        (s\<lparr>sv_app := st\<lparr>st_schedules :=
             [uuid_str 7 \<mapsto> (DemoEvery (instant frozen_time + 3600 * us_per_second) (3600 * us_per_second), [uuid_str 7])]\<rparr>,
           sv_flights := Map.empty, sv_jobs := [uuid_str 7]\<rparr>)"
proof -
  let ?steps = "service_steps True (demo_globals True True 200) demo_jwt demo_aps"
  let ?later = "DemoEvery (instant frozen_time + 3600 * us_per_second) (3600 * us_per_second)"
  let ?cx = "request_session (demo_app True) demo_user"
  obtain new row task where
    steps: "?steps initial_service (initial_service\<lparr>sv_app := empty_state\<lparr>st_schedules := [uuid_str 7 \<mapsto> (hourly, [uuid_str 7])]\<rparr>,
        sv_flights := [0 \<mapsto> \<lparr>fl_env = demo_app True, fl_user = ''user-1'',
          fl_actions = [Commit ?cx frozen_time [InsertTask new, InsertHistory row]]\<rparr>]\<rparr>)"
    and commit: "apply_writes ?cx frozen_time [InsertTask new, InsertHistory row] empty_db
      = Inr \<lparr>db_tasks = [task], db_history = [stored_history frozen_time row]\<rparr>"
    and task: "t_id task = 7" "t_is_active task" "t_user_id task = ''user-1''"
    using creation_steps [OF demo_unused, where b1 = True and f = 0 and g = "demo_globals True True 200"
        and lib = demo_jwt and aps = demo_aps and url = "''https://example.com/hook''" and parameters = "[]",
        OF _ _ hourly_setup(1) _ hourly_setup(5-)]
    by (auto simp: demo_user_def empty_state_def)
  let ?s = "initial_service\<lparr>sv_app := empty_state\<lparr>st_schedules := [uuid_str 7 \<mapsto> (hourly, [uuid_str 7])]\<rparr>,
      sv_flights := [0 \<mapsto> \<lparr>fl_env = demo_app True, fl_user = ''user-1'',
        fl_actions = [Commit ?cx frozen_time [InsertTask new, InsertHistory row]]\<rparr>]\<rparr>"
  let ?st = "empty_state\<lparr>st_db := \<lparr>db_tasks = [task], db_history = [stored_history frozen_time row]\<rparr>,
      st_schedules := [uuid_str 7 \<mapsto> (hourly, [uuid_str 7])]\<rparr>"
  have run: "run_action (demo_app True) (Commit ?cx frozen_time [InsertTask new, InsertHistory row]) (sv_app ?s) = Inr ?st"
    using commit by simp
  have "service_step True (demo_globals True True 200) demo_jwt demo_aps ?s
      (?s\<lparr>sv_app := ?st, sv_flights := Map.empty\<rparr>)"
    using service_step.action_done [of ?s 0 _ _ _ ?st] run by (fastforce simp: some_flight_def)
  moreover have "service_step True (demo_globals True True 200) demo_jwt demo_aps
      (?s\<lparr>sv_app := ?st, sv_flights := Map.empty\<rparr>)
      (?s\<lparr>sv_app := ?st\<lparr>st_schedules := [uuid_str 7 \<mapsto> (?later, [uuid_str 7])]\<rparr>,
          sv_flights := Map.empty, sv_jobs := [uuid_str 7]\<rparr>)"
    using service_step.schedule_fires [of "?s\<lparr>sv_app := ?st, sv_flights := Map.empty\<rparr>" "uuid_str 7" hourly
        "uuid_str 7" demo_aps "utc_datetime (instant frozen_time)" ?later] hourly_next
    by (simp add: initial_service_def empty_state_def)
  ultimately have "?steps initial_service (?s\<lparr>sv_app := ?st\<lparr>st_schedules := [uuid_str 7 \<mapsto> (?later, [uuid_str 7])]\<rparr>,
      sv_flights := Map.empty, sv_jobs := [uuid_str 7]\<rparr>)"
    using steps by (meson rtranclp.rtrancl_into_rtrancl)
  then show ?thesis
    using steps run task
    by (intro exI [of _ ?s] exI [of _ "the (sv_flights ?s 0)"] exI [of _ ?cx] exI [of _ new] exI [of _ row]
        exI [of _ task] exI [of _ ?st]) simp
qed

lemma interleaved_invariant_witness:
  "\<exists>s :: demo_trigger service. length (db_tasks (st_db (sv_app s))) = 1
    \<and> length (db_history (st_db (sv_app s))) = 1
    \<and> (\<forall>h \<in> set (db_history (st_db (sv_app s))). task_history_event_shape h \<and> source_ok h)"
proof -
  obtain s where s: "service_steps True (demo_globals True True 200) demo_jwt demo_aps initial_service s"
    "length (db_tasks (st_db (sv_app s))) = 1" "length (db_history (st_db (sv_app s))) = 1"
    using demo_service by fastforce
  show ?thesis using interleaved_invariant [OF s(1)] s(2,3) by blast
qed

lemma interleaved_isolation_witness:
  "\<exists>(s :: demo_trigger service) (st :: demo_trigger app_state). length (db_tasks (st_db st)) = 1 \<and> db_tasks (st_db (sv_app s)) = []
    \<and> filter (\<lambda>t. t_user_id t \<noteq> ''user-1'') (db_tasks (st_db st))
       = filter (\<lambda>t. t_user_id t \<noteq> ''user-1'') (db_tasks (st_db (sv_app s)))"
proof -
  obtain s f a st where s: "service_steps True (demo_globals True True 200) demo_jwt demo_aps initial_service s"
    "sv_flights s 0 = Some f" "fl_actions f = [a]" "run_action (fl_env f) a (sv_app s) = Inr st"
    "st_db (sv_app s) = empty_db" "fl_user f = ''user-1''" "length (db_tasks (st_db st)) = 1"
    using demo_service by fastforce
  show ?thesis using interleaved_isolation [OF s(1-4)] s(5-7) by (intro exI [of _ s] exI [of _ st]) simp
qed

lemma job_fires_active_task_witness:
  "\<exists>(s :: demo_trigger service) (q :: webhook_request). \<exists>t \<in> set (db_tasks (st_db (sv_app s))). t_is_active t \<and> wq_url q = t_webhook_url t"
proof -
  obtain s task where s: "service_steps True (demo_globals True True 200) demo_jwt demo_aps initial_service s"
    "uuid_str 7 \<in> set (sv_jobs s)" "db_tasks (st_db (sv_app s)) = [task]" "t_id task = 7" "t_is_active task"
    "t_user_id task = ''user-1''"
    using demo_service by fastforce
  have ok: "db_ok (st_db (sv_app s))" using service_invD(1) [OF reached_service_inv [OF s(1)]] by (simp add: db_inv_def)
  have "load_task (set_scheduler_rls (new_session True True)) (st_db (sv_app s)) (uuid_str 7) = Inr (Some task)"
    using load_task_found [OF ok, of task True True] s(3,4) by simp
  moreover obtain q where "fire_task_webhook (demo_globals True True 200) demo_jwt frozen_time task
      = (outcome_of (HttpResponse 200), [q])"
    using demo_fire_sent [OF s(6)] by blast
  ultimately obtain phase where "execution_begin (demo_globals True True 200) demo_jwt frozen_time
      (st_db (sv_app s)) (uuid_str 7) = (phase, [q])"
    using s(5) demo_factory(1) by (cases "outcome_of (HttpResponse 200)") (auto simp: execution_begin_def)
  from job_fires_active_task [OF s(1,2) this, of q] show ?thesis by (intro exI [of _ s] exI [of _ q]) auto
qed

end
