(* ===== verification/Events.thy ===== *)
theory Events
  imports Interleaving
begin

text \<open>
  The steps of the interleaved service as events that name what they are about, with what each of
  them shows to the outside: the answer of a handler, the failure of an action, the webhooks.
\<close>

section \<open>Events\<close>

text \<open>
  A handler runs and leaves its actions as flight \<open>k\<close>, the next action of flight \<open>k\<close> runs, the
  schedule of a task is due, a job of a task starts as run \<open>k\<close>, run \<open>k\<close> ends. An event that is not
  enabled leaves the service as it is.
\<close>

datatype 't event =
    Handle nat "'t app_env" http_request api_request
  | Act nat
  | Due uuid
  | Start nat datetime uuid
  | Finish nat uuid datetime

text \<open>What an event shows: the outcome of a handler, of an action, of a run, the webhooks sent.\<close>

datatype shown =
    ShownHandler "(api_body result \<times> webhook_request list) option"
  | ShownAction "exn option"
  | ShownNothing
  | ShownWebhooks "webhook_request list"
  | ShownRun "unit result option"

text \<open>The handler of a request whose user is known; \<open>None\<close> when the request does not get to one.\<close>

definition handled :: "'t app_env \<Rightarrow> http_request \<Rightarrow> api_request \<Rightarrow> db \<Rightarrow> (current_user \<times> api_body handler_out) option" where
  "handled env http request db =
     (case authenticate (ap_auth env) (pe_clock (ap_parse env) 0) http of
        Inl e \<Rightarrow> None
      | Inr user \<Rightarrow> map_option (Pair user) (run_handler env (request_session env user) user request db))"

definition handle_event :: "nat \<Rightarrow> 't app_env \<Rightarrow> http_request \<Rightarrow> api_request \<Rightarrow> 't service \<Rightarrow> 't service" where
  "handle_event k env http request s =
     (if sv_flights s k \<noteq> None then s
      else case handled env http request (st_db (sv_app s)) of
        None \<Rightarrow> s
      | Some (user, out) \<Rightarrow>
          s\<lparr>sv_app := (sv_app s)\<lparr>st_db := ho_db out\<rparr>,
            sv_flights := (sv_flights s)(k := some_flight
              \<lparr>fl_env = env, fl_user = cu_user_id user,
               fl_actions = request_actions env (request_session env user) out\<rparr>)\<rparr>)"

definition act_event :: "nat \<Rightarrow> 't service \<Rightarrow> 't service" where
  "act_event k s =
     (case sv_flights s k of
        None \<Rightarrow> s
      | Some f \<Rightarrow>
          (case fl_actions f of
             [] \<Rightarrow> s
           | a # rest \<Rightarrow>
               (case run_action (fl_env f) a (sv_app s) of
                  Inl e \<Rightarrow> s\<lparr>sv_flights := (sv_flights s)(k := None)\<rparr>
                | Inr st \<Rightarrow>
                    s\<lparr>sv_app := st, sv_flights := (sv_flights s)(k := some_flight (f\<lparr>fl_actions := rest\<rparr>))\<rparr>)))"

definition due_event :: "'t aps \<Rightarrow> uuid \<Rightarrow> 't service \<Rightarrow> 't service" where
  "due_event aps i s =
     (case st_schedules (sv_app s) (uuid_str i) of
        None \<Rightarrow> s
      | Some (trigger, args) \<Rightarrow>
          (case trigger_next aps trigger of
             Inl e \<Rightarrow> s
           | Inr (None, trigger') \<Rightarrow>
               s\<lparr>sv_app := (sv_app s)\<lparr>st_schedules := (st_schedules (sv_app s))(uuid_str i := None)\<rparr>\<rparr>
           | Inr (Some d, trigger') \<Rightarrow>
               (case args of
                  [task_id] \<Rightarrow>
                    s\<lparr>sv_app := (sv_app s)\<lparr>st_schedules :=
                        (st_schedules (sv_app s))(uuid_str i \<mapsto> (trigger', [task_id]))\<rparr>,
                      sv_jobs := task_id # sv_jobs s\<rparr>
                | _ \<Rightarrow> s)))"

definition start_event :: "executor_globals \<Rightarrow> jwt_lib \<Rightarrow> nat \<Rightarrow> datetime \<Rightarrow> uuid \<Rightarrow> 't service \<Rightarrow> 't service" where
  "start_event g lib k now i s =
     (if uuid_str i \<in> set (sv_jobs s) \<and> sv_runs s k = None then
        (case fst (execution_begin g lib now (st_db (sv_app s)) (uuid_str i)) of
           ExecutionDone r \<Rightarrow> s\<lparr>sv_jobs := remove1 (uuid_str i) (sv_jobs s)\<rparr>
         | ExecutionFired cx task outcome \<Rightarrow>
             s\<lparr>sv_jobs := remove1 (uuid_str i) (sv_jobs s),
               sv_runs := (sv_runs s)(k \<mapsto> (cx, task, outcome))\<rparr>)
      else s)"

definition finish_event :: "executor_globals \<Rightarrow> nat \<Rightarrow> uuid \<Rightarrow> datetime \<Rightarrow> 't service \<Rightarrow> 't service" where
  "finish_event g k i now s =
     (case sv_runs s k of
        None \<Rightarrow> s
      | Some (cx, task, outcome) \<Rightarrow>
          let r = execution_finish g i now cx task outcome (st_db (sv_app s))
          in s\<lparr>sv_app := \<lparr>st_db = er_db r, st_schedules = apply_scheds (er_calls r) (st_schedules (sv_app s))\<rparr>,
               sv_runs := (sv_runs s)(k := None)\<rparr>)"

fun event_step :: "executor_globals \<Rightarrow> jwt_lib \<Rightarrow> 't aps \<Rightarrow> 't event \<Rightarrow> 't service \<Rightarrow> 't service" where
  "event_step g lib aps (Handle k env http request) s = handle_event k env http request s"
| "event_step g lib aps (Act k) s = act_event k s"
| "event_step g lib aps (Due i) s = due_event aps i s"
| "event_step g lib aps (Start k now i) s = start_event g lib k now i s"
| "event_step g lib aps (Finish k i now) s = finish_event g k i now s"

fun event_shows :: "executor_globals \<Rightarrow> jwt_lib \<Rightarrow> 't event \<Rightarrow> 't service \<Rightarrow> shown" where
  "event_shows g lib (Handle k env http request) s =
     ShownHandler (if sv_flights s k \<noteq> None then None
       else map_option (\<lambda>(user, out). (ho_result out, ho_sent out)) (handled env http request (st_db (sv_app s))))"
| "event_shows g lib (Act k) s =
     ShownAction (case sv_flights s k of
       None \<Rightarrow> None
     | Some f \<Rightarrow>
         (case fl_actions f of
            [] \<Rightarrow> None
          | a # rest \<Rightarrow>
              (case run_action (fl_env f) a (sv_app s) of Inl e \<Rightarrow> Some e | Inr st \<Rightarrow> None)))"
| "event_shows g lib (Due i) s = ShownNothing"
| "event_shows g lib (Start k now i) s =
     ShownWebhooks (if uuid_str i \<in> set (sv_jobs s) \<and> sv_runs s k = None
       then snd (execution_begin g lib now (st_db (sv_app s)) (uuid_str i)) else [])"
| "event_shows g lib (Finish k i now) s =
     ShownRun (case sv_runs s k of
       None \<Rightarrow> None
     | Some (cx, task, outcome) \<Rightarrow>
         Some (er_result (execution_finish g i now cx task outcome (st_db (sv_app s)) :: 't execution_result)))"

text \<open>An event is a step of the service, or does nothing.\<close>

fun fresh_event :: "bool \<Rightarrow> 't service \<Rightarrow> 't event \<Rightarrow> bool" where
  "fresh_event background_first s (Handle k env http request) \<longleftrightarrow>
     ap_background_first env = background_first \<and> unused_id (fst (ap_ids env)) s"
| "fresh_event background_first s _ \<longleftrightarrow> True"

lemma event_is_step:
  assumes "fresh_event background_first s e"
  shows "event_step g lib aps e s = s \<or> service_step background_first g lib aps s (event_step g lib aps e s)"
proof (cases e)
  case (Handle k env http request)
  then show ?thesis
    using assms request_handled [of env background_first s k http _ request _ g lib aps]
    by (auto simp: handle_event_def handled_def split: option.splits sum.splits)
next
  case (Act k)
  then show ?thesis
    using action_done [of s k _ _ _ _ background_first g lib aps] action_fails [of s k _ _ _ _ background_first g lib aps]
    by (auto simp: act_event_def split: option.splits sum.splits list.splits)
next
  case (Due i)
  then show ?thesis
    using schedule_fires [of s "uuid_str i" _ _ aps _ _ background_first g lib]
      schedule_over [of s "uuid_str i" _ _ aps _ background_first g lib]
    by (auto simp: due_event_def split: option.splits sum.splits list.splits)
next
  case (Start k now i)
  then show ?thesis
    using job_fires [of "uuid_str i" s k g lib now _ _ _ _ background_first aps]
      job_done [of "uuid_str i" s g lib now _ _ background_first aps]
    by (cases "execution_begin g lib now (st_db (sv_app s)) (uuid_str i)")
      (auto simp: start_event_def split: execution_phase.splits)
next
  case (Finish k i now)
  then show ?thesis
    using run_ends [of s k _ _ _ g i now _ background_first lib aps]
    by (auto simp: finish_event_def Let_def split: option.splits)
qed

text \<open>
  The webhooks that an event has sent, those of a run of events, and runs all of whose requests have
  ids that are unused when they come.
\<close>

fun webhooks_shown :: "shown \<Rightarrow> webhook_request list" where
  "webhooks_shown (ShownHandler (Some (r, sent))) = sent"
| "webhooks_shown (ShownWebhooks sent) = sent"
| "webhooks_shown _ = []"

definition webhooks_sent ::
  "executor_globals \<Rightarrow> jwt_lib \<Rightarrow> 't aps \<Rightarrow> 't event list \<Rightarrow> 't service \<Rightarrow> webhook_request list" where
  "webhooks_sent g lib aps es s =
     concat (map webhooks_shown (observed (event_step g lib aps) (event_shows g lib) (\<lambda>_. True) es s))"

fun fresh_events ::
  "bool \<Rightarrow> executor_globals \<Rightarrow> jwt_lib \<Rightarrow> 't aps \<Rightarrow> 't service \<Rightarrow> 't event list \<Rightarrow> bool" where
  "fresh_events background_first g lib aps s [] \<longleftrightarrow> True"
| "fresh_events background_first g lib aps s (e # es) \<longleftrightarrow>
     fresh_event background_first s e \<and> fresh_events background_first g lib aps (event_step g lib aps e s) es"

lemma events_are_steps:
  "fresh_events b g lib aps s es \<Longrightarrow> service_steps b g lib aps s (fold (event_step g lib aps) es s)"
proof (induction es arbitrary: s)
  case (Cons e es)
  then have "service_steps b g lib aps (event_step g lib aps e s) (fold (event_step g lib aps) (e # es) s)" by simp
  then show ?case
    using event_is_step [of b s e g lib aps] Cons.prems by (auto intro: converse_rtranclp_into_rtranclp)
qed simp

lemma webhooks_sent_simps [simp]:
  "webhooks_sent g lib aps [] s = []"
  "webhooks_sent g lib aps (e # es) s
     = webhooks_shown (event_shows g lib e s) @ webhooks_sent g lib aps es (event_step g lib aps e s)"
  by (simp_all add: webhooks_sent_def)

end
