(* ===== verification/Interleaving_Races.thy ===== *)
theory Interleaving_Races
  imports Interleaved_Invariant Events
begin

text \<open>
  What overlapping steps cost. The schedule of a new task is registered before its row is committed,
  and a schedule that is due at once is used up in between. An activation and a deletion that both
  read the paused task leave a schedule without a task.
\<close>

section \<open>A job whose task is not stored\<close>

lemma execution_begin_unknown:
  assumes "i \<notin> t_id ` set (db_tasks db)"
  shows "\<exists>r. execution_begin g lib now db (uuid_str i) = (ExecutionDone r, [])"
proof -
  have none: "select_tasks cx db (\<lambda>t. t_id t = i) = []" for cx
    using assms by (auto simp: select_tasks_def filter_empty_conv)
  show ?thesis
    by (auto simp: execution_begin_def load_task_def Let_def uuid_parse_str none scalar_one_or_none_def
        split: option.splits)
qed

section \<open>A run that is due at once\<close>

text \<open>
  The scheduler takes the new schedule, starts its only job, which does not find the task, and
  drops the schedule, all before the commit.
\<close>

definition lost_events ::
  "nat \<Rightarrow> 't app_env \<Rightarrow> http_request \<Rightarrow> api_request \<Rightarrow> nat \<Rightarrow> datetime \<Rightarrow> 't event list" where
  "lost_events k env http request r now =
     (let i = fst (ap_ids env)
      in [Handle k env http request, Act k, Due i, Start r now i, Due i, Act k])"

lemma lost_run:
  assumes "sv_flights s k = None" "sv_runs s r = None" "ap_background_first env"
    and "st_schedules (sv_app s) (uuid_str i) = None" "i \<notin> t_id ` set (db_tasks (st_db (sv_app s)))"
    and "handled env http request (st_db (sv_app s)) = Some (user, out)" "i = fst (ap_ids env)"
    and "ho_result out = Inr answer" "ho_db out = st_db (sv_app s)" "ho_background out = [b]" "ho_sent out = []"
    and "apply_writes (request_session env user) (pe_clock (ap_parse env) 0) (ho_pending out) (st_db (sv_app s)) = Inr db'"
    and "run_background env b (st_schedules (sv_app s))
           = Inr ((st_schedules (sv_app s))(uuid_str i \<mapsto> (trigger, [uuid_str i])))"
    and "trigger_next aps trigger = Inr (Some d, trigger')" "trigger_next aps trigger' = Inr (None, trigger'')"
  shows "fold (event_step g lib aps) (lost_events k env http request r now) s = s\<lparr>sv_app := (sv_app s)\<lparr>st_db := db'\<rparr>\<rparr>"
    and "webhooks_sent g lib aps (lost_events k env http request r now) s = []"
proof -
  let ?step = "event_step g lib aps" and ?m = "st_schedules (sv_app s)" and ?key = "uuid_str i"
  let ?commit = "Commit (request_session env user) (pe_clock (ap_parse env) 0) (ho_pending out)"
  let ?fl = "\<lambda>as. \<lparr>fl_env = env, fl_user = cu_user_id user, fl_actions = as\<rparr>"
  let ?s1 = "s\<lparr>sv_flights := (sv_flights s)(k \<mapsto> ?fl [Background b, ?commit])\<rparr>"
  let ?s2 = "\<lambda>m js. s\<lparr>sv_app := (sv_app s)\<lparr>st_schedules := m\<rparr>, sv_flights := (sv_flights s)(k \<mapsto> ?fl [?commit]), sv_jobs := js\<rparr>"
  obtain x where x: "execution_begin g lib now (st_db (sv_app s)) ?key = (ExecutionDone x, [])"
    using execution_begin_unknown [OF assms(5), of g lib now] by blast
  have flights: "(sv_flights s)(k := None) = sv_flights s" using assms(1) by (simp add: fun_upd_idem)
  have none: "?m(?key := None) = ?m" using assms(4) by (simp add: fun_upd_idem)
  have 1: "?step (Handle k env http request) s = ?s1"
    using assms(1,3,6,8-10) by (cases s; cases "sv_app s") (simp add: handle_event_def request_actions_def some_flight_def)
  have 2: "?step (Act k) ?s1 = ?s2 (?m(?key \<mapsto> (trigger, [?key]))) (sv_jobs s)"
    using assms(13) by (cases s) (simp add: act_event_def some_flight_def)
  have 3: "?step (Due i) (?s2 (?m(?key \<mapsto> (trigger, [?key]))) (sv_jobs s))
      = ?s2 (?m(?key \<mapsto> (trigger', [?key]))) (?key # sv_jobs s)"
    using assms(14) by (cases s) (simp add: due_event_def)
  have 4: "?step (Start r now i) (?s2 (?m(?key \<mapsto> (trigger', [?key]))) (?key # sv_jobs s))
      = ?s2 (?m(?key \<mapsto> (trigger', [?key]))) (sv_jobs s)"
    using assms(2) x by (cases s) (simp add: start_event_def)
  have 5: "?step (Due i) (?s2 (?m(?key \<mapsto> (trigger', [?key]))) (sv_jobs s)) = ?s2 ?m (sv_jobs s)"
    using assms(15) none by (cases s) (simp add: due_event_def)
  have 6: "?step (Act k) (?s2 ?m (sv_jobs s)) = s\<lparr>sv_app := (sv_app s)\<lparr>st_db := db'\<rparr>\<rparr>"
    using assms(12) flights by (cases s) (simp add: act_event_def some_flight_def)
  note run = 1 2 3 4 5 6
  show "fold ?step (lost_events k env http request r now) s = s\<lparr>sv_app := (sv_app s)\<lparr>st_db := db'\<rparr>\<rparr>"
    using run by (simp add: lost_events_def assms(7) [symmetric] del: event_step.simps)
  have "event_shows g lib (Handle k env http request) s = ShownHandler (Some (ho_result out, []))"
    using assms(1,6,11) by simp
  moreover have "event_shows g lib (Start r now i) (?s2 (?m(?key \<mapsto> (trigger', [?key]))) (?key # sv_jobs s)) = ShownWebhooks []"
    using assms(2) x by simp
  ultimately show "webhooks_sent g lib aps (lost_events k env http request r now) s = []"
    using run by (simp add: lost_events_def assms(7) [symmetric] del: event_step.simps event_shows.simps(1,4))
qed

text \<open>
  (C12) A run that is lost. When the framework runs the background tasks of a response before the
  commit, a one-time task whose fire time comes before the commit is over (a time that is past
  when the task is created, say) may never run: its handler answers the creation, its schedule is
  registered and due, the job that it starts does not find the task, the schedule is over, and then
  the task is committed. No webhook is sent by any of these events. In the end the service has no
  more schedules, jobs, runs and requests under way than before, and the task is stored as active,
  with its next fire time and one row of history, that of its creation.
\<close>

theorem immediate_run_lost:
  fixes env :: "'t app_env"
  assumes "unused_id (fst (ap_ids env)) s" "sv_flights s f = None" "sv_runs s r = None" "ap_background_first env"
    and "authenticate (ap_auth env) (pe_clock (ap_parse env) 0) http = Inr user"
    and "snd (ap_ids env) \<notin> h_id ` set (db_history (st_db (sv_app s)))"
    and "resolve_or_422 (ap_parse env) (ap_llm env) (Structured (OnceTrigger run_at)) = Inr (OnceTrigger run_at, 0)"
    and "dt_ok run_at"
    and "compute_next_run_at aps (pe_runtime (ap_parse env)) (pe_clock (ap_parse env) 0) (OnceTrigger run_at)
           = Inr next_run_at"
    and "build_trigger aps (pe_runtime (ap_parse env)) (pe_clock (ap_parse env) 0) (restored (OnceTrigger run_at))
           = Inr trigger"
    and "trigger_next aps trigger = Inr (Some d, trigger')" "trigger_next aps trigger' = Inr (None, trigger'')"
    and "aps = pe_aps (ap_parse env)"
    and "es = lost_events f env http (CreateTaskRequest url parameters (BodyOnce run_at)) r now"
  shows "\<exists>t task row answer.
      fresh_events True g lib aps s es \<and> fold (event_step g lib aps) es s = t \<and> service_steps True g lib aps s t
    \<and> event_shows g lib (hd es) s = ShownHandler (Some (Inr answer, []))
    \<and> webhooks_sent g lib aps es s = []
    \<and> st_schedules (sv_app t) = st_schedules (sv_app s) \<and> sv_jobs t = sv_jobs s \<and> sv_runs t = sv_runs s
    \<and> sv_flights t = sv_flights s
    \<and> db_tasks (st_db (sv_app t)) = db_tasks (st_db (sv_app s)) @ [task]
    \<and> t_id task = fst (ap_ids env) \<and> t_is_active task \<and> t_next_run_at task = map_option stored_time next_run_at
    \<and> t_user_id task = cu_user_id user \<and> t_webhook_url task = url \<and> stores_spec task (OnceTrigger run_at)
    \<and> db_history (st_db (sv_app t)) = db_history (st_db (sv_app s)) @ [row]
    \<and> h_task_id row = t_id task \<and> h_event_type row = event_type_value TASK_CREATED"
proof -
  let ?cx = "request_session env user" and ?now = "pe_clock (ap_parse env) 0" and ?db = "st_db (sv_app s)"
  let ?i = "fst (ap_ids env)" and ?request = "CreateTaskRequest url parameters (BodyOnce run_at)"
  have sch: "schedulable (pe_runtime (ap_parse env)) (OnceTrigger run_at)" "fits_history (OnceTrigger run_at)"
    using assms(8) by (simp_all add: schedulable_def fits_history_def int4_ok_def no_trigger_cols_def)
  have unused: "?i \<notin> t_id ` set (db_tasks ?db)" "st_schedules (sv_app s) (uuid_str ?i) = None"
    using assms(1) by (simp_all add: unused_id_def)
  have valid: "validate_trigger (pe_runtime (ap_parse env)) (BodyOnce run_at) = Inr (Structured (OnceTrigger run_at))" by simp
  obtain new row task answer where run: "run_handler env ?cx user ?request ?db
        = Some \<lparr>ho_result = Inr answer, ho_db = ?db, ho_pending = [InsertTask new, InsertHistory row],
                ho_background = [RegisterSchedule task], ho_sent = []\<rparr>"
    and commit: "apply_writes ?cx ?now [InsertTask new, InsertHistory row] ?db
        = Inr \<lparr>db_tasks = db_tasks ?db @ [task], db_history = db_history ?db @ [stored_history ?now row]\<rparr>"
    and background: "\<forall>m. run_background env (RegisterSchedule task) m = Inr (m(uuid_str ?i \<mapsto> (trigger, [uuid_str ?i])))"
    and task: "t_id task = ?i" "t_is_active task" "t_next_run_at task = map_option stored_time next_run_at"
      "t_user_id task = cu_user_id user" "t_webhook_url task = url" "stores_spec task (OnceTrigger run_at)"
      "h_event_type row = event_type_value TASK_CREATED" "h_task_id row = t_id task"
    using create_request_parts [OF assms(5) unused(1) assms(6) valid assms(7) sch, of next_run_at trigger url parameters]
      assms(9,10,13) by metis
  have handled: "handled env http ?request ?db
      = Some (user, \<lparr>ho_result = Inr answer, ho_db = ?db, ho_pending = [InsertTask new, InsertHistory row],
                ho_background = [RegisterSchedule task], ho_sent = []\<rparr>)"
    using assms(5) run by (simp add: handled_def)
  let ?db' = "\<lparr>db_tasks = db_tasks ?db @ [task], db_history = db_history ?db @ [stored_history ?now row]\<rparr>"
  let ?t = "s\<lparr>sv_app := (sv_app s)\<lparr>st_db := ?db'\<rparr>\<rparr>"
  note lost = lost_run [OF assms(2-4) unused(2,1) handled refl, where b = "RegisterSchedule task" and db' = ?db'
      and trigger = trigger and d = d and trigger' = trigger' and trigger'' = trigger'' and aps = aps and g = g
      and lib = lib and now = now, folded assms(14)]
  have fresh: "fresh_events True g lib aps s es" using assms(1,4) by (simp add: assms(14) lost_events_def Let_def)
  have fold: "fold (event_step g lib aps) es s = ?t"
    by (rule lost(1)) (simp_all add: commit background assms(11,12))
  have sent: "webhooks_sent g lib aps es s = []"
    by (rule lost(2)) (simp_all add: commit background assms(11,12))
  have shown: "event_shows g lib (hd es) s = ShownHandler (Some (Inr answer, []))"
    using assms(2) handled by (simp add: assms(14) lost_events_def Let_def)
  have "h_task_id (stored_history ?now row) = t_id task"
    "h_event_type (stored_history ?now row) = event_type_value TASK_CREATED"
    using task by (simp_all add: stored_history_def)
  then show ?thesis
    using task fresh fold sent shown events_are_steps [OF fresh]
    by (intro exI [of _ ?t] exI [of _ task] exI [of _ "stored_history ?now row"] exI [of _ answer]) simp
qed

section \<open>Two requests that overlap\<close>

text \<open>The handler of a request that only leaves something to do.\<close>

lemma handled_step:
  fixes env :: "'t app_env"
  assumes "unused_id (fst (ap_ids env)) s" "sv_flights s k = None"
    and "authenticate (ap_auth env) (pe_clock (ap_parse env) 0) http = Inr user"
    and "run_handler env (request_session env user) user request (st_db (sv_app s)) = Some out"
    and "ho_db out = st_db (sv_app s)" "ap_background_first env = b"
  shows "service_step b g lib aps s
    (s\<lparr>sv_flights := (sv_flights s)(k := some_flight
       \<lparr>fl_env = env, fl_user = cu_user_id user, fl_actions = request_actions env (request_session env user) out\<rparr>)\<rparr>)"
  using service_step.request_handled [OF assms(6,1-4)] assms(5) by simp

text \<open>The first action of one request, then all of another's, then the rest of the first.\<close>

lemma overlap_steps:
  assumes "k1 \<noteq> k2" "sv_flights s k1 = None" "sv_flights s k2 = None"
    and "fl_actions f1 = a # rest" "run_action (fl_env f1) a (sv_app s) = Inr st1"
  shows "service_steps b g lib aps (s\<lparr>sv_flights := (sv_flights s)(k1 \<mapsto> f1, k2 := some_flight f2)\<rparr>)
    (s\<lparr>sv_app := run_actions (fl_env f1) rest (run_actions (fl_env f2) (fl_actions f2) st1)\<rparr>)"
proof -
  let ?f1 = "f1\<lparr>fl_actions := rest\<rparr>"
  let ?s = "s\<lparr>sv_flights := (sv_flights s)(k1 \<mapsto> f1, k2 := some_flight f2)\<rparr>"
  let ?s1 = "s\<lparr>sv_app := st1, sv_flights := (sv_flights s)(k1 := some_flight ?f1)\<rparr>"
  let ?st2 = "run_actions (fl_env f2) (fl_actions f2) st1"
  have "service_step b g lib aps ?s (?s\<lparr>sv_app := st1, sv_flights := (sv_flights ?s)(k1 := some_flight ?f1)\<rparr>)"
    using assms(1,4,5) by (intro service_step.action_done [of _ k1 f1 a rest]) simp_all
  moreover have "?s\<lparr>sv_app := st1, sv_flights := (sv_flights ?s)(k1 := some_flight ?f1)\<rparr>
      = ?s1\<lparr>sv_flights := (sv_flights ?s1)(k2 := some_flight f2)\<rparr>"
    using assms(1) by (cases s) (simp add: fun_upd_twist)
  ultimately have 1: "service_step b g lib aps ?s (?s1\<lparr>sv_flights := (sv_flights ?s1)(k2 := some_flight f2)\<rparr>)" by simp
  have "service_steps b g lib aps (?s1\<lparr>sv_flights := (sv_flights ?s1)(k2 := some_flight f2)\<rparr>)
      (?s1\<lparr>sv_app := run_actions (fl_env f2) (fl_actions f2) (sv_app ?s1)\<rparr>)"
    by (rule flight_runs) (use assms(1,3) in simp)
  then have 2: "service_steps b g lib aps (?s1\<lparr>sv_flights := (sv_flights ?s1)(k2 := some_flight f2)\<rparr>)
      (s\<lparr>sv_app := ?st2, sv_flights := (sv_flights s)(k1 := some_flight ?f1)\<rparr>)" by (cases s) simp
  let ?s2 = "s\<lparr>sv_app := ?st2\<rparr>"
  have "service_steps b g lib aps (?s2\<lparr>sv_flights := (sv_flights ?s2)(k1 := some_flight ?f1)\<rparr>)
      (?s2\<lparr>sv_app := run_actions (fl_env ?f1) (fl_actions ?f1) (sv_app ?s2)\<rparr>)"
    by (rule flight_runs) (use assms(2) in simp)
  then have 3: "service_steps b g lib aps (s\<lparr>sv_app := ?st2, sv_flights := (sv_flights s)(k1 := some_flight ?f1)\<rparr>)
      (s\<lparr>sv_app := run_actions (fl_env f1) rest ?st2\<rparr>)" by (cases s) simp
  show ?thesis
    by (rule converse_rtranclp_into_rtranclp [OF 1 rtranclp_trans [OF 2 3]])
qed

text \<open>The writes of a deletion, for a task that may have changed since it was read.\<close>

lemma deletion_applied:
  assumes "user_session cx (t_user_id t)" "db_ok db" "x \<in> set (db_tasks db)" "fits_history s"
    and "t_id x = t_id t" "t_user_id x = t_user_id t" "j \<notin> h_id ` set (db_history db)"
  shows "\<exists>db'. apply_writes cx now
      [InsertHistory (spec_row t s (history_row j (t_user_id t) (t_id t) TASK_DELETED now)), DeleteTask (t_id t)] db
        = Inr db'
    \<and> db_tasks db' = filter (\<lambda>x. t_id x \<noteq> t_id t) (db_tasks db)"
proof -
  let ?row = "spec_row t s (history_row j (t_user_id t) (t_id t) TASK_DELETED now)"
  let ?db1 = "db\<lparr>db_history := db_history db @ [stored_history now ?row]\<rparr>"
  have w1: "apply_write cx now (InsertHistory ?row) db = Inr ?db1"
    using assms by (intro spec_row_inserted) simp_all
  then have "db_ok ?db1" using assms(2) by (rule apply_write_db_ok)
  moreover have "task_allowed cx (t_user_id x)" using assms(1,6) by (simp add: task_allowed_user)
  ultimately have "apply_write cx now (DeleteTask (t_id x)) ?db1 = Inr (drop_task (t_id x) ?db1)"
    using assms(3) by (intro own_task_dropped) simp_all
  then have "apply_writes cx now [InsertHistory ?row, DeleteTask (t_id t)] db = Inr (drop_task (t_id t) ?db1)"
    by (simp only: apply_writes_simps w1 rbind_Inr assms(5))
  then show ?thesis by simp
qed

text \<open>What is left of an activation when the task is gone, and what it does when the task is there.\<close>

lemma update_of_missing:
  assumes "i \<notin> t_id ` set (db_tasks db)"
  shows "\<exists>e. apply_writes cx now (UpdateTask i a n # ws) db = Inl e"
  using assms by (auto simp: apply_writes_simps)

lemma activation_applied:
  assumes "user_session cx (t_user_id t)" "db_ok db" "t \<in> set (db_tasks db)" "i \<notin> h_id ` set (db_history db)"
  shows "\<exists>db'. apply_writes cx now
      [UpdateTask (t_id t) True n, record_task_lifecycle i now (t_user_id t) (t_id t) TASK_ACTIVATED] db = Inr db'
    \<and> updated_task now True n t \<in> set (db_tasks db') \<and> h_id ` set (db_history db') = insert i (h_id ` set (db_history db))
    \<and> filter (\<lambda>x. t_id x \<noteq> t_id t) (db_tasks db') = filter (\<lambda>x. t_id x \<noteq> t_id t) (db_tasks db)"
proof -
  let ?db1 = "set_task (t_id t) (updated_task now True n) db"
  let ?row = "stored_history now (history_row i (t_user_id t) (t_id t) TASK_ACTIVATED now)"
  have w1: "apply_write cx now (UpdateTask (t_id t) True n) db = Inr ?db1"
    using assms(1-3) by (intro own_task_updated) (simp_all add: task_allowed_user)
  have w2: "apply_write cx now (record_task_lifecycle i now (t_user_id t) (t_id t) TASK_ACTIVATED) ?db1
      = Inr (?db1\<lparr>db_history := db_history ?db1 @ [?row]\<rparr>)"
    using assms(1,4) by (intro lifecycle_inserted) simp_all
  have same: "filter (\<lambda>x. t_id x \<noteq> t_id t) (map (\<lambda>x. if t_id x = t_id t then updated_task now True n x else x) xs)
      = filter (\<lambda>x. t_id x \<noteq> t_id t) xs" for xs
    by (induction xs) (auto simp: updated_task_def)
  have "updated_task now True n t \<in> set (db_tasks ?db1)" using assms(3) by (force simp: set_task_def)
  moreover have "h_id ?row = i" by (simp add: stored_history_def history_row_def)
  moreover have "apply_writes cx now
      [UpdateTask (t_id t) True n, record_task_lifecycle i now (t_user_id t) (t_id t) TASK_ACTIVATED] db
      = Inr (?db1\<lparr>db_history := db_history ?db1 @ [?row]\<rparr>)"
    by (simp only: apply_writes_simps w1 w2 rbind_Inr)
  ultimately show ?thesis using same by (simp add: set_task_def)
qed

text \<open>The schedule of a task that an activation registers.\<close>

lemma registered_again:
  assumes "stores_spec t sch" "schedulable (pe_runtime (ap_parse env)) sch"
    and "build_trigger (pe_aps (ap_parse env)) (pe_runtime (ap_parse env)) (pe_clock (ap_parse env) 0) (restored sch)
           = Inr trigger"
  shows "run_background env (RegisterSchedule (t\<lparr>t_is_active := True, t_next_run_at := n\<rparr>)) m
    = Inr (m(uuid_str (t_id t) \<mapsto> (trigger, [uuid_str (t_id t)])))"
proof -
  let ?t = "t\<lparr>t_is_active := True, t_next_run_at := n\<rparr>"
  have "with_spec ?t sch = ?t" using assms(1) by (simp add: with_spec_def stores_spec_def)
  then have "task_to_trigger_spec (pe_runtime (ap_parse env)) ?t = Inr (restored sch)"
    using stored_spec.dec_enc [OF assms(2), of ?t] by simp
  then show ?thesis
    using assms(3) by (simp add: run_background_def register_schedule_def build_trigger_from_task_def)
qed

lemma unused_id_flight:
  assumes "unused_id i s" "i \<notin> flight_ids f"
  shows "unused_id i (s\<lparr>sv_flights := (sv_flights s)(k \<mapsto> f)\<rparr>)"
  using assms by (auto simp: unused_id_def split: if_splits)

text \<open>What an activation of a paused task has left to do, and a deletion of it by the same user.\<close>

definition activation_writes :: "'t app_env \<Rightarrow> current_user \<Rightarrow> scheduled_task \<Rightarrow> datetime \<Rightarrow> db_write list" where
  "activation_writes env user t d =
     [UpdateTask (t_id t) True (Some d),
      record_task_lifecycle (fst (ap_ids env)) (pe_clock (ap_parse env) 0) (cu_user_id user) (t_id t) TASK_ACTIVATED]"

definition activation_flight :: "'t app_env \<Rightarrow> current_user \<Rightarrow> scheduled_task \<Rightarrow> datetime \<Rightarrow> 't flight" where
  "activation_flight env user t d =
     (let register = Background (RegisterSchedule (t\<lparr>t_is_active := True, t_next_run_at := Some d\<rparr>));
          commit = Commit (request_session env user) (pe_clock (ap_parse env) 0) (activation_writes env user t d)
      in \<lparr>fl_env = env, fl_user = cu_user_id user,
          fl_actions = (if ap_background_first env then [register, commit] else [commit, register])\<rparr>)"

definition deletion_writes :: "'t app_env \<Rightarrow> current_user \<Rightarrow> scheduled_task \<Rightarrow> structured_trigger \<Rightarrow> db_write list" where
  "deletion_writes env user t sch =
     [InsertHistory (spec_row t sch (history_row (fst (ap_ids env)) (cu_user_id user) (t_id t) TASK_DELETED
        (pe_clock (ap_parse env) 0))), DeleteTask (t_id t)]"

definition deletion_flight :: "'t app_env \<Rightarrow> current_user \<Rightarrow> scheduled_task \<Rightarrow> structured_trigger \<Rightarrow> 't flight" where
  "deletion_flight env user t sch =
     \<lparr>fl_env = env, fl_user = cu_user_id user,
      fl_actions = [Commit (request_session env user) (pe_clock (ap_parse env) 0) (deletion_writes env user t sch)]\<rparr>"

lemma activation_handled:
  fixes env :: "'t app_env"
  assumes "unused_id (fst (ap_ids env)) s" "sv_flights s k = None"
    and "authenticate (ap_auth env) (pe_clock (ap_parse env) 0) http = Inr user"
    and "db_ok (st_db (sv_app s))" "t \<in> set (db_tasks (st_db (sv_app s)))" "t_user_id t = cu_user_id user"
    and "\<not> t_is_active t" "stores_spec t sch"
    and "compute_next_run_at_for_task (pe_aps (ap_parse env)) (pe_runtime (ap_parse env)) (pe_clock (ap_parse env) 0) t
           = Inr (Some d)"
    and "\<not> (spec_type sch = ONCE \<and> instant d \<le> instant (pe_clock (ap_parse env) 0))"
  shows "service_step (ap_background_first env) g lib aps s
    (s\<lparr>sv_flights := (sv_flights s)(k \<mapsto> activation_flight env user t d)\<rparr>)"
proof -
  let ?cx = "request_session env user"
  obtain response where "activate_task (ap_parse env) ?cx (fst (ap_ids env)) user (t_id t) (st_db (sv_app s)) =
       \<lparr>ho_result = Inr response, ho_db = st_db (sv_app s), ho_pending = activation_writes env user t d,
        ho_background = [RegisterSchedule (t\<lparr>t_is_active := True, t_next_run_at := Some d\<rparr>)], ho_sent = []\<rparr>"
    using activate_task_run [OF authenticate_session [OF assms(3)] assms(4-10)] unfolding activation_writes_def by blast
  then have run: "run_handler env ?cx user (ActivateTaskRequest (t_id t)) (st_db (sv_app s)) = Some
       \<lparr>ho_result = Inr (TaskBody response), ho_db = st_db (sv_app s), ho_pending = activation_writes env user t d,
        ho_background = [RegisterSchedule (t\<lparr>t_is_active := True, t_next_run_at := Some d\<rparr>)], ho_sent = []\<rparr>"
    by (simp add: run_handler_def map_out_def)
  from handled_step [OF assms(1-3) run _ refl, of g lib aps] show ?thesis
    by (simp add: request_actions_def activation_flight_def Let_def some_flight_def split: if_splits)
qed

lemma deletion_handled:
  fixes env :: "'t app_env"
  assumes "unused_id (fst (ap_ids env)) s" "sv_flights s k = None"
    and "authenticate (ap_auth env) (pe_clock (ap_parse env) 0) http = Inr user"
    and "db_ok (st_db (sv_app s))" "t \<in> set (db_tasks (st_db (sv_app s)))" "t_user_id t = cu_user_id user"
    and "\<not> t_is_active t" "stores_spec t sch" "schedulable (pe_runtime (ap_parse env)) sch"
  shows "service_step (ap_background_first env) g lib aps s
    (s\<lparr>sv_flights := (sv_flights s)(k := some_flight (deletion_flight env user t sch))\<rparr>)"
proof -
  have run: "run_handler env (request_session env user) user (DeleteTaskRequest (t_id t)) (st_db (sv_app s)) = Some
       \<lparr>ho_result = Inr EmptyBody, ho_db = st_db (sv_app s), ho_pending = deletion_writes env user t sch,
        ho_background = [], ho_sent = []\<rparr>"
    using delete_task_run [OF authenticate_session [OF assms(3), where env = env] assms(4-6,8,9), of "fst (ap_ids env)"]
      assms(7)
    by (simp add: run_handler_def map_out_def deletion_writes_def)
  have "request_actions env (request_session env user)
      \<lparr>ho_result = Inr EmptyBody, ho_db = st_db (sv_app s), ho_pending = deletion_writes env user t sch,
       ho_background = [], ho_sent = []\<rparr> = fl_actions (deletion_flight env user t sch)"
    by (cases "ap_background_first env") (simp_all add: request_actions_def deletion_flight_def Let_def)
  with handled_step [OF assms(1-3) run _ refl, of g lib aps] show ?thesis by (simp add: deletion_flight_def)
qed

lemma app_state_both:
  "st\<lparr>st_db := d, st_schedules := m\<rparr> = \<lparr>st_db = d, st_schedules = m\<rparr>"
  "st\<lparr>st_schedules := m, st_db := d\<rparr> = \<lparr>st_db = d, st_schedules = m\<rparr>"
  for st :: "'t app_state"
  by (cases st, simp)+

text \<open>The two of them end with the task gone and its schedule registered.\<close>

lemma activation_and_deletion_end:
  fixes envA envX :: "'t app_env"
  assumes "user_session (request_session envA user) (cu_user_id user)"
    and "user_session (request_session envX user) (cu_user_id user)"
    and "db_ok (st_db st)" "t \<in> set (db_tasks (st_db st))" "t_user_id t = cu_user_id user"
    and "stores_spec t sch" "schedulable (pe_runtime (ap_parse envA)) sch" "fits_history sch"
    and "build_trigger (pe_aps (ap_parse envA)) (pe_runtime (ap_parse envA)) (pe_clock (ap_parse envA) 0) (restored sch)
           = Inr trigger"
    and "fst (ap_ids envA) \<notin> h_id ` set (db_history (st_db st))" "fst (ap_ids envX) \<notin> h_id ` set (db_history (st_db st))"
    and "fst (ap_ids envA) \<noteq> fst (ap_ids envX)"
  shows "\<exists>a rest st1 db'. fl_actions (activation_flight envA user t d) = a # rest \<and> run_action envA a st = Inr st1
    \<and> run_actions envA rest (run_actions envX (fl_actions (deletion_flight envX user t sch)) st1)
        = \<lparr>st_db = db', st_schedules = (st_schedules st)(uuid_str (t_id t) \<mapsto> (trigger, [uuid_str (t_id t)]))\<rparr>
    \<and> db_tasks db' = filter (\<lambda>x. t_id x \<noteq> t_id t) (db_tasks (st_db st))"
proof -
  let ?now = "pe_clock (ap_parse envA) 0"
  let ?m = "(st_schedules st)(uuid_str (t_id t) \<mapsto> (trigger, [uuid_str (t_id t)]))"
  have register: "run_background envA (RegisterSchedule (t\<lparr>t_is_active := True, t_next_run_at := Some d\<rparr>)) m
      = Inr (m(uuid_str (t_id t) \<mapsto> (trigger, [uuid_str (t_id t)])))" for m
    by (rule registered_again [OF assms(6,7,9)])
  note flights = activation_flight_def deletion_flight_def Let_def
  show ?thesis
  proof (cases "ap_background_first envA")
    case True
    obtain db' where del: "apply_writes (request_session envX user) (pe_clock (ap_parse envX) 0)
        (deletion_writes envX user t sch) (st_db st) = Inr db'"
      "db_tasks db' = filter (\<lambda>x. t_id x \<noteq> t_id t) (db_tasks (st_db st))"
      using deletion_applied [of "request_session envX user" t "st_db st" t sch "fst (ap_ids envX)"
          "pe_clock (ap_parse envX) 0"] assms(2-5,8,11)
      by (auto simp: deletion_writes_def)
    then have "t_id t \<notin> t_id ` set (db_tasks db')" by auto
    then obtain e where "apply_writes (request_session envA user) ?now (activation_writes envA user t d) db' = Inl e"
      using update_of_missing unfolding activation_writes_def by blast
    then show ?thesis
      using True register del
      by (intro exI [of _ "Background (RegisterSchedule (t\<lparr>t_is_active := True, t_next_run_at := Some d\<rparr>))"]
          exI [of _ "[Commit (request_session envA user) ?now (activation_writes envA user t d)]"]
          exI [of _ "st\<lparr>st_schedules := ?m\<rparr>"] exI [of _ db'] conjI) (simp_all add: flights app_state_both)
  next
    case False
    obtain db1 where act: "apply_writes (request_session envA user) ?now (activation_writes envA user t d) (st_db st) = Inr db1"
      "updated_task ?now True (Some d) t \<in> set (db_tasks db1)"
      "h_id ` set (db_history db1) = insert (fst (ap_ids envA)) (h_id ` set (db_history (st_db st)))"
      "filter (\<lambda>x. t_id x \<noteq> t_id t) (db_tasks db1) = filter (\<lambda>x. t_id x \<noteq> t_id t) (db_tasks (st_db st))"
      using activation_applied [of "request_session envA user" t "st_db st" "fst (ap_ids envA)" ?now "Some d"]
        assms(1,3-5,10) by (auto simp: activation_writes_def)
    obtain db2 where del: "apply_writes (request_session envX user) (pe_clock (ap_parse envX) 0)
        (deletion_writes envX user t sch) db1 = Inr db2"
      "db_tasks db2 = filter (\<lambda>x. t_id x \<noteq> t_id t) (db_tasks db1)"
      using deletion_applied [of "request_session envX user" t db1 "updated_task ?now True (Some d) t" sch
          "fst (ap_ids envX)" "pe_clock (ap_parse envX) 0"]
        apply_writes_db_ok [OF act(1) assms(3)] act(2,3) assms(2,5,8,11,12)
      by (auto simp: deletion_writes_def)
    show ?thesis
      using False register act(1,4) del
      by (intro exI [of _ "Commit (request_session envA user) ?now (activation_writes envA user t d)"]
          exI [of _ "[Background (RegisterSchedule (t\<lparr>t_is_active := True, t_next_run_at := Some d\<rparr>))]"]
          exI [of _ "st\<lparr>st_db := db1\<rparr>"] exI [of _ db2] conjI) (simp_all add: flights app_state_both)
  qed
qed

text \<open>
  (C13) A schedule without a task. A user activates a paused task and deletes it at the same time;
  both handlers read the paused task, so the deletion takes no schedule from the scheduler. In
  either order at the end of a request the two may end with the task gone and its schedule in
  place, which no request can remove any more, and whose jobs find no task.
\<close>

theorem orphaned_schedule:
  fixes env :: "'t app_env" and ids :: "uuid \<times> uuid"
  assumes "unused_id (fst (ap_ids env)) s" "unused_id (fst ids) s" "fst (ap_ids env) \<noteq> fst ids"
    and "sv_flights s k1 = None" "sv_flights s k2 = None" "k1 \<noteq> k2"
    and "authenticate (ap_auth env) (pe_clock (ap_parse env) 0) http = Inr user"
    and "db_ok (st_db (sv_app s))" "t \<in> set (db_tasks (st_db (sv_app s)))" "t_user_id t = cu_user_id user"
    and "\<not> t_is_active t" "stores_spec t sch" "schedulable (pe_runtime (ap_parse env)) sch" "fits_history sch"
    and "compute_next_run_at_for_task (pe_aps (ap_parse env)) (pe_runtime (ap_parse env)) (pe_clock (ap_parse env) 0) t
           = Inr (Some d)"
    and "\<not> (spec_type sch = ONCE \<and> instant d \<le> instant (pe_clock (ap_parse env) 0))"
    and "build_trigger (pe_aps (ap_parse env)) (pe_runtime (ap_parse env)) (pe_clock (ap_parse env) 0) (restored sch)
           = Inr trigger"
    and "fst (ap_ids env) \<notin> h_id ` set (db_history (st_db (sv_app s)))"
      "fst ids \<notin> h_id ` set (db_history (st_db (sv_app s)))"
  shows "\<exists>s'. service_steps (ap_background_first env) g lib aps s s'
    \<and> db_tasks (st_db (sv_app s')) = filter (\<lambda>x. t_id x \<noteq> t_id t) (db_tasks (st_db (sv_app s)))
    \<and> st_schedules (sv_app s') = (st_schedules (sv_app s))(uuid_str (t_id t) \<mapsto> (trigger, [uuid_str (t_id t)]))
    \<and> sv_flights s' = sv_flights s \<and> sv_jobs s' = sv_jobs s \<and> sv_runs s' = sv_runs s
    \<and> (\<exists>r. execution_begin g lib later (st_db (sv_app s')) (uuid_str (t_id t)) = (ExecutionDone r, []))"
proof -
  let ?b = "ap_background_first env" and ?envX = "env\<lparr>ap_ids := ids\<rparr>"
  let ?fA = "activation_flight env user t d" and ?fX = "deletion_flight ?envX user t sch"
  let ?sA = "s\<lparr>sv_flights := (sv_flights s)(k1 \<mapsto> ?fA)\<rparr>"
  let ?m = "(st_schedules (sv_app s))(uuid_str (t_id t) \<mapsto> (trigger, [uuid_str (t_id t)]))"
  have auth: "authenticate (ap_auth ?envX) (pe_clock (ap_parse ?envX) 0) http = Inr user" using assms(7) by simp
  have session: "user_session (request_session env user) (cu_user_id user)"
    "user_session (request_session ?envX user) (cu_user_id user)"
    by (rule authenticate_session [OF assms(7)])+
  have 1: "service_step ?b g lib aps s ?sA"
    by (rule activation_handled [OF assms(1,4,7-12,15,16)])
  have "flight_ids ?fA = {t_id t}"
    by (auto simp: flight_ids_def activation_flight_def activation_writes_def record_task_lifecycle_def
        history_row_def Let_def)
  then have "unused_id (fst (ap_ids ?envX)) ?sA"
    using assms(2,9) by (intro unused_id_flight) (auto simp: unused_id_def)
  then have "service_step (ap_background_first ?envX) g lib aps ?sA
      (?sA\<lparr>sv_flights := (sv_flights ?sA)(k2 := some_flight ?fX)\<rparr>)"
    by (rule deletion_handled [OF _ _ auth]) (use assms(5,6,8-13) in simp_all)
  then have 2: "service_step ?b g lib aps ?sA (s\<lparr>sv_flights := (sv_flights s)(k1 \<mapsto> ?fA, k2 := some_flight ?fX)\<rparr>)"
    by simp
  obtain a rest st1 db' where fin: "fl_actions ?fA = a # rest" "run_action env a (sv_app s) = Inr st1"
    "run_actions env rest (run_actions ?envX (fl_actions ?fX) st1) = \<lparr>st_db = db', st_schedules = ?m\<rparr>"
    "db_tasks db' = filter (\<lambda>x. t_id x \<noteq> t_id t) (db_tasks (st_db (sv_app s)))"
    using activation_and_deletion_end [OF session assms(8-10,12-14,17,18), of d] assms(3,19) by auto
  have env: "fl_env ?fA = env" "fl_env ?fX = ?envX"
    by (simp_all add: activation_flight_def deletion_flight_def Let_def)
  have "service_steps ?b g lib aps (s\<lparr>sv_flights := (sv_flights s)(k1 \<mapsto> ?fA, k2 := some_flight ?fX)\<rparr>)
      (s\<lparr>sv_app := run_actions env rest (run_actions ?envX (fl_actions ?fX) st1)\<rparr>)"
    using overlap_steps [OF assms(6,4,5) fin(1), of st1 ?b g lib aps ?fX] fin(2) env by simp
  note 3 = this [unfolded fin(3)]
  have "service_steps ?b g lib aps s (s\<lparr>sv_app := \<lparr>st_db = db', st_schedules = ?m\<rparr>\<rparr>)"
    by (rule converse_rtranclp_into_rtranclp [OF 1 converse_rtranclp_into_rtranclp [OF 2 3]])
  moreover have "t_id t \<notin> t_id ` set (db_tasks db')" using fin(4) by auto
  ultimately show ?thesis
    using fin(4) execution_begin_unknown [of "t_id t" db' g lib later]
    by (intro exI [of _ "s\<lparr>sv_app := \<lparr>st_db = db', st_schedules = ?m\<rparr>\<rparr>"]) simp
qed

section \<open>Witnesses\<close>

lemma demo_once:
  "dt_ok frozen_time"
  "build_trigger demo_aps demo_runtime frozen_time (restored (OnceTrigger frozen_time))
     = Inr (DemoDate (reparsed (assume_utc frozen_time)) False)"
  "resolve_or_422 (ap_parse (demo_app True)) (ap_llm (demo_app True)) (Structured (OnceTrigger frozen_time))
     = Inr (OnceTrigger frozen_time, 0)"
  "\<exists>n. compute_next_run_at demo_aps demo_runtime frozen_time (OnceTrigger frozen_time) = Inr (Some n)"
  "trigger_next demo_aps (DemoDate (reparsed (assume_utc frozen_time)) False)
     = Inr (Some (reparsed (assume_utc frozen_time)), DemoDate (reparsed (assume_utc frozen_time)) True)"
  "trigger_next demo_aps (DemoDate (reparsed (assume_utc frozen_time)) True)
     = Inr (None, DemoDate (reparsed (assume_utc frozen_time)) True)"
  by (simp_all add: dt_ok_def frozen_time_def wall_ok_def max_wall_def us_per_day_def demo_aps_def
      resolve_or_422_def resolve_trigger_spec_def compute_next_run_at_def)

lemma immediate_run_lost_witness:
  "\<exists>t task. fold (event_step (demo_globals True True 200) demo_jwt demo_aps)
        (lost_events 0 (demo_app True) demo_http (CreateTaskRequest ''https://example.com/hook'' [] (BodyOnce frozen_time))
          0 frozen_time) initial_service = t
    \<and> webhooks_sent (demo_globals True True 200) demo_jwt demo_aps
        (lost_events 0 (demo_app True) demo_http (CreateTaskRequest ''https://example.com/hook'' [] (BodyOnce frozen_time))
          0 frozen_time) initial_service = []
    \<and> st_schedules (sv_app t) = Map.empty \<and> sv_jobs t = [] \<and> sv_runs t = Map.empty \<and> sv_flights t = Map.empty
    \<and> db_tasks (st_db (sv_app t)) = [task] \<and> t_is_active task \<and> t_next_run_at task \<noteq> None"
proof -
  let ?env = "demo_app True"
  obtain n where n: "compute_next_run_at demo_aps (pe_runtime (ap_parse ?env)) (pe_clock (ap_parse ?env) 0) (OnceTrigger frozen_time)
      = Inr (Some n)"
    using demo_once(4) by auto
  have h: "sv_flights initial_service 0 = None" "sv_runs initial_service 0 = None" "ap_background_first ?env"
    "snd (ap_ids ?env) \<notin> h_id ` set (db_history (st_db (sv_app initial_service)))"
    by (simp_all add: initial_service_def)
  have trigger: "build_trigger demo_aps (pe_runtime (ap_parse ?env)) (pe_clock (ap_parse ?env) 0) (restored (OnceTrigger frozen_time))
      = Inr (DemoDate (reparsed (assume_utc frozen_time)) False)" "demo_aps = pe_aps (ap_parse ?env)"
    using demo_once(2) by simp_all
  from immediate_run_lost [OF demo_unused h(1-3) hourly_setup(1) h(4) demo_once(3,1) n trigger(1) demo_once(5,6) trigger(2) refl,
      where g = "demo_globals True True 200" and lib = demo_jwt and url = "''https://example.com/hook''"
        and parameters = "[]" and now = frozen_time]
  show ?thesis by (auto simp: empty_state_def)
qed

text \<open>A paused task that runs every hour, activated and deleted at once.\<close>

definition paused_service :: "demo_trigger service" where
  "paused_service = \<lparr>sv_app = demo_state demo_paused, sv_flights = Map.empty, sv_jobs = [], sv_runs = Map.empty\<rparr>"

lemma paused_service_simps [simp]:
  "sv_app paused_service = demo_state demo_paused" "sv_flights paused_service = Map.empty"
  "sv_jobs paused_service = []" "sv_runs paused_service = Map.empty"
  by (simp_all add: paused_service_def)

lemma paused_unused:
  assumes "i \<noteq> 1"
  shows "unused_id i paused_service"
  using assms by (simp add: unused_id_def)

lemma orphaned_schedule_witness:
  "\<exists>s'. service_steps True (demo_globals True True 200) demo_jwt demo_aps paused_service s'
    \<and> db_tasks (st_db (sv_app s')) = [] \<and> st_schedules (sv_app s') = [uuid_str 1 \<mapsto> (hourly, [uuid_str 1])]
    \<and> sv_flights s' = Map.empty"
proof -
  have ids: "unused_id (fst (ap_ids (demo_app True))) paused_service" "unused_id (fst (9, 10)) paused_service"
    "fst (ap_ids (demo_app True)) \<noteq> fst (9, 10)"
    by (simp_all add: paused_unused)
  have flights: "sv_flights paused_service 0 = None" "sv_flights paused_service 1 = None" "(0 :: nat) \<noteq> 1" by simp_all
  have task: "db_ok (st_db (sv_app paused_service))" "demo_paused \<in> set (db_tasks (st_db (sv_app paused_service)))"
    "t_user_id demo_paused = cu_user_id demo_user" "\<not> t_is_active demo_paused"
    "stores_spec demo_paused (IntervalTriggerSpec 3600)"
    using demo_db_ok demo_paused_stores by (simp_all add: demo_user_def)
  have next_run: "compute_next_run_at_for_task (pe_aps (ap_parse (demo_app True))) (pe_runtime (ap_parse (demo_app True)))
      (pe_clock (ap_parse (demo_app True)) 0) demo_paused = Inr (Some frozen_time)"
    using demo_next_run_for_task by simp
  have spec: "\<not> (spec_type (IntervalTriggerSpec 3600) = ONCE
      \<and> instant frozen_time \<le> instant (pe_clock (ap_parse (demo_app True)) 0))" by simp
  have "fst (ap_ids (demo_app True)) \<notin> h_id ` set (db_history (st_db (sv_app paused_service)))"
    "fst (9, 10) \<notin> h_id ` set (db_history (st_db (sv_app paused_service)))" by simp_all
  from orphaned_schedule [OF ids flights hourly_setup(1) task hourly_setup(7,8) next_run spec hourly_setup(10) this,
      of "demo_globals True True 200" demo_jwt demo_aps]
  show ?thesis by auto
qed

end
