(* ===== verification/Confidentiality.thy ===== *)
theory Confidentiality
  imports Requests
begin

text \<open>
  What a request learns. Two states of the service in which a user has the same tasks, the same
  history and the same schedules cannot be told apart by the user's requests, whatever else they
  hold: the answers and the webhooks are the same, and so are the user's rows afterwards.
\<close>

section \<open>Databases that a user cannot tell apart\<close>

text \<open>
  The ids of the set are those of the user: every task with such an id is the user's and the user
  has no other task, and no row of somebody else's history has such an id. Two databases are alike
  for the user when the user has the same rows in both.
\<close>

definition reserved :: "string \<Rightarrow> uuid set \<Rightarrow> db \<Rightarrow> bool" where
  "reserved u ids db \<longleftrightarrow>
     (\<forall>t \<in> set (db_tasks db). t_id t \<in> ids \<longleftrightarrow> t_user_id t = u)
     \<and> (\<forall>h \<in> set (db_history db). h_id h \<in> ids \<longrightarrow> h_user_id h = u)"

definition alike :: "string \<Rightarrow> uuid set \<Rightarrow> db \<Rightarrow> db \<Rightarrow> bool" where
  "alike u ids db db' \<longleftrightarrow>
     filter (\<lambda>t. t_user_id t = u) (db_tasks db) = filter (\<lambda>t. t_user_id t = u) (db_tasks db')
     \<and> filter (\<lambda>h. h_user_id h = u) (db_history db) = filter (\<lambda>h. h_user_id h = u) (db_history db')
     \<and> reserved u ids db \<and> reserved u ids db'"

definition schedules_alike :: "uuid set \<Rightarrow> 't schedules \<Rightarrow> 't schedules \<Rightarrow> bool" where
  "schedules_alike ids m m' \<longleftrightarrow> (\<forall>i \<in> ids. m (uuid_str i) = m' (uuid_str i))"

definition alike_states :: "string \<Rightarrow> uuid set \<Rightarrow> 't app_state \<Rightarrow> 't app_state \<Rightarrow> bool" where
  "alike_states u ids st st' \<longleftrightarrow>
     alike u ids (st_db st) (st_db st')
     \<and> schedules_alike ids (st_schedules st) (st_schedules st')"

fun within :: "string \<Rightarrow> uuid set \<Rightarrow> db_write \<Rightarrow> bool" where
  "within u ids (InsertTask t) = (t_user_id t = u \<and> t_id t \<in> ids)"
| "within u ids (UpdateTask i a n) = (i \<in> ids)"
| "within u ids (DeleteTask i) = (i \<in> ids)"
| "within u ids (InsertHistory h) = (h_user_id h = u \<and> h_id h \<in> ids)"
| "within u ids (MutateHistory i h) = False"

lemma alikeD:
  assumes "alike u ids db db'"
  shows "filter (\<lambda>t. t_user_id t = u) (db_tasks db) = filter (\<lambda>t. t_user_id t = u) (db_tasks db')"
    and "filter (\<lambda>h. h_user_id h = u) (db_history db) = filter (\<lambda>h. h_user_id h = u) (db_history db')"
    and "reserved u ids db" "reserved u ids db'"
  using assms unfolding alike_def by blast+

lemma filter_of_own:
  "\<forall>x \<in> set xs. Q x \<longrightarrow> P x \<Longrightarrow> filter Q xs = filter Q (filter P xs)"
  by (induction xs) auto

text \<open>The rows with a reserved id are rows of the user, so they are the same in both.\<close>

lemma reserved_tasks:
  assumes "alike u ids db db'" "\<forall>t. Q t \<longrightarrow> t_id t \<in> ids"
  shows "filter Q (db_tasks db) = filter Q (db_tasks db')"
proof -
  have "filter Q (db_tasks d) = filter Q (filter (\<lambda>t. t_user_id t = u) (db_tasks d))" if "reserved u ids d" for d
    using that assms(2) by (intro filter_of_own) (auto simp: reserved_def)
  then show ?thesis using alikeD [OF assms(1)] by metis
qed

lemma reserved_history:
  assumes "alike u ids db db'" "\<forall>h. Q h \<longrightarrow> h_id h \<in> ids"
  shows "filter Q (db_history db) = filter Q (db_history db')"
proof -
  have "filter Q (db_history d) = filter Q (filter (\<lambda>h. h_user_id h = u) (db_history d))" if "reserved u ids d" for d
    using that assms(2) by (intro filter_of_own) (auto simp: reserved_def)
  then show ?thesis using alikeD [OF assms(1)] by metis
qed

lemma ex_filter: "(\<exists>x \<in> set xs. P x) \<longleftrightarrow> filter P xs \<noteq> []"
  by (simp add: filter_empty_conv)

lemma image_ex: "i \<in> f ` S \<longleftrightarrow> (\<exists>x \<in> S. f x = i)"
  by auto

lemma task_id_used:
  assumes "alike u ids db db'" "i \<in> ids"
  shows "i \<in> t_id ` set (db_tasks db) \<longleftrightarrow> i \<in> t_id ` set (db_tasks db')"
    and "(\<exists>t \<in> set (db_tasks db). t_id t = i \<and> P t) \<longleftrightarrow> (\<exists>t \<in> set (db_tasks db'). t_id t = i \<and> P t)"
    and "j \<in> ids \<Longrightarrow> j \<in> h_id ` set (db_history db) \<longleftrightarrow> j \<in> h_id ` set (db_history db')"
proof -
  show ex: "(\<exists>t \<in> set (db_tasks db). t_id t = i \<and> P t) \<longleftrightarrow> (\<exists>t \<in> set (db_tasks db'). t_id t = i \<and> P t)" for P
    unfolding ex_filter using reserved_tasks [OF assms(1), of "\<lambda>t. t_id t = i \<and> P t"] assms(2) by simp
  show "i \<in> t_id ` set (db_tasks db) \<longleftrightarrow> i \<in> t_id ` set (db_tasks db')"
    using ex [of "\<lambda>_. True"] unfolding image_ex by simp
  show "j \<in> h_id ` set (db_history db) \<longleftrightarrow> j \<in> h_id ` set (db_history db')" if "j \<in> ids"
  proof -
    have "(\<exists>h \<in> set (db_history db). h_id h = j) \<longleftrightarrow> (\<exists>h \<in> set (db_history db'). h_id h = j)"
      unfolding ex_filter using reserved_history [OF assms(1), of "\<lambda>h. h_id h = j"] that by simp
    then show ?thesis unfolding image_ex .
  qed
qed

lemma select_reserved:
  assumes "alike u ids db db'" "i \<in> ids"
  shows "select_tasks cx db (\<lambda>t. t_id t = i) = select_tasks cx db' (\<lambda>t. t_id t = i)"
  unfolding select_tasks_def by (rule reserved_tasks [OF assms(1)]) (use assms(2) in simp)

lemma select_own:
  assumes "alike u ids db db'" "user_session cx u"
  shows "select_tasks cx db P = select_tasks cx db' P" "select_history cx db R = select_history cx db' R"
proof -
  have "filter (\<lambda>t. t_user_id t = u \<and> P t) xs = filter P (filter (\<lambda>t. t_user_id t = u) xs)" for xs
    by (auto simp: conj_commute)
  then show "select_tasks cx db P = select_tasks cx db' P"
    unfolding select_tasks_user [OF assms(2)] using alikeD(1) [OF assms(1)] by metis
  have "filter (\<lambda>h. h_user_id h = u \<and> R h) xs = filter R (filter (\<lambda>h. h_user_id h = u) xs)" for xs
    by (auto simp: conj_commute)
  then show "select_history cx db R = select_history cx db' R"
    unfolding select_history_user [OF assms(2)] using alikeD(2) [OF assms(1)] by metis
qed

section \<open>Writes\<close>

lemma map_own:
  assumes "\<forall>t \<in> set xs. t_id t = i \<longrightarrow> t_user_id t = u"
  shows "filter (\<lambda>t. t_user_id t = u) (map (\<lambda>t. if t_id t = i \<and> P t then updated_task now a n t else t) xs)
    = map (\<lambda>t. if t_id t = i \<and> P t then updated_task now a n t else t) (filter (\<lambda>t. t_user_id t = u) xs)"
  using assms by (induction xs) auto

lemma reserved_map:
  "(\<And>t. t_id (f t) = t_id t) \<Longrightarrow> (\<And>t. t_user_id (f t) = t_user_id t) \<Longrightarrow> reserved u ids db
     \<Longrightarrow> reserved u ids (db\<lparr>db_tasks := map f (db_tasks db)\<rparr>)"
  by (simp add: reserved_def)

lemma reserved_update:
  "reserved u ids db \<Longrightarrow> reserved u ids (db\<lparr>db_tasks :=
     map (\<lambda>t. if t_id t = i \<and> P t then updated_task now a n t else t) (db_tasks db)\<rparr>)"
  by (rule reserved_map) simp_all

lemma write_alike:
  assumes "alike u ids db db'" "within u ids w"
  shows "rel_sum (=) (alike u ids) (apply_write cx now w db) (apply_write cx now w db')"
proof (cases w)
  case (InsertTask t)
  then show ?thesis
    using assms task_id_used(1) [OF assms(1), of "t_id t"]
    by (auto simp: alike_def reserved_def)
next
  case (UpdateTask i a n)
  let ?upd = "map (\<lambda>t. if t_id t = i \<and> task_allowed cx (t_user_id t) then updated_task now a n t else t)"
  have own: "filter (\<lambda>t. t_user_id t = u) (?upd (db_tasks d)) = ?upd (filter (\<lambda>t. t_user_id t = u) (db_tasks d))"
    if "reserved u ids d" for d
    by (rule map_own) (use that assms(2) UpdateTask in \<open>auto simp: reserved_def\<close>)
  have same: "filter (\<lambda>t. t_user_id t = u) (?upd (db_tasks db)) = filter (\<lambda>t. t_user_id t = u) (?upd (db_tasks db'))"
    unfolding own [OF alikeD(3) [OF assms(1)]] own [OF alikeD(4) [OF assms(1)]] alikeD(1) [OF assms(1)] ..
  have "alike u ids (db\<lparr>db_tasks := ?upd (db_tasks db)\<rparr>) (db'\<lparr>db_tasks := ?upd (db_tasks db')\<rparr>)"
    using same alikeD [OF assms(1)] reserved_update by (simp add: alike_def)
  then show ?thesis
    using task_id_used(2) [OF assms(1), of i "\<lambda>t. task_allowed cx (t_user_id t)"] assms(2) UpdateTask by simp
next
  case (DeleteTask i)
  let ?keep = "\<lambda>t. \<not> (t_id t = i \<and> task_allowed cx (t_user_id t))"
  have own: "filter (\<lambda>t. t_user_id t = u) (filter ?keep xs) = filter ?keep (filter (\<lambda>t. t_user_id t = u) xs)" for xs
    unfolding filter_filter by (rule filter_cong) auto
  have "alike u ids (db\<lparr>db_tasks := filter ?keep (db_tasks db)\<rparr>) (db'\<lparr>db_tasks := filter ?keep (db_tasks db')\<rparr>)"
    using alikeD [OF assms(1)] own [of "db_tasks db"] own [of "db_tasks db'"]
    unfolding alike_def reserved_def by (simp del: filter_filter de_Morgan_conj)
  then show ?thesis using DeleteTask by simp
next
  case (InsertHistory h)
  then show ?thesis
    using assms task_id_used(3) [OF assms(1), of _ "h_id h"]
    by (simp add: alike_def reserved_def stored_history_def) blast
next
  case (MutateHistory i h)
  then show ?thesis using assms(2) by simp
qed

lemma writes_alike:
  assumes "alike u ids db db'" "list_all (within u ids) ws"
  shows "rel_sum (=) (alike u ids) (apply_writes cx now ws db) (apply_writes cx now ws db')"
  using assms
proof (induction ws arbitrary: db db')
  case Nil
  then show ?case by (simp add: apply_writes_simps(1))
next
  case (Cons w ws)
  have "rel_sum (=) (alike u ids) (apply_write cx now w db) (apply_write cx now w db')"
    using Cons.prems by (intro write_alike) simp_all
  then show ?case
    using Cons.IH Cons.prems(2) unfolding apply_writes_simps(2)
    by (cases "apply_write cx now w db"; cases "apply_write cx now w db'") simp_all
qed

section \<open>Handlers\<close>

definition alike_out :: "string \<Rightarrow> uuid set \<Rightarrow> 'r handler_out \<Rightarrow> 'r handler_out \<Rightarrow> bool" where
  "alike_out u ids out out' \<longleftrightarrow>
     ho_result out = ho_result out' \<and> ho_pending out = ho_pending out' \<and> ho_background out = ho_background out'
     \<and> ho_sent out = ho_sent out' \<and> alike u ids (ho_db out) (ho_db out')
     \<and> list_all (within u ids) (ho_pending out) \<and> (\<forall>b \<in> set (ho_background out). background_id b \<in> ids)"

lemma alike_out_map [simp]: "alike_out u ids out out' \<Longrightarrow> alike_out u ids (map_out f out) (map_out f out')"
  unfolding alike_out_def map_out_simps by metis

lemma alike_out_raises [simp]: "alike_out u ids (handler_raises db e) (handler_raises db' e) \<longleftrightarrow> alike u ids db db'"
  by (auto simp: alike_out_def handler_raises_def)

lemma alike_out_reads [simp]: "alike_out u ids (handler_reads db r) (handler_reads db' r) \<longleftrightarrow> alike u ids db db'"
  by (auto simp: alike_out_def handler_reads_def)

lemma alike_and_then:
  assumes "alike u ids db db'" "\<And>x. r = Inr x \<Longrightarrow> alike_out u ids (f x) (f' x)"
  shows "alike_out u ids (and_then db r f) (and_then db' r f')"
  using assms by (cases r) (simp_all add: and_then_def)

text \<open>The handlers that read or change one task.\<close>

lemma get_task_alike:
  assumes "alike u ids db db'" "user_session cx u"
  shows "get_task_or_404 cx db i = get_task_or_404 cx db' i"
  by (simp add: get_task_or_404_def select_own(1) [OF assms])

lemma get_task_known:
  assumes "reserved u ids db" "user_session cx v" "get_task_or_404 cx db i = Inr t"
  shows "(t_id t \<in> ids \<longleftrightarrow> v = u) \<and> t_id t = i"
  using get_task_own [OF assms(2,3)] assms(1) by (auto simp: reserved_def)

lemma history_within [simp]:
  "within u ids (record_task_lifecycle i now v tid ev) \<longleftrightarrow> v = u \<and> i \<in> ids"
  "within u ids (record_execution i now v tid src url b st m) \<longleftrightarrow> v = u \<and> i \<in> ids"
  by (simp_all add: record_task_lifecycle_def record_execution_def history_row_def)

lemma snapshot_within:
  "record_task_deleted rt i now v task = Inr w \<Longrightarrow> within u ids w \<longleftrightarrow> v = u \<and> i \<in> ids"
  "record_task_created rt i now v task = Inr w \<Longrightarrow> within u ids w \<longleftrightarrow> v = u \<and> i \<in> ids"
  by (auto simp: record_task_deleted_def record_task_created_def snapshot_from_task_def
      rbind_eq_Inr history_row_def)

lemma lifecycle_alike:
  assumes "alike (cu_user_id user) ids db db'" "user_session cx (cu_user_id user)" "i \<in> ids"
  shows "alike_out (cu_user_id user) ids
      (deactivate_task env cx i user task_id db) (deactivate_task env cx i user task_id db')"
    and "alike_out (cu_user_id user) ids
      (activate_task env cx i user task_id db) (activate_task env cx i user task_id db')"
    and "alike_out (cu_user_id user) ids
      (delete_task env cx i user task_id db) (delete_task env cx i user task_id db')"
proof -
  note same = get_task_alike [OF assms(1,2)]
  note known = get_task_known [OF alikeD(3) [OF assms(1)] assms(2)]
  show "alike_out (cu_user_id user) ids
      (deactivate_task env cx i user task_id db) (deactivate_task env cx i user task_id db')"
    unfolding deactivate_task_def Let_def same [symmetric]
    by (auto intro!: alike_and_then assms(1)) (use known assms(1,3) in \<open>auto simp: alike_out_def\<close>)
  show "alike_out (cu_user_id user) ids
      (activate_task env cx i user task_id db) (activate_task env cx i user task_id db')"
    unfolding activate_task_def Let_def same [symmetric]
    by (auto intro!: alike_and_then assms(1)) (use known assms(1,3) in \<open>auto simp: alike_out_def\<close>)
  show "alike_out (cu_user_id user) ids
      (delete_task env cx i user task_id db) (delete_task env cx i user task_id db')"
    unfolding delete_task_def same [symmetric]
    by (auto intro!: alike_and_then assms(1))
      (use known assms(1,3) in \<open>auto simp: alike_out_def snapshot_within\<close>)
qed

text \<open>A new task, and a run whose task is loaded in a session that sees everything.\<close>

lemma flush_alike:
  assumes "alike u ids db db'" "t_user_id t = u" "t_id t \<in> ids"
  shows "flush_and_refresh cx now db t = flush_and_refresh cx now db' t"
proof -
  have "rel_sum (=) (alike u ids) (apply_writes cx now [InsertTask t] db) (apply_writes cx now [InsertTask t] db')"
    by (rule writes_alike [OF assms(1)]) (use assms(2,3) in simp)
  then show ?thesis
    using select_reserved [OF _ assms(3)] unfolding flush_and_refresh_def
    by (cases "apply_writes cx now [InsertTask t] db"; cases "apply_writes cx now [InsertTask t] db'") simp_all
qed

lemma flush_id: "flush_and_refresh cx now db t = Inr task \<Longrightarrow> t_id task = t_id t"
proof -
  assume "flush_and_refresh cx now db t = Inr task"
  then obtain db' where "select_tasks cx db' (\<lambda>x. t_id x = t_id t) = [task]"
    by (auto simp: flush_and_refresh_def rbind_eq_Inr scalar_one_or_none_Some split: option.splits)
  then have "task \<in> set (select_tasks cx db' (\<lambda>x. t_id x = t_id t))" by simp
  then show ?thesis by (simp add: select_tasks_def)
qed

lemma create_alike:
  assumes "alike (cu_user_id user) ids db db'" "fst new \<in> ids" "snd new \<in> ids"
  shows "alike_out (cu_user_id user) ids (create_task env llm cx new user body db) (create_task env llm cx new user body db')"
proof -
  have flush: "flush_and_refresh cx now db (new_task (fst new) (cu_user_id user) t b s n)
      = flush_and_refresh cx now db' (new_task (fst new) (cu_user_id user) t b s n)" for now t b s n
    by (rule flush_alike [OF assms(1)]) (use assms(2) in \<open>simp_all add: new_task_def\<close>)
  show ?thesis
    unfolding create_task_def Let_def flush [symmetric]
    by (auto intro!: alike_and_then assms(1))
      (use assms in \<open>auto simp: alike_out_def snapshot_within new_task_def dest!: flush_id\<close>)
qed

lemma run_manually_alike:
  assumes "alike u ids db db'" "i \<in> ids"
  shows "run_task_manually g lib now db (uuid_str i) = run_task_manually g lib now db' (uuid_str i)"
proof -
  have "load_task cx db (uuid_str i) = load_task cx db' (uuid_str i)" for cx
    by (simp add: load_task_def uuid_parse_str select_reserved [OF assms])
  then show ?thesis by (simp add: run_task_manually_def cong: option.case_cong)
qed

lemma run_alike:
  assumes "alike (cu_user_id user) ids db db'" "user_session cx (cu_user_id user)" "i \<in> ids"
  shows "alike_out (cu_user_id user) ids
      (run_task env g lib cx i user task_id db) (run_task env g lib cx i user task_id db')"
proof (cases "get_task_or_404 cx db task_id")
  case (Inl e)
  then show ?thesis
    using get_task_alike [OF assms(1,2), of task_id] assms(1) by (simp add: run_task_def)
next
  case (Inr task)
  then have same: "get_task_or_404 cx db' task_id = Inr task"
    using get_task_alike [OF assms(1,2), of task_id] by simp
  have "t_id task \<in> ids" using get_task_known [OF alikeD(3) [OF assms(1)] assms(2) Inr] by blast
  note manual = run_manually_alike [OF assms(1) this]
  obtain r sent where r: "run_task_manually g lib (pe_clock env 0) db (uuid_str (t_id task)) = (r, sent)"
    by fastforce
  have commit: "rel_sum (=) (alike (cu_user_id user) ids)
      (apply_writes cx now [record_execution i now (cu_user_id user) tid src url b st m] db)
      (apply_writes cx now [record_execution i now (cu_user_id user) tid src url b st m] db')" for now tid src url b st m
    by (rule writes_alike [OF assms(1)]) (use assms(3) in simp)
  show ?thesis
  proof (cases r)
    case (Inl e)
    then show ?thesis
      using Inr same r r [unfolded manual] assms(1)
      by (simp add: run_task_def alike_out_def)
  next
    case (Inr outcome)
    let ?w = "webhook_fire_result MANUAL (t_webhook_url task) outcome"
    let ?stored = "apply_writes cx (pe_clock env 0) [record_execution i (pe_clock env 0) (cu_user_id user)
      (t_id task) (wr_execution_source ?w) (wr_webhook_url ?w) (wr_success ?w) (wr_http_status ?w)
      (wr_error_message ?w)]"
    have "rel_sum (=) (alike (cu_user_id user) ids) (?stored db) (?stored db')" by (rule commit)
    then show ?thesis
      using Inr \<open>get_task_or_404 cx db task_id = Inr task\<close> same r r [unfolded manual] assms(1)
      by (cases "?stored db"; cases "?stored db'") (simp_all add: run_task_def Let_def alike_out_def)
  qed
qed

lemma reads_alike:
  assumes "alike u ids db db'" "user_session cx u"
  shows "alike_out u ids (list_tasks rt cx pos q db) (list_tasks rt cx pos q db')"
    and "alike_out u ids (list_history cx hpos h db) (list_history cx hpos h db')"
    and "alike_out u ids (list_task_history cx hpos i h db) (list_task_history cx hpos i h db')"
    and "rel_option (alike_out u ids) (get_task_schedule pe cx i n db) (get_task_schedule pe cx i n db')"
  using assms(1) get_task_alike [OF assms, of i]
  by (auto simp: list_tasks_def list_history_def list_task_history_def list_history_rows_def Let_def
      get_task_schedule_def select_own [OF assms] option.rel_map split: sum.splits
      intro: option.rel_refl_strong)

lemma run_handler_alike:
  assumes "alike (cu_user_id user) ids db db'" "user_session cx (cu_user_id user)"
    "fst (ap_ids env) \<in> ids" "snd (ap_ids env) \<in> ids"
  shows "rel_option (alike_out (cu_user_id user) ids)
    (run_handler env cx user request db) (run_handler env cx user request db')"
proof (cases request)
  case (TaskScheduleRequest i n)
  have "rel_option (alike_out (cu_user_id user) ids)
      (map_option (map_out TaskScheduleBody) (get_task_schedule (ap_parse env) cx i n db))
      (map_option (map_out TaskScheduleBody) (get_task_schedule (ap_parse env) cx i n db'))"
    using reads_alike(4) [OF assms(1,2), of "ap_parse env" i n]
    by (cases "get_task_schedule (ap_parse env) cx i n db"; cases "get_task_schedule (ap_parse env) cx i n db'")
      simp_all
  then show ?thesis
    using TaskScheduleRequest assms(1) by (cases "check_params (valid_schedule_count n)") (simp_all add: run_handler_def)
qed (use assms in \<open>auto simp: run_handler_def intro!: alike_and_then alike_out_map reads_alike
    lifecycle_alike create_alike run_alike\<close>)

section \<open>Requests\<close>

lemma run_background_alike:
  assumes "schedules_alike ids m m'"
  shows "rel_sum (=) (schedules_alike ids) (run_background env b m) (run_background env b m')"
  using assms
  by (cases b)
    (auto simp: run_background_def register_schedule_def unregister_schedule_def rbind_def
      schedules_alike_def split: sum.splits)

lemma run_backgrounds_alike:
  assumes "schedules_alike ids m m'"
  shows "fst (run_backgrounds env bs m) = fst (run_backgrounds env bs m')
    \<and> schedules_alike ids (snd (run_backgrounds env bs m)) (snd (run_backgrounds env bs m'))"
  using assms
proof (induction bs arbitrary: m m')
  case (Cons b bs)
  show ?case
    using run_background_alike [OF Cons.prems, of env b] Cons
    by (cases "run_background env b m"; cases "run_background env b m'") simp_all
qed simp

lemma finish_alike:
  assumes "schedules_alike ids (st_schedules st) (st_schedules st')" "alike_out u ids out out'"
  shows "fst (finish_request env cx request st out) = fst (finish_request env cx request st' out')
    \<and> alike_states u ids (snd (finish_request env cx request st out)) (snd (finish_request env cx request st' out'))"
proof -
  note same = assms(2) [unfolded alike_out_def]
  let ?commit = "\<lambda>d. apply_writes cx (pe_clock (ap_parse env) 0) (ho_pending out) d"
  let ?after = "\<lambda>s. run_backgrounds env (ho_background out) (st_schedules s)"
  have commit: "rel_sum (=) (alike u ids) (?commit (ho_db out)) (?commit (ho_db out'))"
    using writes_alike same by blast
  have after: "fst (?after st) = fst (?after st')" "schedules_alike ids (snd (?after st)) (snd (?after st'))"
    using run_backgrounds_alike [OF assms(1), of env "ho_background out"] by simp_all
  show ?thesis
  proof (cases "ho_result out")
    case (Inl e)
    then show ?thesis using same assms(1) by (auto simp: finish_request_def alike_states_def)
  next
    case (Inr body)
    then show ?thesis
      using same commit after assms(1)
      by (cases "?commit (ho_db out)"; cases "?commit (ho_db out')"; cases "?after st"; cases "?after st'")
        (auto simp: finish_request_def alike_states_def Let_def)
  qed
qed

lemma request_alike:
  assumes "authenticate (ap_auth env) (pe_clock (ap_parse env) 0) http = Inr user"
    and "alike_states (cu_user_id user) ids st st'" "fst (ap_ids env) \<in> ids" "snd (ap_ids env) \<in> ids"
  shows "rel_option (\<lambda>(a, st1, sent) (a', st1', sent'). a = a' \<and> sent = sent' \<and> alike_states (cu_user_id user) ids st1 st1')
    (handle_request env http request st) (handle_request env http request st')"
proof -
  let ?u = "cu_user_id user" and ?cx = "request_session env user"
  have st: "alike ?u ids (st_db st) (st_db st')" "schedules_alike ids (st_schedules st) (st_schedules st')"
    using assms(2) by (simp_all add: alike_states_def)
  have "rel_option (alike_out ?u ids)
      (run_handler env ?cx user request (st_db st)) (run_handler env ?cx user request (st_db st'))"
    by (rule run_handler_alike [OF st(1) authenticate_session [OF assms(1)] assms(3,4)])
  then show ?thesis
    using assms(1) finish_alike [OF st(2), where u = ?u and env = env and request = request and cx = ?cx]
    by (cases "run_handler env ?cx user request (st_db st)"; cases "run_handler env ?cx user request (st_db st')")
      (auto simp: handle_request_def split_def Let_def alike_out_def)
qed

section \<open>Requests of the others\<close>

text \<open>A write on behalf of somebody else leaves the database as it was for the user.\<close>

fun outside :: "string \<Rightarrow> uuid set \<Rightarrow> db_write \<Rightarrow> bool" where
  "outside u ids (InsertTask t) = (t_user_id t \<noteq> u \<and> t_id t \<notin> ids)"
| "outside u ids (UpdateTask i a n) = (i \<notin> ids)"
| "outside u ids (DeleteTask i) = (i \<notin> ids)"
| "outside u ids (InsertHistory h) = (h_user_id h \<noteq> u \<and> h_id h \<notin> ids)"
| "outside u ids (MutateHistory i h) = True"

lemma alike_refl: "reserved u ids db \<Longrightarrow> alike u ids db db"
  by (simp add: alike_def)

lemma alike_trans: "alike u ids db db' \<Longrightarrow> alike u ids db' db'' \<Longrightarrow> alike u ids db db''"
  by (simp add: alike_def)

lemma map_others:
  assumes "\<forall>t \<in> set xs. t_id t = i \<longrightarrow> t_user_id t \<noteq> u"
  shows "filter (\<lambda>t. t_user_id t = u) (map (\<lambda>t. if t_id t = i \<and> P t then updated_task now a n t else t) xs)
    = filter (\<lambda>t. t_user_id t = u) xs"
  using assms by (induction xs) auto

lemma write_outside:
  assumes "apply_write cx now w db = Inr db'" "outside u ids w" "reserved u ids db"
  shows "alike u ids db db'"
proof (cases w)
  case (UpdateTask i a n)
  have "\<forall>t \<in> set (db_tasks db). t_id t = i \<longrightarrow> t_user_id t \<noteq> u"
    using assms(2,3) UpdateTask by (auto simp: reserved_def)
  note others = map_others [OF this]
  have db': "db' = db\<lparr>db_tasks := map (\<lambda>t. if t_id t = i \<and> task_allowed cx (t_user_id t)
      then updated_task now a n t else t) (db_tasks db)\<rparr>"
    using assms(1) UpdateTask by (simp split: if_splits)
  show ?thesis
    using others [of "\<lambda>t. task_allowed cx (t_user_id t)" now a n] reserved_update [OF assms(3)] assms(3)
    unfolding db' alike_def by simp
next
  case (DeleteTask i)
  have "filter (\<lambda>t. t_user_id t = u) (filter (\<lambda>t. \<not> (t_id t = i \<and> task_allowed cx (t_user_id t))) (db_tasks db))
      = filter (\<lambda>t. t_user_id t = u) (db_tasks db)"
    unfolding filter_filter by (rule filter_cong) (use assms(2,3) DeleteTask in \<open>auto simp: reserved_def\<close>)
  then show ?thesis
    using assms(1,3) DeleteTask by (auto simp: alike_def reserved_def simp del: filter_filter)
qed (use assms in \<open>auto simp: alike_def reserved_def split: if_splits\<close>)

interpretation outside_writes: step_relation "apply_write cx now" "outside u ids" "\<lambda>db db'. reserved u ids db \<longrightarrow> alike u ids db db'"
  for cx now u ids
  by unfold_locales (auto intro: alike_refl alike_trans write_outside dest: alikeD(4))

lemma writes_outside:
  "list_all (outside u ids) ws \<Longrightarrow> apply_writes cx now ws db = Inr db' \<Longrightarrow> reserved u ids db \<Longrightarrow> alike u ids db db'"
  using outside_writes.run_R by (simp add: apply_writes_def)

definition outside_out :: "string \<Rightarrow> uuid set \<Rightarrow> db \<Rightarrow> 'r handler_out \<Rightarrow> bool" where
  "outside_out u ids db out \<longleftrightarrow>
     alike u ids db (ho_db out) \<and> list_all (outside u ids) (ho_pending out)
     \<and> (\<forall>b \<in> set (ho_background out). background_id b \<notin> ids)"

lemma outside_out_map [simp]: "outside_out u ids db (map_out f out) = outside_out u ids db out"
  by (simp add: outside_out_def)

lemma outside_out_quiet [simp]:
  "reserved u ids db \<Longrightarrow> outside_out u ids db (handler_raises db e)"
  "reserved u ids db \<Longrightarrow> outside_out u ids db (handler_reads db r)"
  by (simp_all add: outside_out_def alike_refl)

lemma outside_and_then:
  assumes "reserved u ids db" "\<And>x. r = Inr x \<Longrightarrow> outside_out u ids db (f x)"
  shows "outside_out u ids db (and_then db r f)"
  using assms by (cases r) simp_all

lemma history_outside [simp]:
  "outside u ids (record_task_lifecycle i now v tid ev) \<longleftrightarrow> v \<noteq> u \<and> i \<notin> ids"
  "outside u ids (record_execution i now v tid src url b st m) \<longleftrightarrow> v \<noteq> u \<and> i \<notin> ids"
  by (simp_all add: record_task_lifecycle_def record_execution_def history_row_def)

lemma snapshot_outside:
  "record_task_deleted rt i now v task = Inr w \<Longrightarrow> outside u ids w \<longleftrightarrow> v \<noteq> u \<and> i \<notin> ids"
  "record_task_created rt i now v task = Inr w \<Longrightarrow> outside u ids w \<longleftrightarrow> v \<noteq> u \<and> i \<notin> ids"
  by (auto simp: record_task_deleted_def record_task_created_def snapshot_from_task_def
      rbind_eq_Inr history_row_def)

lemma lifecycle_outside:
  assumes "reserved u ids db" "user_session cx (cu_user_id user)" "cu_user_id user \<noteq> u" "i \<notin> ids"
  shows "outside_out u ids db (deactivate_task env cx i user task_id db)"
    and "outside_out u ids db (activate_task env cx i user task_id db)"
    and "outside_out u ids db (delete_task env cx i user task_id db)"
    and "outside_out u ids db (run_task env g lib cx i user task_id db)"
proof -
  note known = get_task_known [OF assms(1,2)]
  note quiet = alike_refl [OF assms(1)]
  show "outside_out u ids db (deactivate_task env cx i user task_id db)"
    unfolding deactivate_task_def Let_def
    by (auto intro!: outside_and_then assms(1)) (use known assms quiet in \<open>auto simp: outside_out_def\<close>)
  show "outside_out u ids db (activate_task env cx i user task_id db)"
    unfolding activate_task_def Let_def
    by (auto intro!: outside_and_then assms(1)) (use known assms quiet in \<open>auto simp: outside_out_def\<close>)
  show "outside_out u ids db (delete_task env cx i user task_id db)"
    unfolding delete_task_def
    by (auto intro!: outside_and_then assms(1))
      (use known assms quiet in \<open>auto simp: outside_out_def snapshot_outside\<close>)
  have raised: "outside_out u ids db ((handler_raises db e)\<lparr>ho_sent := sent\<rparr>)" for e sent
    using quiet by (simp add: outside_out_def)
  have written: "alike u ids db db'"
    if "apply_writes cx now [record_execution i now (cu_user_id user) tid src url b st m] db = Inr db'"
    for now tid src url b st m db'
    by (rule writes_outside [OF _ that assms(1)]) (use assms(3,4) in simp)
  show "outside_out u ids db (run_task env g lib cx i user task_id db)"
    unfolding run_task_def Let_def
    by (auto intro!: outside_and_then assms(1) raised split: prod.splits sum.splits)
      (auto simp: outside_out_def intro: written)
qed

lemma create_outside:
  assumes "reserved u ids db" "cu_user_id user \<noteq> u" "fst new \<notin> ids" "snd new \<notin> ids"
  shows "outside_out u ids db (create_task env llm cx new user body db)"
  unfolding create_task_def Let_def
  by (auto intro!: outside_and_then assms(1))
    (use assms alike_refl [OF assms(1)] in \<open>auto simp: outside_out_def snapshot_outside new_task_def dest!: flush_id\<close>)

lemma run_handler_outside:
  assumes "reserved u ids db" "user_session cx (cu_user_id user)" "cu_user_id user \<noteq> u"
    "fst (ap_ids env) \<notin> ids" "snd (ap_ids env) \<notin> ids" "run_handler env cx user request db = Some out"
  shows "outside_out u ids db out"
proof (cases request)
  case (TaskScheduleRequest i n)
  then show ?thesis
    using assms(1,6) by (auto simp: run_handler_def get_task_schedule_def split: sum.splits)
qed (use assms in \<open>auto simp: run_handler_def list_tasks_def list_history_def list_task_history_def
    list_history_rows_def Let_def intro!: outside_and_then lifecycle_outside create_outside\<close>)

lemma schedules_outside:
  assumes "run_background env b m = Inr m'" "background_id b \<notin> ids"
  shows "schedules_alike ids m m'"
proof -
  have "uuid_str j \<noteq> uuid_str (background_id b)" if "j \<in> ids" for j
    using that assms(2) uuid_parse_str by (metis Inr_inject)
  then show ?thesis
    using assms
    by (cases b) (auto simp: run_background_def register_schedule_def unregister_schedule_def rbind_eq_Inr
        schedules_alike_def)
qed

lemma backgrounds_outside:
  assumes "\<forall>b \<in> set bs. background_id b \<notin> ids"
  shows "schedules_alike ids m (snd (run_backgrounds env bs m))"
  using assms
proof (induction bs arbitrary: m)
  case (Cons b bs)
  then show ?case
    using schedules_outside [of env b m _ ids]
    by (cases "run_background env b m") (auto simp: schedules_alike_def)
qed (simp add: schedules_alike_def)

lemma finish_outside:
  assumes "outside_out u ids (st_db st) out"
  shows "alike_states u ids st (snd (finish_request env cx request st out))"
proof -
  note out = assms [unfolded outside_out_def]
  have commit: "alike u ids (st_db st) db'"
    if "apply_writes cx now (ho_pending out) (ho_db out) = Inr db'" for now db'
    using writes_outside [OF _ that] out alike_trans alikeD(4) by blast
  have same: "schedules_alike ids (st_schedules st) (st_schedules st)" by (simp add: schedules_alike_def)
  show ?thesis
    using out backgrounds_outside [of "ho_background out" ids "st_schedules st" env] same
    by (auto simp: finish_request_def alike_states_def Let_def split_def commit split: sum.splits)
qed

lemma request_outside:
  assumes "\<And>user. authenticate (ap_auth env) (pe_clock (ap_parse env) 0) http = Inr user \<Longrightarrow> cu_user_id user \<noteq> u"
    and "handle_request env http request st = Some (a, st', sent)" "reserved u ids (st_db st)"
    and "fst (ap_ids env) \<notin> ids" "snd (ap_ids env) \<notin> ids"
  shows "alike_states u ids st st'"
proof (cases "authenticate (ap_auth env) (pe_clock (ap_parse env) 0) http")
  case (Inl e)
  then have "st' = st" using assms(2) by (simp add: handle_request_def)
  then show ?thesis using assms(3) by (simp add: alike_states_def alike_refl schedules_alike_def)
next
  case (Inr user)
  obtain out where "run_handler env (request_session env user) user request (st_db st) = Some out"
    and "finish_request env (request_session env user) request st out = (a, st')"
    using handle_request_Some [OF assms(2) Inr] by blast
  then show ?thesis
    using finish_outside run_handler_outside [OF assms(3) authenticate_session [OF Inr] assms(1) [OF Inr] assms(4,5)]
    by (metis snd_conv)
qed

section \<open>Runs of requests of many users\<close>

type_synonym 't call = "'t app_env \<times> http_request \<times> api_request"

fun from_user :: "string \<Rightarrow> 't call \<Rightarrow> bool" where
  "from_user u (env, http, request) =
     (case authenticate (ap_auth env) (pe_clock (ap_parse env) 0) http of
        Inl e \<Rightarrow> False
      | Inr user \<Rightarrow> cu_user_id user = u)"

text \<open>
  What a user gets to see of a run of requests: for each of the user's own, the answer with the
  webhooks sent, or nothing when the computation of fire times does not end. Such a request never
  commits, so it leaves the state as it was.
\<close>

fun answers_to :: "string \<Rightarrow> 't call list \<Rightarrow> 't app_state \<Rightarrow> (answer \<times> webhook_request list) option list" where
  "answers_to u [] st = []"
| "answers_to u ((env, http, request) # calls) st =
     (let r = handle_request env http request st;
          later = answers_to u calls (case r of None \<Rightarrow> st | Some (a, st', sent) \<Rightarrow> st')
      in if from_user u (env, http, request) then map_option (\<lambda>(a, st', sent). (a, sent)) r # later
         else later)"

text \<open>The identifiers that a request of the user takes are of the set, those of other requests are not.\<close>

fun ids_apart :: "string \<Rightarrow> uuid set \<Rightarrow> 't call \<Rightarrow> bool" where
  "ids_apart u ids (env, http, request) =
     (if from_user u (env, http, request) then fst (ap_ids env) \<in> ids \<and> snd (ap_ids env) \<in> ids
      else fst (ap_ids env) \<notin> ids \<and> snd (ap_ids env) \<notin> ids)"

lemma alike_states_refl: "reserved u ids (st_db st) \<Longrightarrow> alike_states u ids st st"
  by (simp add: alike_states_def alike_refl schedules_alike_def)

lemma alike_states_trans:
  "alike_states u ids st st' \<Longrightarrow> alike_states u ids st' st'' \<Longrightarrow> alike_states u ids st st''"
  by (auto simp: alike_states_def schedules_alike_def intro: alike_trans)

lemma alike_states_sym: "alike_states u ids st st' \<Longrightarrow> alike_states u ids st' st"
  by (simp add: alike_states_def alike_def schedules_alike_def)

lemma alike_states_reserved: "alike_states u ids st st' \<Longrightarrow> reserved u ids (st_db st)"
  by (simp add: alike_states_def alike_def)

text \<open>A call as an event: what it leaves, and what its user is answered.\<close>

fun call_step :: "'t call \<Rightarrow> 't app_state \<Rightarrow> 't app_state" where
  "call_step (env, http, request) st =
     (case handle_request env http request st of None \<Rightarrow> st | Some (a, st', sent) \<Rightarrow> st')"

fun call_answer :: "'t call \<Rightarrow> 't app_state \<Rightarrow> (answer \<times> webhook_request list) option" where
  "call_answer (env, http, request) st = map_option (\<lambda>(a, st', sent). (a, sent)) (handle_request env http request st)"

lemma answers_observed: "answers_to u calls st = observed call_step call_answer (from_user u) calls st"
  by (induction u calls st rule: answers_to.induct) (simp_all add: Let_def del: from_user.simps)

lemma own_call:
  assumes "ids_apart u ids call" "from_user u call" "alike_states u ids st st'"
  shows "call_answer call st = call_answer call st'" "alike_states u ids (call_step call st) (call_step call st')"
proof -
  obtain env http request where call: "call = (env, http, request)" by (cases call)
  obtain user where user: "authenticate (ap_auth env) (pe_clock (ap_parse env) 0) http = Inr user"
    and u: "cu_user_id user = u"
    using assms(2) by (auto simp: call split: sum.splits)
  have "fst (ap_ids env) \<in> ids" "snd (ap_ids env) \<in> ids"
    using assms(1,2) by (simp_all add: call del: from_user.simps)
  note same = request_alike [OF user, unfolded u, OF assms(3) this, of request]
  show "call_answer call st = call_answer call st'" "alike_states u ids (call_step call st) (call_step call st')"
    using same assms(3) unfolding call
    by (cases "handle_request env http request st"; cases "handle_request env http request st'"; auto)+
qed

lemma foreign_call:
  assumes "ids_apart u ids call" "\<not> from_user u call" "alike_states u ids st st"
  shows "alike_states u ids st (call_step call st)"
proof -
  obtain env http request where call: "call = (env, http, request)" by (cases call)
  have ids: "fst (ap_ids env) \<notin> ids" "snd (ap_ids env) \<notin> ids"
    using assms(1,2) by (simp_all add: call del: from_user.simps)
  have foreign: "cu_user_id user \<noteq> u"
    if "authenticate (ap_auth env) (pe_clock (ap_parse env) 0) http = Inr user" for user
    using that assms(2) by (simp add: call)
  show ?thesis
    using request_outside [OF foreign _ alike_states_reserved [OF assms(3)] ids] assms(3)
    by (auto simp: call split: option.split)
qed

interpretation calls: unwinding call_step call_answer "from_user u" "ids_apart u ids" "alike_states u ids"
  for u ids
  by unfold_locales (blast intro: alike_states_sym alike_states_trans own_call foreign_call)+

text \<open>
  No user learns anything of the others. Take any run of requests, of any users, authenticated
  or not, in any order, from any state. What a user is answered, down to the text of an error, and
  what webhooks the user's requests send, is what it would be had nobody else made a request: the
  requests of the others can be removed from the run. This covers the totals and the pages of the
  lists, the errors of a commit, and the runs whose task is loaded in a session that sees every
  row. The ids of the user's rows are apart from those that other requests take. The database
  may read tied rows in any fixed order of the rows themselves.
\<close>

theorem noninterference:
  assumes "reserved u ids (st_db st)" "list_all (ids_apart u ids) calls"
  shows "answers_to u calls st = answers_to u (filter (from_user u) calls) st"
  unfolding answers_observed by (rule calls.others_removed [OF assms(2) alike_states_refl [OF assms(1)]])

text \<open>The other user deletes a task while the first creates one and runs another.\<close>

definition other_app :: "demo_trigger app_env" where
  "other_app = (demo_app True)\<lparr>ap_ids := (9, 10), ap_auth := demo_auth\<lparr>ae_lib := demo_jwt\<lparr>
     jwt_decode := (\<lambda>now token secret algs. Inr [(''sub'', JStr ''user-2'')])\<rparr>\<rparr>\<rparr>"

definition demo_calls :: "demo_trigger call list" where
  "demo_calls =
     [(other_app, demo_http, DeleteTaskRequest 2),
      (demo_app True, demo_http, CreateTaskRequest ''https://example.com/hook'' [] (BodyInterval 3600)),
      (other_app, demo_http, DeactivateTaskRequest 1),
      (demo_app True, demo_http, RunTaskRequest 1)]"

lemma other_authenticated:
  "authenticate (ap_auth other_app) (pe_clock (ap_parse other_app) 0) demo_http
     = Inr \<lparr>cu_user_id = ''user-2''\<rparr>"
  by (simp add: authenticate_def auth_dispatch_def demo_http_def PUBLIC_PATHS_def other_app_def demo_app_def
      dict_get_def get_current_user_def Let_def demo_auth_def decode_token_def)

lemma other_ids [simp]: "ap_ids other_app = (9, 10)"
  by (simp add: other_app_def)

lemma demo_calls_from [simp]:
  "\<not> from_user ''user-1'' (other_app, demo_http, request)"
  "from_user ''user-1'' (demo_app True, demo_http, request)"
  using demo_authenticated [of True] by (simp_all add: other_authenticated demo_user_def)

lemma noninterference_witness:
  "answers_to ''user-1'' demo_calls ((demo_state demo_task)\<lparr>st_db :=
       \<lparr>db_tasks = [demo_task, foreign_task], db_history = []\<rparr>\<rparr>)
   = answers_to ''user-1''
       [(demo_app True, demo_http, CreateTaskRequest ''https://example.com/hook'' [] (BodyInterval 3600)),
        (demo_app True, demo_http, RunTaskRequest 1)]
       ((demo_state demo_task)\<lparr>st_db := \<lparr>db_tasks = [demo_task, foreign_task], db_history = []\<rparr>\<rparr>)"
proof -
  let ?st = "(demo_state demo_task)\<lparr>st_db := \<lparr>db_tasks = [demo_task, foreign_task], db_history = []\<rparr>\<rparr>"
  have "reserved ''user-1'' {1, 7, 8} (st_db ?st)"
    by (simp add: reserved_def)
  moreover have "list_all (ids_apart ''user-1'' {1, 7, 8}) demo_calls"
    by (simp add: demo_calls_def del: from_user.simps)
  ultimately show ?thesis
    using noninterference [of "''user-1''" "{1, 7, 8}" ?st demo_calls]
    by (simp add: demo_calls_def del: from_user.simps)
qed

end
