(* ===== verification/Interleaved_Confidentiality.thy ===== *)
theory Interleaved_Confidentiality
  imports Interleaved_Invariant Confidentiality Events
begin

text \<open>
  What a user learns of the others when everything overlaps. Of the events of the interleaved service,
  the user's are those of the user's requests, schedules and jobs, and the rest can be left out.
\<close>

section \<open>Services that a user cannot tell apart\<close>

text \<open>
  Besides the ids, the user has flights and runs of its own: those of the set \<open>ks\<close>. What they still
  have to do is within the user's rows, what the others have to do is outside.
\<close>

fun own_event :: "string \<Rightarrow> uuid set \<Rightarrow> nat set \<Rightarrow> 't event \<Rightarrow> bool" where
  "own_event u ids ks (Handle k env http request) \<longleftrightarrow> from_user u (env, http, request)"
| "own_event u ids ks (Act k) \<longleftrightarrow> k \<in> ks"
| "own_event u ids ks (Due i) \<longleftrightarrow> i \<in> ids"
| "own_event u ids ks (Start k now i) \<longleftrightarrow> i \<in> ids"
| "own_event u ids ks (Finish k i now) \<longleftrightarrow> k \<in> ks"

fun event_apart :: "string \<Rightarrow> uuid set \<Rightarrow> nat set \<Rightarrow> 't event \<Rightarrow> bool" where
  "event_apart u ids ks (Handle k env http request) \<longleftrightarrow>
     ids_apart u ids (env, http, request) \<and> (k \<in> ks \<longleftrightarrow> from_user u (env, http, request))"
| "event_apart u ids ks (Start k now i) \<longleftrightarrow> (k \<in> ks \<longleftrightarrow> i \<in> ids)"
| "event_apart u ids ks (Finish k i now) \<longleftrightarrow> (k \<in> ks \<longleftrightarrow> i \<in> ids)"
| "event_apart u ids ks _ \<longleftrightarrow> True"

fun action_apart :: "string \<Rightarrow> uuid set \<Rightarrow> bool \<Rightarrow> action \<Rightarrow> bool" where
  "action_apart u ids mine (Commit cx now ws) \<longleftrightarrow> list_all (if mine then within u ids else outside u ids) ws"
| "action_apart u ids mine (Background b) \<longleftrightarrow> (background_id b \<in> ids \<longleftrightarrow> mine)"

definition flights_apart :: "string \<Rightarrow> uuid set \<Rightarrow> nat set \<Rightarrow> (nat \<Rightarrow> 't flight option) \<Rightarrow> bool" where
  "flights_apart u ids ks flights \<longleftrightarrow>
     (\<forall>k f. flights k = Some f \<longrightarrow> list_all (action_apart u ids (k \<in> ks)) (fl_actions f))"

definition runs_apart ::
  "string \<Rightarrow> uuid set \<Rightarrow> nat set \<Rightarrow> (nat \<Rightarrow> (rls_ctx \<times> scheduled_task \<times> webhook_fire_outcome) option) \<Rightarrow> bool" where
  "runs_apart u ids ks runs \<longleftrightarrow>
     (\<forall>k cx task outcome. runs k = Some (cx, task, outcome)
        \<longrightarrow> (t_id task \<in> ids \<longleftrightarrow> k \<in> ks) \<and> (t_user_id task = u \<longleftrightarrow> k \<in> ks))"

definition apart :: "string \<Rightarrow> uuid set \<Rightarrow> nat set \<Rightarrow> 't service \<Rightarrow> bool" where
  "apart u ids ks s \<longleftrightarrow>
     reserved u ids (st_db (sv_app s)) \<and> schedules_keyed (st_schedules (sv_app s))
     \<and> flights_apart u ids ks (sv_flights s) \<and> runs_apart u ids ks (sv_runs s)"

definition own_jobs :: "uuid set \<Rightarrow> 't service \<Rightarrow> string list" where
  "own_jobs ids s = filter (\<lambda>j. j \<in> uuid_str ` ids) (sv_jobs s)"

definition like :: "string \<Rightarrow> uuid set \<Rightarrow> nat set \<Rightarrow> 't service \<Rightarrow> 't service \<Rightarrow> bool" where
  "like u ids ks s t \<longleftrightarrow>
     apart u ids ks s \<and> apart u ids ks t \<and> alike_states u ids (sv_app s) (sv_app t)
     \<and> (\<forall>k \<in> ks. sv_flights s k = sv_flights t k \<and> sv_runs s k = sv_runs t k) \<and> own_jobs ids s = own_jobs ids t"

lemma like_refl: "apart u ids ks s \<Longrightarrow> like u ids ks s s"
  by (simp add: like_def alike_states_refl apart_def)

lemma like_sym: "like u ids ks s t \<Longrightarrow> like u ids ks t s"
  by (simp add: like_def alike_states_sym)

lemma like_trans: "like u ids ks s t \<Longrightarrow> like u ids ks t v \<Longrightarrow> like u ids ks s v"
  by (auto simp: like_def intro: alike_states_trans)

lemma likeD:
  assumes "like u ids ks s t"
  shows "apart u ids ks s" "apart u ids ks t" "alike_states u ids (sv_app s) (sv_app t)"
    and "alike u ids (st_db (sv_app s)) (st_db (sv_app t))"
    and "schedules_alike ids (st_schedules (sv_app s)) (st_schedules (sv_app t))"
    and "k \<in> ks \<Longrightarrow> sv_flights s k = sv_flights t k" "k \<in> ks \<Longrightarrow> sv_runs s k = sv_runs t k"
    and "own_jobs ids s = own_jobs ids t"
  using assms by (simp_all add: like_def alike_states_def)

lemma own_job: "i \<in> ids \<Longrightarrow> uuid_str i \<in> set (sv_jobs s) \<longleftrightarrow> uuid_str i \<in> set (own_jobs ids s)"
  by (auto simp: own_jobs_def)

lemma uuid_str_own: "uuid_str i \<in> uuid_str ` ids \<longleftrightarrow> i \<in> ids"
  by (auto simp: uuid_str_inject)

section \<open>Handlers\<close>

lemma request_actions_apart:
  assumes "list_all (if mine then within u ids else outside u ids) (ho_pending out)"
    and "\<forall>b \<in> set (ho_background out). background_id b \<in> ids \<longleftrightarrow> mine"
  shows "list_all (action_apart u ids mine) (request_actions env cx out)"
  using assms by (auto simp: request_actions_def Let_def list_all_iff split: sum.splits)

lemma alike_actions:
  assumes "alike_out u ids out out'"
  shows "list_all (action_apart u ids True) (request_actions env cx out)"
    and "request_actions env cx out' = request_actions env cx out"
proof -
  note same = assms [unfolded alike_out_def]
  have own: "list_all (within u ids) (ho_pending out)" "\<forall>b \<in> set (ho_background out). background_id b \<in> ids"
    using same by blast+
  show "list_all (action_apart u ids True) (request_actions env cx out)"
    by (rule request_actions_apart) (use own in simp_all)
  have "ho_result out' = ho_result out" "ho_pending out' = ho_pending out" "ho_background out' = ho_background out"
    using same by simp_all
  then show "request_actions env cx out' = request_actions env cx out"
    by (simp only: request_actions_def)
qed

lemma flights_apart_upd:
  assumes "flights_apart u ids ks flights" "list_all (action_apart u ids (k \<in> ks)) (fl_actions f)"
  shows "flights_apart u ids ks (flights(k := some_flight f))"
  using assms by (auto simp: flights_apart_def some_flight_def)

lemma flights_apart_del: "flights_apart u ids ks flights \<Longrightarrow> flights_apart u ids ks (flights(k := None))"
  by (auto simp: flights_apart_def)

lemma handled_alike:
  assumes "from_user u (env, http, request)" "ids_apart u ids (env, http, request)" "alike u ids db db'"
  shows "rel_option (\<lambda>(user, out) (user', out'). user = user' \<and> alike_out u ids out out')
    (handled env http request db) (handled env http request db')"
proof -
  obtain user where user: "authenticate (ap_auth env) (pe_clock (ap_parse env) 0) http = Inr user"
    and u: "cu_user_id user = u"
    using assms(1) by (auto split: sum.splits)
  have "fst (ap_ids env) \<in> ids" "snd (ap_ids env) \<in> ids"
    using assms(1,2) by (simp_all del: from_user.simps)
  then have "rel_option (alike_out u ids)
      (run_handler env (request_session env user) user request db) (run_handler env (request_session env user) user request db')"
    using run_handler_alike [of user ids db db' "request_session env user" env request]
      authenticate_session [OF user, of env] assms(3) u by simp
  then show ?thesis
    using user by (auto simp: handled_def option.rel_map)
qed

lemma handle_own:
  assumes "event_apart u ids ks (Handle k env http request)" "from_user u (env, http, request)" "like u ids ks s t"
  shows "event_shows g lib (Handle k env http request) s = event_shows g lib (Handle k env http request) t"
    and "like u ids ks (handle_event k env http request s) (handle_event k env http request t)"
proof -
  have k: "k \<in> ks" and ids: "ids_apart u ids (env, http, request)"
    using assms(1,2) by (simp_all del: from_user.simps ids_apart.simps)
  note same = handled_alike [OF assms(2) ids likeD(4) [OF assms(3)]]
  note flight = likeD(6) [OF assms(3) k]
  show "event_shows g lib (Handle k env http request) s = event_shows g lib (Handle k env http request) t"
    using same flight
    by (cases "handled env http request (st_db (sv_app s))"; cases "handled env http request (st_db (sv_app t))")
      (auto simp: alike_out_def)
  show "like u ids ks (handle_event k env http request s) (handle_event k env http request t)"
  proof (cases "handled env http request (st_db (sv_app s))")
    case None
    then show ?thesis using same assms(3) by (simp add: handle_event_def flight)
  next
    case (Some p)
    obtain user out where p: "p = (user, out)" by (cases p)
    obtain out' where out': "handled env http request (st_db (sv_app t)) = Some (user, out')"
      and alike: "alike_out u ids out out'"
      using same Some p by (auto simp: option_rel_Some1)
    have actions: "list_all (action_apart u ids (k \<in> ks)) (request_actions env cx out)"
      "request_actions env cx out' = request_actions env cx out" for cx
      using alike_actions [OF alike] k by simp_all
    have db: "alike u ids (ho_db out) (ho_db out')" using alike by (simp add: alike_out_def)
    show ?thesis
    proof (cases "sv_flights s k")
      case None
      then show ?thesis
        using Some p out' flight assms(3) actions db k alikeD [OF db]
        by (auto simp: handle_event_def like_def apart_def alike_states_def own_jobs_def intro!: flights_apart_upd)
    next
      case (Some f)
      then show ?thesis using flight assms(3) by (simp add: handle_event_def)
    qed
  qed
qed

lemma handle_foreign:
  assumes "event_apart u ids ks (Handle k env http request)" "\<not> from_user u (env, http, request)" "apart u ids ks s"
  shows "like u ids ks s (handle_event k env http request s)"
proof (cases "sv_flights s k = None \<and> handled env http request (st_db (sv_app s)) \<noteq> None")
  case False
  then show ?thesis using like_refl [OF assms(3)] by (auto simp: handle_event_def split: option.splits)
next
  case True
  have k: "k \<notin> ks" and ids: "fst (ap_ids env) \<notin> ids" "snd (ap_ids env) \<notin> ids"
    using assms(1,2) by (simp_all del: from_user.simps)
  obtain user out where out: "handled env http request (st_db (sv_app s)) = Some (user, out)"
    using True by auto
  have user: "authenticate (ap_auth env) (pe_clock (ap_parse env) 0) http = Inr user"
    and run: "run_handler env (request_session env user) user request (st_db (sv_app s)) = Some out"
    using out by (auto simp: handled_def split: sum.splits)
  have "cu_user_id user \<noteq> u" using user assms(2) by simp
  then have outside: "outside_out u ids (st_db (sv_app s)) out"
    using run_handler_outside [OF _ authenticate_session [OF user] _ ids run] assms(3) by (simp add: apart_def)
  have "list_all (action_apart u ids False) (request_actions env cx out)" for cx
    by (rule request_actions_apart) (use outside in \<open>simp_all add: outside_out_def\<close>)
  then have flights: "flights_apart u ids ks ((sv_flights s)(k := some_flight
      \<lparr>fl_env = env, fl_user = v, fl_actions = request_actions env cx out\<rparr>))" for v cx
    using assms(3) k by (intro flights_apart_upd) (simp_all add: apart_def)
  have db: "alike u ids (st_db (sv_app s)) (ho_db out)" using outside by (simp add: outside_out_def)
  show ?thesis
    using True out assms(3) k flights db alikeD(4) [OF db]
    by (auto simp: handle_event_def like_def apart_def alike_states_def own_jobs_def schedules_alike_def)
qed

section \<open>Actions\<close>

lemma run_action_keyed:
  "run_action env a st = Inr st' \<Longrightarrow> schedules_keyed (st_schedules st) \<Longrightarrow> schedules_keyed (st_schedules st')"
  by (cases a) (auto simp: rbind_eq_Inr intro: run_background_keyed)

lemma run_action_alike:
  assumes "action_apart u ids True a" "alike_states u ids st st'"
  shows "rel_sum (=) (alike_states u ids) (run_action env a st) (run_action env a st')"
proof (cases a)
  case (Commit cx now ws)
  have "rel_sum (=) (alike u ids) (apply_writes cx now ws (st_db st)) (apply_writes cx now ws (st_db st'))"
    by (rule writes_alike) (use assms Commit in \<open>simp_all add: alike_states_def\<close>)
  then show ?thesis
    using assms(2) Commit
    by (cases "apply_writes cx now ws (st_db st)"; cases "apply_writes cx now ws (st_db st')")
      (simp_all add: alike_states_def)
next
  case (Background b)
  have "rel_sum (=) (schedules_alike ids) (run_background env b (st_schedules st)) (run_background env b (st_schedules st'))"
    by (rule run_background_alike) (use assms in \<open>simp add: alike_states_def\<close>)
  then show ?thesis
    using assms(2) Background
    by (cases "run_background env b (st_schedules st)"; cases "run_background env b (st_schedules st')")
      (simp_all add: alike_states_def)
qed

lemma run_action_foreign:
  assumes "action_apart u ids False a" "run_action env a st = Inr st'" "reserved u ids (st_db st)"
  shows "alike_states u ids st st'"
proof (cases a)
  case (Commit cx now ws)
  then show ?thesis
    using assms writes_outside [of u ids ws cx now "st_db st"]
    by (auto simp: rbind_eq_Inr alike_states_def schedules_alike_def)
next
  case (Background b)
  then show ?thesis
    using assms schedules_outside [of env b "st_schedules st" _ ids]
    by (auto simp: rbind_eq_Inr alike_states_def alike_refl)
qed

lemma flight_actions:
  assumes "flights_apart u ids ks flights" "flights k = Some f" "fl_actions f = a # rest"
  shows "action_apart u ids (k \<in> ks) a" "flights_apart u ids ks (flights(k := some_flight (f\<lparr>fl_actions := rest\<rparr>)))"
proof -
  have "list_all (action_apart u ids (k \<in> ks)) (a # rest)"
    using assms unfolding flights_apart_def by metis
  then show "action_apart u ids (k \<in> ks) a"
    "flights_apart u ids ks (flights(k := some_flight (f\<lparr>fl_actions := rest\<rparr>)))"
    using assms(1) by (auto intro: flights_apart_upd)
qed

lemma act_own:
  assumes "k \<in> ks" "like u ids ks s t"
  shows "event_shows g lib (Act k) s = event_shows g lib (Act k) t"
    and "like u ids ks (act_event k s) (act_event k t)"
proof -
  note flight = likeD(6) [OF assms(2,1)]
  have "event_shows g lib (Act k) s = event_shows g lib (Act k) t \<and> like u ids ks (act_event k s) (act_event k t)"
  proof (cases "\<exists>f a rest. sv_flights t k = Some f \<and> fl_actions f = a # rest")
    case False
    then show ?thesis
      using assms(2) by (auto simp: act_event_def flight split: option.splits list.splits)
  next
    case True
    then obtain f a rest where f: "sv_flights t k = Some f" "fl_actions f = a # rest" by blast
    have fl: "flights_apart u ids ks (sv_flights s)" "flights_apart u ids ks (sv_flights t)"
      using likeD(1,2) [OF assms(2)] by (simp_all add: apart_def)
    have "action_apart u ids True a" using flight_actions(1) [OF fl(2) f] assms(1) by simp
    note same = run_action_alike [OF this likeD(3) [OF assms(2)], of "fl_env f"]
    have rest: "flights_apart u ids ks ((sv_flights s)(k := some_flight (f\<lparr>fl_actions := rest\<rparr>)))"
      "flights_apart u ids ks ((sv_flights t)(k := some_flight (f\<lparr>fl_actions := rest\<rparr>)))"
      using flight_actions(2) [OF fl(1) _ f(2)] flight_actions(2) [OF fl(2) f] f(1) flight by simp_all
    show ?thesis
      using same
    proof (cases rule: rel_sum.cases)
      case (1 e e')
      then show ?thesis
        using f flight assms(2) flights_apart_del [OF fl(1)] flights_apart_del [OF fl(2)]
        by (auto simp: act_event_def like_def apart_def own_jobs_def)
    next
      case (2 st st')
      then show ?thesis
        using f flight assms(2) rest run_action_keyed [OF 2(1)] run_action_keyed [OF 2(2)] alike_states_reserved [OF 2(3)]
          alike_states_reserved [OF alike_states_sym [OF 2(3)]]
        by (auto simp: act_event_def like_def apart_def own_jobs_def)
    qed
  qed
  then show "event_shows g lib (Act k) s = event_shows g lib (Act k) t"
    "like u ids ks (act_event k s) (act_event k t)" by blast+
qed

lemma act_foreign:
  assumes "k \<notin> ks" "apart u ids ks s"
  shows "like u ids ks s (act_event k s)"
proof (cases "\<exists>f a rest. sv_flights s k = Some f \<and> fl_actions f = a # rest")
  case False
  then show ?thesis
    using like_refl [OF assms(2)] by (auto simp: act_event_def split: option.splits list.splits)
next
  case True
  then obtain f a rest where f: "sv_flights s k = Some f" "fl_actions f = a # rest" by blast
  have fl: "flights_apart u ids ks (sv_flights s)" using assms(2) by (simp add: apart_def)
  have a: "action_apart u ids False a" using flight_actions(1) [OF fl f] assms(1) by simp
  show ?thesis
  proof (cases "run_action (fl_env f) a (sv_app s)")
    case (Inl e)
    then show ?thesis
      using f assms flights_apart_del [OF fl]
      by (auto simp: act_event_def like_def apart_def own_jobs_def alike_states_refl)
  next
    case (Inr st)
    have "alike_states u ids (sv_app s) st"
      using run_action_foreign [OF a Inr] assms(2) by (simp add: apart_def)
    then show ?thesis
      using f assms Inr flight_actions(2) [OF fl f] run_action_keyed [OF Inr] alike_states_reserved [OF alike_states_sym]
      by (auto simp: act_event_def like_def apart_def own_jobs_def)
  qed
qed

section \<open>Schedules and jobs\<close>

lemma schedules_keyed_upd:
  "schedules_keyed m \<Longrightarrow> m (uuid_str i) = Some (trigger, args) \<Longrightarrow> schedules_keyed (m(uuid_str i \<mapsto> (trigger', args)))"
  by (auto simp: schedules_keyed_def)

lemma due_own:
  assumes "i \<in> ids" "like u ids ks s t"
  shows "like u ids ks (due_event aps i s) (due_event aps i t)"
proof -
  note same = likeD(5) [OF assms(2)]
  have sched: "st_schedules (sv_app s) (uuid_str i) = st_schedules (sv_app t) (uuid_str i)"
    using same assms(1) by (simp add: schedules_alike_def)
  have keyed: "schedules_keyed (st_schedules (sv_app s))" "schedules_keyed (st_schedules (sv_app t))"
    using likeD(1,2) [OF assms(2)] by (simp_all add: apart_def)
  note keys = keyed [THEN schedules_keyed_del, of "uuid_str i"] keyed [THEN schedules_keyed_upd]
  show ?thesis
    using assms(2) sched keys same
    by (auto simp: due_event_def like_def apart_def alike_states_def schedules_alike_def own_jobs_def
        split: option.splits sum.splits list.splits)
qed

lemma due_foreign:
  assumes "i \<notin> ids" "apart u ids ks s"
  shows "like u ids ks s (due_event aps i s)"
proof -
  have keyed: "schedules_keyed (st_schedules (sv_app s))" using assms(2) by (simp add: apart_def)
  have others: "schedules_alike ids (st_schedules (sv_app s)) ((st_schedules (sv_app s))(uuid_str i := x))" for x
    using assms(1) by (auto simp: schedules_alike_def uuid_str_inject)
  have job: "args = [uuid_str i]" if "st_schedules (sv_app s) (uuid_str i) = Some (trigger, args)" for trigger args
    using keyed that by (auto simp: schedules_keyed_def)
  show ?thesis
    using like_refl [OF assms(2)] assms others keyed [THEN schedules_keyed_del, of "uuid_str i"]
      schedules_keyed_upd [OF keyed, of i] job
    by (auto simp: due_event_def like_def apart_def alike_states_def alike_refl own_jobs_def uuid_str_inject
        split: option.splits sum.splits list.splits)
qed

text \<open>A job of a user's task finds the same task in both, and the run that it becomes is the user's.\<close>

lemma execution_begin_alike:
  assumes "alike u ids db db'" "i \<in> ids"
  shows "execution_begin g lib now db (uuid_str i) = execution_begin g lib now db' (uuid_str i)"
proof -
  have "load_task cx db (uuid_str i) = load_task cx db' (uuid_str i)" for cx
    by (simp add: load_task_def uuid_parse_str select_reserved [OF assms])
  then show ?thesis by (simp add: execution_begin_def cong: option.case_cong)
qed

lemma execution_begin_id:
  assumes "execution_begin g lib now db (uuid_str i) = (ExecutionFired cx task outcome, sent)"
  shows "t_id task = i" "task \<in> set (db_tasks db)"
proof -
  obtain cx where l: "load_task cx db (uuid_str i) = Inr (Some task)"
    using assms by (auto simp: execution_begin_def Let_def split: option.splits sum.splits prod.splits if_splits)
  show "t_id task = i" "task \<in> set (db_tasks db)"
    using load_task_Inr [OF l] by (simp_all add: uuid_parse_str)
qed

lemma runs_apart_upd:
  assumes "runs_apart u ids ks runs" "reserved u ids db" "k \<in> ks \<longleftrightarrow> i \<in> ids"
    and "execution_begin g lib now db (uuid_str i) = (ExecutionFired cx task outcome, sent)"
  shows "runs_apart u ids ks (runs(k \<mapsto> (cx, task, outcome)))"
  using assms(1-3) execution_begin_id [OF assms(4)] by (auto simp: runs_apart_def reserved_def)

lemma runs_apart_del: "runs_apart u ids ks runs \<Longrightarrow> runs_apart u ids ks (runs(k := None))"
  by (auto simp: runs_apart_def)

lemma own_jobs_remove:
  "i \<in> ids \<Longrightarrow> filter (\<lambda>j. j \<in> uuid_str ` ids) (remove1 (uuid_str i) js) = remove1 (uuid_str i) (filter (\<lambda>j. j \<in> uuid_str ` ids) js)"
  "i \<notin> ids \<Longrightarrow> filter (\<lambda>j. j \<in> uuid_str ` ids) (remove1 (uuid_str i) js) = filter (\<lambda>j. j \<in> uuid_str ` ids) js"
  by (simp_all add: filter_remove1 remove1_filter_not uuid_str_own)

lemma start_own:
  assumes "k \<in> ks" "i \<in> ids" "like u ids ks s t"
  shows "event_shows g lib (Start k now i) s = event_shows g lib (Start k now i) t"
    and "like u ids ks (start_event g lib k now i s) (start_event g lib k now i t)"
proof -
  have enabled: "uuid_str i \<in> set (sv_jobs s) \<longleftrightarrow> uuid_str i \<in> set (sv_jobs t)" "sv_runs s k = sv_runs t k"
    using own_job [OF assms(2), of s] own_job [OF assms(2), of t] likeD(7,8) [OF assms(3)] assms(1) by simp_all
  note same = execution_begin_alike [OF likeD(4) [OF assms(3)] assms(2), of g lib now]
  show "event_shows g lib (Start k now i) s = event_shows g lib (Start k now i) t"
    by (simp add: enabled same)
  have jobs: "filter (\<lambda>j. j \<in> uuid_str ` ids) (remove1 (uuid_str i) (sv_jobs s))
      = filter (\<lambda>j. j \<in> uuid_str ` ids) (remove1 (uuid_str i) (sv_jobs t))"
    using likeD(8) [OF assms(3)] unfolding own_jobs_remove(1) [OF assms(2)] own_jobs_def by simp
  have runs: "runs_apart u ids ks ((sv_runs s)(k \<mapsto> (cx, task, outcome)))"
    "runs_apart u ids ks ((sv_runs t)(k \<mapsto> (cx, task, outcome)))"
    if "execution_begin g lib now (st_db (sv_app t)) (uuid_str i) = (ExecutionFired cx task outcome, sent)"
    for cx task outcome sent
    using runs_apart_upd [OF _ _ _ that] likeD(1,2) [OF assms(3)] assms(1,2) same that
      runs_apart_upd [of u ids ks "sv_runs s" "st_db (sv_app s)" k i g lib now cx task outcome sent]
    by (simp_all add: apart_def)
  show "like u ids ks (start_event g lib k now i s) (start_event g lib k now i t)"
    using assms(3) enabled same jobs runs
    by (cases "execution_begin g lib now (st_db (sv_app t)) (uuid_str i)")
      (auto simp: start_event_def like_def apart_def own_jobs_def split: execution_phase.splits)
qed

lemma start_foreign:
  assumes "k \<notin> ks" "i \<notin> ids" "apart u ids ks s"
  shows "like u ids ks s (start_event g lib k now i s)"
proof -
  have runs: "runs_apart u ids ks ((sv_runs s)(k \<mapsto> (cx, task, outcome)))"
    if "execution_begin g lib now (st_db (sv_app s)) (uuid_str i) = (ExecutionFired cx task outcome, sent)"
    for cx task outcome sent
    using runs_apart_upd [OF _ _ _ that] assms by (simp add: apart_def)
  show ?thesis
    using like_refl [OF assms(3)] assms runs
    by (cases "execution_begin g lib now (st_db (sv_app s)) (uuid_str i)")
      (auto simp: start_event_def like_def apart_def own_jobs_def own_jobs_remove alike_states_refl
        split: execution_phase.splits)
qed

section \<open>Ends of runs\<close>

text \<open>The writes of the end of a run are about its task, and so is the schedule that it removes.\<close>

lemma execution_finish_alike:
  assumes "alike (t_user_id task) ids db db'" "t_id task \<in> ids" "i \<in> ids"
    and "execution_finish g i now cx task outcome db = r" "execution_finish g i now cx task outcome db' = r'"
  shows "er_result r = er_result r'" "er_calls r = er_calls r'" "alike (t_user_id task) ids (er_db r) (er_db r')"
proof -
  have commit: "rel_sum (=) (alike (t_user_id task) ids) (apply_writes cx now ws db) (apply_writes cx now ws db')"
    if "list_all (within (t_user_id task) ids) ws" for ws
    by (rule writes_alike [OF assms(1) that])
  let ?row = "record_execution i now (t_user_id task) (t_id task) SCHEDULED (t_webhook_url task)
    (wo_success outcome) (wo_http_status outcome) (wo_error_message outcome)"
  let ?ws = "?row # (if wo_success outcome \<and> t_trigger_type task = trigger_type_value ONCE
    then [UpdateTask (t_id task) False None] else [])"
  have "rel_sum (=) (alike (t_user_id task) ids) (apply_writes cx now ?ws db) (apply_writes cx now ?ws db')"
    by (rule commit) (use assms(2,3) in simp)
  then have "er_result r = er_result r' \<and> er_calls r = er_calls r' \<and> alike (t_user_id task) ids (er_db r) (er_db r')"
    using assms(1,4,5)
    by (cases "wo_success outcome"; cases "apply_writes cx now ?ws db"; cases "apply_writes cx now ?ws db'")
      (auto simp: execution_finish_def Let_def)
  then show "er_result r = er_result r'" "er_calls r = er_calls r'" "alike (t_user_id task) ids (er_db r) (er_db r')"
    by blast+
qed

lemma execution_finish_outside:
  assumes "t_user_id task \<noteq> u" "t_id task \<notin> ids" "i \<notin> ids" "reserved u ids db"
    and "execution_finish g i now cx task outcome db = r"
  shows "alike u ids db (er_db r)" "er_calls r = [] \<or> er_calls r = [RemoveSchedule (uuid_str (t_id task))]"
proof -
  have written: "alike u ids db db'" if "apply_writes cx now ws db = Inr db'" "list_all (outside u ids) ws" for ws db'
    by (rule writes_outside [OF that(2,1) assms(4)])
  show "alike u ids db (er_db r)"
    using assms alike_refl [OF assms(4)]
    by (auto simp: execution_finish_def Let_def intro: written split: sum.splits if_splits)
  show "er_calls r = [] \<or> er_calls r = [RemoveSchedule (uuid_str (t_id task))]"
    using assms(5) by (auto simp: execution_finish_def Let_def split: sum.splits if_splits)
qed

lemma apply_scheds_alike:
  "schedules_alike ids m m' \<Longrightarrow> schedules_alike ids (apply_scheds calls m) (apply_scheds calls m')"
proof (induction calls arbitrary: m m')
  case (Cons c calls)
  have "schedules_alike ids (apply_sched c m) (apply_sched c m')"
    using Cons.prems by (cases c) (auto simp: schedules_alike_def)
  then show ?case using Cons.IH by (simp add: apply_scheds_def)
qed (simp add: apply_scheds_def)

lemma finish_own:
  fixes s t :: "'t service"
  assumes "k \<in> ks" "i \<in> ids" "like u ids ks s t"
  shows "event_shows g lib (Finish k i now) s = event_shows g lib (Finish k i now) t"
    and "like u ids ks (finish_event g k i now s) (finish_event g k i now t)"
proof -
  have same: "sv_runs s k = sv_runs t k" using likeD(7) [OF assms(3,1)] .
  have "event_shows g lib (Finish k i now) s = event_shows g lib (Finish k i now) t
    \<and> like u ids ks (finish_event g k i now s) (finish_event g k i now t)"
  proof (cases "sv_runs t k")
    case None
    then show ?thesis using same assms(3) by (simp add: finish_event_def)
  next
    case (Some run)
    obtain cx task outcome where run: "run = (cx, task, outcome)" by (cases run)
    have task: "t_id task \<in> ids" "t_user_id task = u"
      using likeD(2) [OF assms(3)] Some run assms(1) by (auto simp: apart_def runs_apart_def)
    have db: "alike (t_user_id task) ids (st_db (sv_app s)) (st_db (sv_app t))"
      using likeD(4) [OF assms(3)] task(2) by simp
    let ?r = "\<lambda>s. execution_finish g i now cx task outcome (st_db (sv_app s)) :: 't execution_result"
    note ends = execution_finish_alike [OF db task(1) assms(2), of g now cx outcome "?r s" "?r t", OF refl refl]
    have keyed: "schedules_keyed (apply_scheds (er_calls (?r s)) (st_schedules (sv_app s)))"
      "schedules_keyed (apply_scheds (er_calls (?r t)) (st_schedules (sv_app t)))"
      using likeD(1,2) [OF assms(3)] execution_finish_keyed [OF refl] by (auto simp: apart_def)
    have "runs_apart u ids ks ((sv_runs s)(k := None))" "runs_apart u ids ks ((sv_runs t)(k := None))"
      using likeD(1,2) [OF assms(3)] by (auto simp: apart_def intro!: runs_apart_del)
    then show ?thesis
      using Some run same assms(3) ends keyed task(2) alikeD(3,4) [OF ends(3)]
        apply_scheds_alike [OF likeD(5) [OF assms(3)], of "er_calls (?r t)"]
      by (simp add: finish_event_def Let_def like_def apart_def alike_states_def own_jobs_def)
  qed
  then show "event_shows g lib (Finish k i now) s = event_shows g lib (Finish k i now) t"
    "like u ids ks (finish_event g k i now s) (finish_event g k i now t)" by blast+
qed

lemma finish_foreign:
  fixes s :: "'t service"
  assumes "k \<notin> ks" "i \<notin> ids" "apart u ids ks s"
  shows "like u ids ks s (finish_event g k i now s)"
proof (cases "sv_runs s k")
  case None
  then show ?thesis using like_refl [OF assms(3)] by (simp add: finish_event_def)
next
  case (Some run)
  obtain cx task outcome where run: "run = (cx, task, outcome)" by (cases run)
  have task: "t_id task \<notin> ids" "t_user_id task \<noteq> u"
    using assms Some run by (auto simp: apart_def runs_apart_def)
  have res: "reserved u ids (st_db (sv_app s))" using assms(3) by (simp add: apart_def)
  let ?r = "execution_finish g i now cx task outcome (st_db (sv_app s)) :: 't execution_result"
  note ends = execution_finish_outside [OF task(2,1) assms(2) res, of g now cx outcome ?r, OF refl]
  have keyed: "schedules_keyed (apply_scheds (er_calls ?r) (st_schedules (sv_app s)))"
    using assms(3) execution_finish_keyed [OF refl] by (auto simp: apart_def)
  have "schedules_alike ids (st_schedules (sv_app s)) (apply_scheds (er_calls ?r) (st_schedules (sv_app s)))"
    using ends(2) task(1) by (auto simp: apply_scheds_def schedules_alike_def uuid_str_inject)
  moreover have "runs_apart u ids ks ((sv_runs s)(k := None))"
    using assms(3) by (auto simp: apart_def intro!: runs_apart_del)
  ultimately show ?thesis
    using Some run assms(1,3) ends(1) keyed alikeD(4) [OF ends(1)]
    by (auto simp: finish_event_def Let_def like_def apart_def alike_states_def own_jobs_def)
qed

section \<open>Noninterference\<close>

lemma own_event_alike:
  assumes "event_apart u ids ks e" "own_event u ids ks e" "like u ids ks s t"
  shows "event_shows g lib e s = event_shows g lib e t"
    and "like u ids ks (event_step g lib aps e s) (event_step g lib aps e t)"
proof -
  have "event_shows g lib e s = event_shows g lib e t
    \<and> like u ids ks (event_step g lib aps e s) (event_step g lib aps e t)"
  proof (cases e)
    case (Handle k env http request)
    have "from_user u (env, http, request)" using assms(2) by (simp only: Handle own_event.simps)
    then show ?thesis
      using handle_own [OF assms(1) [unfolded Handle] _ assms(3)] by (simp only: Handle event_step.simps)
  next
    case (Act k)
    then show ?thesis using act_own [OF _ assms(3)] assms(2) by simp
  next
    case (Due i)
    then show ?thesis using due_own [OF _ assms(3)] assms(2) by simp
  next
    case (Start k now i)
    then show ?thesis
      using start_own [OF _ _ assms(3), of k i] assms(1,2) by (simp del: event_shows.simps)
  next
    case (Finish k i now)
    then show ?thesis
      using finish_own [OF _ _ assms(3), of k i] assms(1,2) by (simp del: event_shows.simps)
  qed
  then show "event_shows g lib e s = event_shows g lib e t"
    "like u ids ks (event_step g lib aps e s) (event_step g lib aps e t)" by blast+
qed

lemma foreign_event_alike:
  assumes "event_apart u ids ks e" "\<not> own_event u ids ks e" "like u ids ks s s"
  shows "like u ids ks s (event_step g lib aps e s)"
proof -
  note s = likeD(1) [OF assms(3)]
  show ?thesis
  proof (cases e)
    case (Handle k env http request)
    then show ?thesis using handle_foreign [OF assms(1) [unfolded Handle] _ s] assms(2) by (simp del: from_user.simps)
  qed (use assms(1,2) act_foreign [OF _ s] due_foreign [OF _ s] start_foreign [OF _ _ s] finish_foreign [OF _ _ s]
      in simp_all)
qed

interpretation events: unwinding "event_step g lib aps" "event_shows g lib" "own_event u ids ks"
    "event_apart u ids ks" "like u ids ks"
  for g lib aps u ids ks
  by unfold_locales (blast intro: like_sym like_trans own_event_alike foreign_event_alike)+

text \<open>
  (C3) No user learns anything of the others, whatever overlaps. The service runs through any
  sequence of events: handlers of requests of any users, authenticated or not, their commits and
  background tasks, due schedules, starts and ends of jobs, in any order. A user sees the outcome of
  the own handlers, with answers down to the text of an error, of the own commits and background
  tasks, of the own jobs, and every webhook that is sent for the own tasks. All of it is what it
  would be if everything that is not the user's were left out: the requests of the others, their
  schedules and their jobs. This covers the totals and pages of the lists, failing commits, and the
  jobs, whose sessions see the rows of all users. What is asked of the ids is that \<^verbatim>\<open>uuid4()\<close> does
  not give two users the same; tied rows are read in an order that depends on the rows alone.
\<close>

theorem service_noninterference:
  assumes "apart u ids ks s" "list_all (event_apart u ids ks) es"
  shows "observed (event_step g lib aps) (event_shows g lib) (own_event u ids ks) es s
    = observed (event_step g lib aps) (event_shows g lib) (own_event u ids ks) (filter (own_event u ids ks) es) s"
  by (rule events.others_removed [OF assms(2) like_refl [OF assms(1)]])

text \<open>
  Two users' requests and jobs, entangled: the first user's task is due and its job starts while the
  other deletes a task, and ends after a request of the first user on the same task was handled.
\<close>

definition shared_service :: "demo_trigger service" where
  "shared_service = initial_service\<lparr>sv_app :=
     \<lparr>st_db = \<lparr>db_tasks = [demo_task, foreign_task], db_history = []\<rparr>,
      st_schedules = [uuid_str 1 \<mapsto> (hourly, [uuid_str 1]), uuid_str 2 \<mapsto> (hourly, [uuid_str 2])]\<rparr>\<rparr>"

definition entangled_events :: "demo_trigger event list" where
  "entangled_events =
     [Due 1, Handle 1 other_app demo_http (DeleteTaskRequest 2), Due 2, Start 2 frozen_time 1, Start 3 frozen_time 2,
      Act 1, Handle 0 (demo_app True) demo_http (DeactivateTaskRequest 1), Act 1, Finish 3 11 frozen_time,
      Finish 2 12 frozen_time, Act 0, Act 0]"

lemma shared_apart: "apart ''user-1'' {1, 7, 8, 12} {0, 2} shared_service"
  by (auto simp: apart_def shared_service_def initial_service_def reserved_def schedules_keyed_def
      flights_apart_def runs_apart_def)

lemma service_noninterference_witness:
  "observed (event_step (demo_globals True True 200) demo_jwt demo_aps) (event_shows (demo_globals True True 200) demo_jwt)
     (own_event ''user-1'' {1, 7, 8, 12} {0, 2}) entangled_events shared_service
   = observed (event_step (demo_globals True True 200) demo_jwt demo_aps) (event_shows (demo_globals True True 200) demo_jwt)
     (own_event ''user-1'' {1, 7, 8, 12} {0, 2})
     [Due 1, Start 2 frozen_time 1, Handle 0 (demo_app True) demo_http (DeactivateTaskRequest 1),
      Finish 2 12 frozen_time, Act 0, Act 0] shared_service"
proof -
  have "list_all (event_apart ''user-1'' {1, 7, 8, 12} {0, 2}) entangled_events"
    by (simp add: entangled_events_def del: from_user.simps)
  then show ?thesis
    using service_noninterference [OF shared_apart, of entangled_events "demo_globals True True 200" demo_jwt demo_aps]
    by (simp add: entangled_events_def del: from_user.simps observed.simps event_step.simps event_shows.simps)
qed

end
