(* ===== verification/Task_Life.thy ===== *)
theory Task_Life
  imports Interleaving_Races Interleaved_Confidentiality
begin

text \<open>
  The life of a one-time task, from the request that creates it to the end of its run, through every
  component: the request is parsed and handled, committed and registered, the schedule is due, the
  job loads the task and calls the webhook, and the end of the run writes to the database as it is
  by then. First with nothing in between, then among any events of other users.
\<close>

section \<open>The events of a creation\<close>

definition creation_events :: "nat \<Rightarrow> 't app_env \<Rightarrow> http_request \<Rightarrow> api_request \<Rightarrow> 't event list" where
  "creation_events k env http request = [Handle k env http request, Act k, Act k]"

text \<open>A handler that answers with one background task: its three events, in either order.\<close>

lemma creation_run:
  assumes "sv_flights s k = None" "handled env http request (st_db (sv_app s)) = Some (user, out)"
    and "ho_result out = Inr answer" "ho_db out = st_db (sv_app s)" "ho_background out = [b]"
    and "apply_writes (request_session env user) (pe_clock (ap_parse env) 0) (ho_pending out) (st_db (sv_app s)) = Inr db'"
    and "run_background env b (st_schedules (sv_app s)) = Inr m"
  shows "fold (event_step g lib aps) (creation_events k env http request) s
    = s\<lparr>sv_app := \<lparr>st_db = db', st_schedules = m\<rparr>\<rparr>"
proof -
  have flights: "(sv_flights s)(k := None) = sv_flights s" using assms(1) by (simp add: fun_upd_idem)
  show ?thesis
    using assms flights
    by (cases "ap_background_first env"; cases s; cases "sv_app s")
      (simp_all add: creation_events_def handle_event_def act_event_def request_actions_def some_flight_def Let_def)
qed

section \<open>From the creation to the end of the run\<close>

lemma observed_all: "list_all own es \<Longrightarrow> observed step out own es s = observed step out (\<lambda>_. True) es s"
  by (induction es arbitrary: s) simp_all

definition life_events ::
  "nat \<Rightarrow> 't app_env \<Rightarrow> http_request \<Rightarrow> api_request \<Rightarrow> nat \<Rightarrow> datetime \<Rightarrow> uuid \<Rightarrow> datetime \<Rightarrow> 't event list" where
  "life_events k env http request r now h later =
     creation_events k env http request
     @ [Due (fst (ap_ids env)), Start r now (fst (ap_ids env)), Finish r h later]"

lemma due_run:
  assumes "st_schedules (sv_app s) (uuid_str i) = Some (trigger, [uuid_str i])"
    and "trigger_next aps trigger = Inr (Some d, trigger')"
  shows "due_event aps i s = s\<lparr>sv_app := (sv_app s)\<lparr>st_schedules :=
      (st_schedules (sv_app s))(uuid_str i \<mapsto> (trigger', [uuid_str i]))\<rparr>, sv_jobs := uuid_str i # sv_jobs s\<rparr>"
  using assms by (simp add: due_event_def)

lemma start_run:
  assumes "g_session_factory g = Some (new_session bypass returning)" "sv_runs s r = None" "sv_jobs s = uuid_str i # jobs"
    and "db_ok (st_db (sv_app s))" "t \<in> set (db_tasks (st_db (sv_app s)))" "t_id t = i" "t_is_active t"
    and "fire_task_webhook g lib now t = (Inr x, sent)"
  shows "start_event g lib r now i s
    = s\<lparr>sv_jobs := jobs, sv_runs := (sv_runs s)(r \<mapsto> (set_scheduler_rls (new_session bypass returning), t, x))\<rparr>"
  using assms load_task_found [OF assms(4,5)] by (simp add: start_event_def execution_begin_def)

lemma finish_run:
  fixes s :: "'t service"
  assumes "sv_runs s r = Some (set_scheduler_rls (new_session bypass returning), t, x)"
    and "bypass \<or> \<not> returning" "int4_ok (wo_http_status x)" "h \<notin> h_id ` set (db_history (st_db (sv_app s)))"
    and "wo_success x" "wo_http_status x \<noteq> None" "t_trigger_type t = ''once''" "g_scheduler g"
    and "db_tasks (st_db (sv_app s)) = ts @ [t]" "t_id t \<notin> t_id ` set ts"
  shows "\<exists>row. finish_event g r h later s
      = s\<lparr>sv_app := \<lparr>st_db = \<lparr>db_tasks = ts @ [updated_task later False None t],
                            db_history = db_history (st_db (sv_app s)) @ [row]\<rparr>,
                   st_schedules = (st_schedules (sv_app s))(uuid_str (t_id t) := None)\<rparr>,
          sv_runs := (sv_runs s)(r := None)\<rparr>
    \<and> h_user_id row = t_user_id t \<and> h_task_id row = t_id t \<and> h_event_type row = ''execution''
    \<and> h_success row = Some True \<and> h_http_status row = wo_http_status x"
proof -
  let ?cx = "set_scheduler_rls (new_session bypass returning)" and ?db = "st_db (sv_app s)"
  have allowed: "task_allowed ?cx u" for u
    by (simp add: task_allowed_def set_scheduler_rls_def scheduled_tasks_scheduler_def)
  obtain row where row: "apply_write ?cx later (record_execution h later (t_user_id t) (t_id t) SCHEDULED (t_webhook_url t)
        (wo_success x) (wo_http_status x) (wo_error_message x)) ?db = Inr (?db\<lparr>db_history := db_history ?db @ [row]\<rparr>)"
    and facts: "h_user_id row = t_user_id t" "h_task_id row = t_id t" "h_event_type row = ''execution''"
      "h_success row = Some (wo_success x)" "h_http_status row = wo_http_status x"
    using execution_inserted [OF assms(2,3,4), of later "t_user_id t" "t_id t" "t_webhook_url t"] assms(6) by blast
  have "map (\<lambda>y. if t_id y = t_id t then updated_task later False None y else y) ts = ts"
    by (rule map_idI) (use assms(10) in \<open>metis imageI\<close>)
  then show ?thesis
    using assms facts execution_finish_cases [OF row allowed, of g, where 'a = 't]
    by (intro exI [of _ row]) (cases ?db, simp add: finish_event_def apply_scheds_def)
qed

lemma created_service:
  assumes "authenticate (ap_auth env) (pe_clock (ap_parse env) 0) http = Inr user" "db_ok (st_db (sv_app s))"
    and "sv_flights s k = None"
    and "fst (ap_ids env) \<notin> t_id ` set (db_tasks (st_db (sv_app s)))"
    and "snd (ap_ids env) \<notin> h_id ` set (db_history (st_db (sv_app s)))"
    and "validate_trigger (pe_runtime (ap_parse env)) body = Inr spec"
    and "resolve_or_422 (ap_parse env) (ap_llm env) spec = Inr (sch, calls)"
    and "schedulable (pe_runtime (ap_parse env)) sch" "fits_history sch"
    and "compute_next_run_at (pe_aps (ap_parse env)) (pe_runtime (ap_parse env)) (pe_clock (ap_parse env) calls) sch
           = Inr next_run_at"
    and "build_trigger (pe_aps (ap_parse env)) (pe_runtime (ap_parse env)) (pe_clock (ap_parse env) 0) (restored sch)
           = Inr trigger"
  shows "\<exists>task created.
      fold (event_step g lib aps) (creation_events k env http (CreateTaskRequest url parameters body)) s
        = s\<lparr>sv_app := \<lparr>st_db = \<lparr>db_tasks = db_tasks (st_db (sv_app s)) @ [task],
                               db_history = db_history (st_db (sv_app s)) @ [created]\<rparr>,
                      st_schedules = (st_schedules (sv_app s))(uuid_str (fst (ap_ids env))
                        \<mapsto> (trigger, [uuid_str (fst (ap_ids env))]))\<rparr>\<rparr>
    \<and> db_ok \<lparr>db_tasks = db_tasks (st_db (sv_app s)) @ [task], db_history = db_history (st_db (sv_app s)) @ [created]\<rparr>
    \<and> t_id task = fst (ap_ids env) \<and> t_is_active task \<and> t_user_id task = cu_user_id user \<and> t_webhook_url task = url
    \<and> stores_spec task sch \<and> h_id created = snd (ap_ids env) \<and> h_user_id created = cu_user_id user
    \<and> h_event_type created = ''task_created'' \<and> h_task_id created = t_id task"
proof -
  let ?i = "fst (ap_ids env)" and ?db = "st_db (sv_app s)" and ?now = "pe_clock (ap_parse env) 0"
  let ?request = "CreateTaskRequest url parameters body" and ?cx = "request_session env user"
  obtain new row task answer where run: "run_handler env ?cx user ?request ?db
        = Some \<lparr>ho_result = Inr answer, ho_db = ?db, ho_pending = [InsertTask new, InsertHistory row],
                ho_background = [RegisterSchedule task], ho_sent = []\<rparr>"
    and commit: "apply_writes ?cx ?now [InsertTask new, InsertHistory row] ?db
        = Inr \<lparr>db_tasks = db_tasks ?db @ [task], db_history = db_history ?db @ [stored_history ?now row]\<rparr>"
    and background: "\<forall>m. run_background env (RegisterSchedule task) m = Inr (m(uuid_str ?i \<mapsto> (trigger, [uuid_str ?i])))"
    and task: "t_id task = ?i" "t_is_active task" "t_user_id task = cu_user_id user" "t_webhook_url task = url"
      "stores_spec task sch" "h_event_type row = event_type_value TASK_CREATED" "h_task_id row = t_id task"
      "h_id row = snd (ap_ids env)" "h_user_id row = cu_user_id user"
    using create_request_parts [OF assms(1,4-11), of url parameters] by metis
  let ?s1 = "s\<lparr>sv_app := \<lparr>st_db = \<lparr>db_tasks = db_tasks ?db @ [task], db_history = db_history ?db @ [stored_history ?now row]\<rparr>,
    st_schedules = (st_schedules (sv_app s))(uuid_str ?i \<mapsto> (trigger, [uuid_str ?i]))\<rparr>\<rparr>"
  have handled: "handled env http ?request ?db
      = Some (user, \<lparr>ho_result = Inr answer, ho_db = ?db, ho_pending = [InsertTask new, InsertHistory row],
                ho_background = [RegisterSchedule task], ho_sent = []\<rparr>)"
    using assms(1) run by (simp add: handled_def)
  have "fold (event_step g lib aps) (creation_events k env http ?request) s = ?s1"
    by (rule creation_run [OF assms(3) handled, where b = "RegisterSchedule task"]) (simp_all add: commit background)
  then show ?thesis
    using task apply_writes_db_ok [OF commit assms(2)]
    by (intro exI [of _ task] exI [of _ "stored_history ?now row"]) (simp add: stored_history_def)
qed

lemma once_run:
  fixes s :: "'t service"
  assumes "st_schedules (sv_app s) (uuid_str (t_id task)) = Some (trigger, [uuid_str (t_id task)])"
    and "db_ok (st_db (sv_app s))" "db_tasks (st_db (sv_app s)) = ts @ [task]" "t_is_active task"
    and "t_trigger_type task = ''once''" "sv_runs s r = None"
    and "trigger_next aps trigger = Inr (Some d, trigger')"
    and "g_session_factory g = Some (new_session bypass returning)" "bypass \<or> \<not> returning" "g_scheduler g"
    and "fire_task_webhook g lib now task = (Inr x, sent)" "wo_success x" "int4_ok (wo_http_status x)"
    and "h \<notin> h_id ` set (db_history (st_db (sv_app s)))"
  shows "\<exists>executed.
      fold (event_step g lib aps) [Due (t_id task), Start r now (t_id task), Finish r h later] s
        = s\<lparr>sv_app := \<lparr>st_db = \<lparr>db_tasks = ts @ [updated_task later False None task],
                               db_history = db_history (st_db (sv_app s)) @ [executed]\<rparr>,
                      st_schedules = (st_schedules (sv_app s))(uuid_str (t_id task) := None)\<rparr>\<rparr>
    \<and> h_user_id executed = t_user_id task \<and> h_event_type executed = ''execution'' \<and> h_task_id executed = t_id task
    \<and> h_success executed = Some True
    \<and> ShownWebhooks sent \<in> set (observed (event_step g lib aps) (event_shows g lib) (\<lambda>_. True)
        [Due (t_id task), Start r now (t_id task), Finish r h later] s)"
proof -
  let ?i = "t_id task" and ?db = "st_db (sv_app s)"
  let ?s2 = "s\<lparr>sv_app := (sv_app s)\<lparr>st_schedules := (st_schedules (sv_app s))(uuid_str ?i \<mapsto> (trigger', [uuid_str ?i]))\<rparr>,
    sv_jobs := uuid_str ?i # sv_jobs s\<rparr>"
  let ?cx = "set_scheduler_rls (new_session bypass returning)"
  let ?s3 = "?s2\<lparr>sv_jobs := sv_jobs s, sv_runs := (sv_runs s)(r \<mapsto> (?cx, task, x))\<rparr>"
  have s2: "due_event aps ?i s = ?s2" by (rule due_run [OF assms(1,7)])
  have s3: "start_event g lib r now ?i ?s2 = ?s3"
    using start_run [OF assms(8) _ _ _ _ refl assms(4,11), of ?s2 r "sv_jobs s"] assms(2,3,6) by simp
  have fresh: "h \<notin> h_id ` set (db_history (st_db (sv_app ?s3)))" using assms(14) by simp
  have others: "?i \<notin> t_id ` set ts" using assms(2,3) by (simp add: db_ok_def)
  obtain executed where finish: "finish_event g r h later ?s3
      = ?s3\<lparr>sv_app := \<lparr>st_db = \<lparr>db_tasks = ts @ [updated_task later False None task],
                              db_history = db_history (st_db (sv_app ?s3)) @ [executed]\<rparr>,
                     st_schedules = (st_schedules (sv_app ?s3))(uuid_str ?i := None)\<rparr>,
            sv_runs := (sv_runs ?s3)(r := None)\<rparr>"
    and executed: "h_user_id executed = t_user_id task" "h_event_type executed = ''execution''"
      "h_task_id executed = ?i" "h_success executed = Some True"
    using finish_run [OF _ assms(9,13) fresh assms(12) _ assms(5,10) _ others, of r later]
      fire_task_webhook_status [OF assms(11,12)] assms(3) by auto
  have "(sv_runs s)(r := None) = sv_runs s" using assms(6) by (simp add: fun_upd_idem)
  then have "fold (event_step g lib aps) [Due ?i, Start r now ?i, Finish r h later] s
      = s\<lparr>sv_app := \<lparr>st_db = \<lparr>db_tasks = ts @ [updated_task later False None task],
                            db_history = db_history ?db @ [executed]\<rparr>,
                   st_schedules = (st_schedules (sv_app s))(uuid_str ?i := None)\<rparr>\<rparr>"
    using s2 s3 finish by simp
  moreover have "event_shows g lib (Start r now ?i) ?s2 = ShownWebhooks sent"
    using assms(2-4,6,8,11) load_task_found [of ?db task bypass returning] by (simp add: execution_begin_def)
  ultimately show ?thesis using executed s2 by (intro exI [of _ executed]) simp
qed

lemma life_run:
  fixes s :: "'t service"
  assumes "authenticate (ap_auth env) (pe_clock (ap_parse env) 0) http = Inr user" "db_ok (st_db (sv_app s))"
    and "sv_flights s k = None" "sv_runs s r = None"
    and "fst (ap_ids env) \<notin> t_id ` set (db_tasks (st_db (sv_app s)))"
    and "snd (ap_ids env) \<notin> h_id ` set (db_history (st_db (sv_app s)))"
    and "h \<notin> h_id ` set (db_history (st_db (sv_app s)))" "h \<noteq> snd (ap_ids env)"
    and "validate_trigger (pe_runtime (ap_parse env)) body = Inr spec"
    and "resolve_or_422 (ap_parse env) (ap_llm env) spec = Inr (OnceTrigger run_at, calls)"
    and "schedulable (pe_runtime (ap_parse env)) (OnceTrigger run_at)"
    and "compute_next_run_at (pe_aps (ap_parse env)) (pe_runtime (ap_parse env)) (pe_clock (ap_parse env) calls)
           (OnceTrigger run_at) = Inr next_run_at"
    and "build_trigger (pe_aps (ap_parse env)) (pe_runtime (ap_parse env)) (pe_clock (ap_parse env) 0)
           (restored (OnceTrigger run_at)) = Inr trigger"
    and "trigger_next aps trigger = Inr (Some d, trigger')"
    and "g_session_factory g = Some (new_session bypass returning)" "bypass \<or> \<not> returning" "g_scheduler g"
    and "\<forall>task. t_webhook_url task = url \<and> t_user_id task = cu_user_id user
           \<longrightarrow> fst (fire_task_webhook g lib now task) = Inr x"
    and "wo_success x" "int4_ok (wo_http_status x)"
  shows "\<exists>task created executed.
      fold (event_step g lib aps) (life_events k env http (CreateTaskRequest url parameters body) r now h later) s
        = s\<lparr>sv_app := \<lparr>st_db = \<lparr>db_tasks = db_tasks (st_db (sv_app s)) @ [updated_task later False None task],
                               db_history = db_history (st_db (sv_app s)) @ [created, executed]\<rparr>,
                      st_schedules = (st_schedules (sv_app s))(uuid_str (fst (ap_ids env)) := None)\<rparr>\<rparr>
    \<and> t_id task = fst (ap_ids env) \<and> t_user_id task = cu_user_id user \<and> t_webhook_url task = url
    \<and> h_user_id created = cu_user_id user \<and> h_user_id executed = cu_user_id user
    \<and> h_event_type created = ''task_created'' \<and> h_task_id created = t_id task
    \<and> h_event_type executed = ''execution'' \<and> h_task_id executed = t_id task \<and> h_success executed = Some True
    \<and> (\<exists>q. ShownWebhooks [q] \<in> set (observed (event_step g lib aps) (event_shows g lib) (\<lambda>_. True)
          (life_events k env http (CreateTaskRequest url parameters body) r now h later) s) \<and> wq_url q = url)"
proof -
  let ?i = "fst (ap_ids env)" and ?db = "st_db (sv_app s)"
  let ?request = "CreateTaskRequest url parameters body"
  have fits: "fits_history (OnceTrigger run_at)" by (simp add: fits_history_def no_trigger_cols_def int4_ok_def)
  obtain task created where s1: "fold (event_step g lib aps) (creation_events k env http ?request) s
      = s\<lparr>sv_app := \<lparr>st_db = \<lparr>db_tasks = db_tasks ?db @ [task], db_history = db_history ?db @ [created]\<rparr>,
          st_schedules = (st_schedules (sv_app s))(uuid_str ?i \<mapsto> (trigger, [uuid_str ?i]))\<rparr>\<rparr>"
    and ok: "db_ok \<lparr>db_tasks = db_tasks ?db @ [task], db_history = db_history ?db @ [created]\<rparr>"
    and task: "t_id task = ?i" "t_is_active task" "t_user_id task = cu_user_id user" "t_webhook_url task = url"
      "stores_spec task (OnceTrigger run_at)" "h_id created = snd (ap_ids env)" "h_user_id created = cu_user_id user"
      "h_event_type created = ''task_created''" "h_task_id created = t_id task"
    using created_service [OF assms(1-3,5,6,9-11) fits assms(12,13), of g lib aps url parameters] by metis
  let ?s1 = "s\<lparr>sv_app := \<lparr>st_db = \<lparr>db_tasks = db_tasks ?db @ [task], db_history = db_history ?db @ [created]\<rparr>,
    st_schedules = (st_schedules (sv_app s))(uuid_str ?i \<mapsto> (trigger, [uuid_str ?i]))\<rparr>\<rparr>"
  obtain sent where fire: "fire_task_webhook g lib now task = (Inr x, sent)"
    using assms(18) task(3,4) by (metis prod.collapse)
  have once: "t_trigger_type task = ''once''" using task(5) by (simp add: stores_spec_def)
  have fresh: "h \<notin> h_id ` set (db_history (st_db (sv_app ?s1)))" using assms(7,8) task(6) by auto
  obtain executed where run: "fold (event_step g lib aps) [Due ?i, Start r now ?i, Finish r h later] ?s1
      = ?s1\<lparr>sv_app := \<lparr>st_db = \<lparr>db_tasks = db_tasks ?db @ [updated_task later False None task],
                               db_history = db_history (st_db (sv_app ?s1)) @ [executed]\<rparr>,
                      st_schedules = (st_schedules (sv_app ?s1))(uuid_str ?i := None)\<rparr>\<rparr>"
    and executed: "h_user_id executed = t_user_id task" "h_event_type executed = ''execution''"
      "h_task_id executed = t_id task" "h_success executed = Some True"
    and shown: "ShownWebhooks sent \<in> set (observed (event_step g lib aps) (event_shows g lib) (\<lambda>_. True)
        [Due ?i, Start r now ?i, Finish r h later] ?s1)"
    using once_run [OF _ _ _ task(2) once _ assms(14-17) fire assms(19,20) fresh, of "db_tasks ?db" r later]
      ok assms(4) task(1) by auto
  obtain q where q: "sent = [q]" "wq_url q = url"
    using fire_task_webhook_Inr [OF fire] fire_task_webhook_url [OF fire] task(4) by fastforce
  show ?thesis
    unfolding life_events_def fold_append observed_append o_apply s1 run using task executed shown q
    by (intro exI [of _ task] exI [of _ created] exI [of _ executed]) auto
qed

section \<open>Among other users\<close>

text \<open>
  (C8) The life of a one-time task. A user asks for a task whose trigger is, or is parsed into, a
  moment; the handler answers, the request commits and registers the schedule in either order, the
  schedule becomes due, the job starts and its webhook succeeds, and the run ends. In between
  anything may happen that is not this user's: requests, due schedules and jobs of others, in any
  number and order. Then the user's tasks are those of before and the new one, which is inactive
  and has no next fire time; the user's history has grown by its creation and its execution; its
  schedule is gone; and its webhook was sent to the address of the request.
\<close>

theorem once_task_life:
  fixes s :: "'t service"
  assumes "authenticate (ap_auth env) (pe_clock (ap_parse env) 0) http = Inr user" "db_ok (st_db (sv_app s))"
    and "sv_flights s k = None" "sv_runs s r = None"
    and "fst (ap_ids env) \<notin> t_id ` set (db_tasks (st_db (sv_app s)))"
    and "snd (ap_ids env) \<notin> h_id ` set (db_history (st_db (sv_app s)))"
    and "h \<notin> h_id ` set (db_history (st_db (sv_app s)))" "h \<noteq> snd (ap_ids env)"
    and "validate_trigger (pe_runtime (ap_parse env)) body = Inr spec"
    and "resolve_or_422 (ap_parse env) (ap_llm env) spec = Inr (OnceTrigger run_at, calls)"
    and "schedulable (pe_runtime (ap_parse env)) (OnceTrigger run_at)"
    and "compute_next_run_at (pe_aps (ap_parse env)) (pe_runtime (ap_parse env)) (pe_clock (ap_parse env) calls)
           (OnceTrigger run_at) = Inr next_run_at"
    and "build_trigger (pe_aps (ap_parse env)) (pe_runtime (ap_parse env)) (pe_clock (ap_parse env) 0)
           (restored (OnceTrigger run_at)) = Inr trigger"
    and "trigger_next aps trigger = Inr (Some d, trigger')"
    and "g_session_factory g = Some (new_session bypass returning)" "bypass \<or> \<not> returning" "g_scheduler g"
    and "\<forall>task. t_webhook_url task = url \<and> t_user_id task = cu_user_id user
           \<longrightarrow> fst (fire_task_webhook g lib now task) = Inr x"
    and "wo_success x" "int4_ok (wo_http_status x)"
    and "apart (cu_user_id user) ids ks s" "list_all (event_apart (cu_user_id user) ids ks) es"
    and "filter (own_event (cu_user_id user) ids ks) es
           = life_events k env http (CreateTaskRequest url parameters body) r now h later"
    and "fold (event_step g lib aps) es s = s'" "fst (ap_ids env) \<in> ids"
  shows "\<exists>task created executed.
      filter (\<lambda>t. t_user_id t = cu_user_id user) (db_tasks (st_db (sv_app s')))
        = filter (\<lambda>t. t_user_id t = cu_user_id user) (db_tasks (st_db (sv_app s))) @ [task]
    \<and> t_id task = fst (ap_ids env) \<and> t_webhook_url task = url \<and> \<not> t_is_active task \<and> t_next_run_at task = None
    \<and> filter (\<lambda>h. h_user_id h = cu_user_id user) (db_history (st_db (sv_app s')))
        = filter (\<lambda>h. h_user_id h = cu_user_id user) (db_history (st_db (sv_app s))) @ [created, executed]
    \<and> h_event_type created = ''task_created'' \<and> h_task_id created = t_id task
    \<and> h_event_type executed = ''execution'' \<and> h_task_id executed = t_id task \<and> h_success executed = Some True
    \<and> st_schedules (sv_app s') (uuid_str (fst (ap_ids env))) = None
    \<and> (\<exists>q. ShownWebhooks [q] \<in> set (observed (event_step g lib aps) (event_shows g lib)
          (own_event (cu_user_id user) ids ks) es s) \<and> wq_url q = url)"
proof -
  let ?u = "cu_user_id user"
  let ?life = "life_events k env http (CreateTaskRequest url parameters body) r now h later"
  let ?t = "fold (event_step g lib aps) ?life s"
  obtain task created executed where life: "?t = s\<lparr>sv_app :=
        \<lparr>st_db = \<lparr>db_tasks = db_tasks (st_db (sv_app s)) @ [updated_task later False None task],
                 db_history = db_history (st_db (sv_app s)) @ [created, executed]\<rparr>,
         st_schedules = (st_schedules (sv_app s))(uuid_str (fst (ap_ids env)) := None)\<rparr>\<rparr>"
    and facts: "t_id task = fst (ap_ids env)" "t_user_id task = ?u" "t_webhook_url task = url"
      "h_user_id created = ?u" "h_user_id executed = ?u"
      "h_event_type created = ''task_created''" "h_task_id created = t_id task"
      "h_event_type executed = ''execution''" "h_task_id executed = t_id task" "h_success executed = Some True"
    and shown: "\<exists>q. ShownWebhooks [q] \<in> set (observed (event_step g lib aps) (event_shows g lib) (\<lambda>_. True) ?life s)
      \<and> wq_url q = url"
    using life_run [OF assms(1-20)] by blast
  have "like ?u ids ks s' ?t"
    using events.like_run [OF assms(22) like_refl [OF assms(21)], of g lib aps] assms(23,24) by simp
  note same = likeD(4,5) [OF this]
  have "observed (event_step g lib aps) (event_shows g lib) (own_event ?u ids ks) es s
      = observed (event_step g lib aps) (event_shows g lib) (own_event ?u ids ks) (filter (own_event ?u ids ks) es) s"
    by (rule events.others_removed [OF assms(22) like_refl [OF assms(21)]])
  also have "\<dots> = observed (event_step g lib aps) (event_shows g lib) (\<lambda>_. True) ?life s"
    unfolding assms(23) [symmetric] by (rule observed_all) (simp add: list_all_iff)
  finally have shown': "observed (event_step g lib aps) (event_shows g lib) (own_event ?u ids ks) es s
      = observed (event_step g lib aps) (event_shows g lib) (\<lambda>_. True) ?life s" .
  show ?thesis
    using alikeD(1,2) [OF same(1)] same(2) facts shown assms(25) unfolding life shown'
    by (intro exI [of _ "updated_task later False None task"] exI [of _ created] exI [of _ executed])
      (auto simp: schedules_alike_def updated_task_def)
qed

text \<open>While the other user's task runs and is deleted.\<close>

definition busy_events :: "demo_trigger event list" where
  "busy_events =
     [Due 2,
      Handle 0 (demo_app True) demo_http (CreateTaskRequest ''https://example.com/new'' [] (BodyOnce frozen_time)),
      Handle 1 other_app demo_http (DeleteTaskRequest 2), Act 0, Start 3 frozen_time 2, Act 1, Act 0, Act 1,
      Due 7, Finish 3 11 frozen_time, Start 2 frozen_time 7, Finish 2 12 frozen_time]"

lemma busy_apart: "list_all (event_apart ''user-1'' {1, 7, 8, 12} {0, 2}) busy_events"
  by (simp add: busy_events_def del: from_user.simps)

lemma busy_own: "filter (own_event ''user-1'' {1, 7, 8, 12} {0, 2}) busy_events
  = life_events 0 (demo_app True) demo_http (CreateTaskRequest ''https://example.com/new'' [] (BodyOnce frozen_time))
      2 frozen_time 12 frozen_time"
  by (simp add: busy_events_def life_events_def creation_events_def del: from_user.simps)

lemma shared_service_simps [simp]:
  "db_tasks (st_db (sv_app shared_service)) = [demo_task, foreign_task]"
  "db_history (st_db (sv_app shared_service)) = []" "sv_flights shared_service = Map.empty"
  "sv_runs shared_service = Map.empty"
  by (simp_all add: shared_service_def initial_service_def)

lemma once_task_life_witness:
  "\<exists>s' task created executed.
      fold (event_step (demo_globals True True 200) demo_jwt demo_aps) busy_events shared_service = s'
    \<and> filter (\<lambda>t. t_user_id t = ''user-1'') (db_tasks (st_db (sv_app s'))) = [demo_task, task]
    \<and> t_id task = 7 \<and> \<not> t_is_active task \<and> t_next_run_at task = None
    \<and> filter (\<lambda>h. h_user_id h = ''user-1'') (db_history (st_db (sv_app s'))) = [created, executed]
    \<and> h_event_type created = ''task_created'' \<and> h_event_type executed = ''execution''
    \<and> st_schedules (sv_app s') (uuid_str 7) = None"
proof -
  let ?g = "demo_globals True True 200" and ?url = "''https://example.com/new''"
  obtain n where n: "compute_next_run_at demo_aps demo_runtime frozen_time (OnceTrigger frozen_time) = Inr n"
    using demo_once(4) by blast
  let ?x = "\<lparr>wo_http_status = Some 200, wo_error_message = None, wo_success = True\<rparr>"
  have "fst (fire_task_webhook ?g demo_jwt frozen_time t) = Inr ?x" if "t_user_id t = cu_user_id demo_user" for t
    using demo_fire [of t True True 200] that by (auto simp: outcome_of_def is_success_status_def demo_user_def)
  then have fire: "\<forall>t. t_webhook_url t = ?url \<and> t_user_id t = cu_user_id demo_user
      \<longrightarrow> fst (fire_task_webhook ?g demo_jwt frozen_time t) = Inr ?x" by blast
  have ok: "db_ok (st_db (sv_app shared_service))" by (simp add: db_ok_def)
  have free: "sv_flights shared_service 0 = None" "sv_runs shared_service 2 = None"
    "fst (ap_ids (demo_app True)) \<notin> t_id ` set (db_tasks (st_db (sv_app shared_service)))"
    "snd (ap_ids (demo_app True)) \<notin> h_id ` set (db_history (st_db (sv_app shared_service)))"
    "12 \<notin> h_id ` set (db_history (st_db (sv_app shared_service)))" "12 \<noteq> snd (ap_ids (demo_app True))"
    by simp_all
  have trigger: "validate_trigger (pe_runtime (ap_parse (demo_app True))) (BodyOnce frozen_time)
      = Inr (Structured (OnceTrigger frozen_time))"
    "schedulable (pe_runtime (ap_parse (demo_app True))) (OnceTrigger frozen_time)"
    "compute_next_run_at (pe_aps (ap_parse (demo_app True))) (pe_runtime (ap_parse (demo_app True)))
       (pe_clock (ap_parse (demo_app True)) 0) (OnceTrigger frozen_time) = Inr n"
    "build_trigger (pe_aps (ap_parse (demo_app True))) (pe_runtime (ap_parse (demo_app True)))
       (pe_clock (ap_parse (demo_app True)) 0) (restored (OnceTrigger frozen_time))
       = Inr (DemoDate (reparsed (assume_utc frozen_time)) False)"
    using demo_once(1,2) n by (simp_all add: schedulable_def)
  have outcome: "wo_success ?x" "int4_ok (wo_http_status ?x)" "fst (ap_ids (demo_app True)) \<in> {1, 7, 8, 12}"
    by (simp_all add: int4_ok_def)
  have user: "cu_user_id demo_user = ''user-1''" by (simp add: demo_user_def)
  note life = once_task_life [OF demo_authenticated ok free trigger(1) demo_once(3) trigger(2-4) demo_once(5)
      demo_factory(1) disjI1 [OF TrueI] demo_factory(2) fire outcome(1,2), unfolded user,
      OF shared_apart busy_apart busy_own refl outcome(3)]
  show ?thesis using life by auto
qed

end
