(* ===== verification/Migrations.thy ===== *)
theory Migrations
  imports Executor
begin

text \<open>
  The migrations under \<^verbatim>\<open>alembic/versions/\<close> as operations on a database schema, the schema that the
  mapped classes of \<^verbatim>\<open>app/db/models/\<close> declare, and \<^verbatim>\<open>app/db/migrations.py\<close> with the choice of the
  address in \<^verbatim>\<open>alembic/env.py\<close>.
\<close>

section \<open>Schemas\<close>

datatype column_type =
    UuidType
  | StringType "nat option"
  | TextType
  | JsonbType
  | TimestamptzType
  | BooleanType
  | IntegerType

text \<open>A column: its name, its type, whether it is nullable, and its server default.\<close>

type_synonym column = "string \<times> column_type \<times> bool \<times> string option"

record table =
  tb_columns :: "column list"
  tb_primary_key :: "string list"
  tb_checks :: "string list"
  tb_row_security :: bool
  tb_force_row_security :: bool

text \<open>
  A policy: the command that it is for, and its \<^verbatim>\<open>USING\<close> and \<^verbatim>\<open>WITH CHECK\<close> clauses. The clauses of the
  migrations are \<^verbatim>\<open>user_id = current_setting('app.current_user_id', true)\<close> and
  \<^verbatim>\<open>current_setting('app.is_scheduler', true) = 'true'\<close>.
\<close>

datatype row_test = OwnRow | SchedulerSession

record policy =
  pl_command :: string
  pl_using :: "row_test option"
  pl_check :: "row_test option"

fun test_holds :: "row_test \<Rightarrow> rls_ctx \<Rightarrow> string \<Rightarrow> bool" where
  "test_holds OwnRow cx user_id \<longleftrightarrow> cx_current_user_id cx = Some user_id"
| "test_holds SchedulerSession cx user_id \<longleftrightarrow> cx_is_scheduler cx"

record schema =
  sm_tables :: "string \<Rightarrow> table option"
  sm_indexes :: "string \<Rightarrow> (string \<times> string list) option"
  sm_policies :: "string \<times> string \<Rightarrow> policy option"
  sm_functions :: "string set"
  sm_triggers :: "string \<times> string \<Rightarrow> string option"

definition empty_schema :: schema where
  "empty_schema =
     \<lparr>sm_tables = Map.empty, sm_indexes = Map.empty, sm_policies = Map.empty, sm_functions = {},
      sm_triggers = Map.empty\<rparr>"

text \<open>
  The operations that the migrations use. A policy and a trigger belong to a table (the second
  component of their key); a trigger is kept as its function, a check and a function as their names
  (the check is \<open>task_history_event_shape\<close> of \<open>Store\<close>). Tables and indexes share the names of
  relations.
\<close>

datatype schema_op =
    CreateTable string "column list" "string list" "string list"
  | DropTable string
  | CreateIndex string string "string list"
  | DropIndex string
  | EnableRowSecurity string
  | ForceRowSecurity string
  | CreatePolicy string string policy
  | DropPolicyIfExists string string
  | CreateOrReplaceFunction string
  | DropFunctionIfExists string
  | CreateTrigger string string string
  | DropTriggerIfExists string string

definition on_table :: "string \<Rightarrow> (table \<Rightarrow> table) \<Rightarrow> schema \<Rightarrow> schema result" where
  "on_table t f s =
     (case sm_tables s t of
        None \<Rightarrow> Inl (DatabaseError ''relation does not exist'')
      | Some tb \<Rightarrow> Inr (s\<lparr>sm_tables := (sm_tables s)(t \<mapsto> f tb)\<rparr>))"

text \<open>Dropping a table drops what belongs to it.\<close>

definition drop_owned :: "string \<Rightarrow> (string \<times> string \<Rightarrow> 'a option) \<Rightarrow> string \<times> string \<Rightarrow> 'a option" where
  "drop_owned t m = (\<lambda>k. if snd k = t then None else m k)"

definition drop_indexes ::
  "string \<Rightarrow> (string \<Rightarrow> (string \<times> string list) option) \<Rightarrow> string \<Rightarrow> (string \<times> string list) option" where
  "drop_indexes t m = (\<lambda>i. case m i of None \<Rightarrow> None | Some x \<Rightarrow> if fst x = t then None else Some x)"

fun apply_op :: "schema_op \<Rightarrow> schema \<Rightarrow> schema result" where
  "apply_op (CreateTable t cols pk checks) s =
     (if sm_tables s t \<noteq> None \<or> sm_indexes s t \<noteq> None then Inl (DatabaseError ''relation already exists'')
      else Inr (s\<lparr>sm_tables := (sm_tables s)(t \<mapsto>
             \<lparr>tb_columns = cols, tb_primary_key = pk, tb_checks = checks,
              tb_row_security = False, tb_force_row_security = False\<rparr>)\<rparr>))"
| "apply_op (DropTable t) s =
     (if sm_tables s t = None then Inl (DatabaseError ''table does not exist'')
      else Inr (s\<lparr>sm_tables := (sm_tables s)(t := None),
                 sm_indexes := drop_indexes t (sm_indexes s),
                 sm_policies := drop_owned t (sm_policies s),
                 sm_triggers := drop_owned t (sm_triggers s)\<rparr>))"
| "apply_op (CreateIndex i t cols) s =
     (if sm_tables s t = None then Inl (DatabaseError ''relation does not exist'')
      else if sm_indexes s i \<noteq> None \<or> sm_tables s i \<noteq> None then Inl (DatabaseError ''relation already exists'')
      else Inr (s\<lparr>sm_indexes := (sm_indexes s)(i \<mapsto> (t, cols))\<rparr>))"
| "apply_op (DropIndex i) s =
     (if sm_indexes s i = None then Inl (DatabaseError ''index does not exist'')
      else Inr (s\<lparr>sm_indexes := (sm_indexes s)(i := None)\<rparr>))"
| "apply_op (EnableRowSecurity t) s = on_table t (\<lambda>tb. tb\<lparr>tb_row_security := True\<rparr>) s"
| "apply_op (ForceRowSecurity t) s = on_table t (\<lambda>tb. tb\<lparr>tb_force_row_security := True\<rparr>) s"
| "apply_op (CreatePolicy p t pl) s =
     (if sm_tables s t = None then Inl (DatabaseError ''relation does not exist'')
      else if sm_policies s (p, t) \<noteq> None then Inl (DatabaseError ''policy already exists'')
      else Inr (s\<lparr>sm_policies := (sm_policies s)((p, t) \<mapsto> pl)\<rparr>))"
| "apply_op (DropPolicyIfExists p t) s = Inr (s\<lparr>sm_policies := (sm_policies s)((p, t) := None)\<rparr>)"
| "apply_op (CreateOrReplaceFunction f) s = Inr (s\<lparr>sm_functions := insert f (sm_functions s)\<rparr>)"
| "apply_op (DropFunctionIfExists f) s =
     (if \<exists>g t. sm_triggers s (g, t) = Some f
      then Inl (DatabaseError ''cannot drop function because other objects depend on it'')
      else Inr (s\<lparr>sm_functions := sm_functions s - {f}\<rparr>))"
| "apply_op (CreateTrigger g t f) s =
     (if sm_tables s t = None then Inl (DatabaseError ''relation does not exist'')
      else if f \<notin> sm_functions s then Inl (DatabaseError ''function does not exist'')
      else if sm_triggers s (g, t) \<noteq> None then Inl (DatabaseError ''trigger already exists'')
      else Inr (s\<lparr>sm_triggers := (sm_triggers s)((g, t) \<mapsto> f)\<rparr>))"
| "apply_op (DropTriggerIfExists g t) s = Inr (s\<lparr>sm_triggers := (sm_triggers s)((g, t) := None)\<rparr>)"

section \<open>The migrations\<close>

record migration =
  mg_revision :: string
  mg_down_revision :: "string option"
  mg_upgrade :: "schema_op list"
  mg_downgrade :: "schema_op list"

definition initial_migration :: migration where
  "initial_migration =
     \<lparr>mg_revision = ''ea41e048fbe5'', mg_down_revision = None, mg_upgrade = [], mg_downgrade = []\<rparr>"

definition scheduled_tasks_columns :: "column list" where
  "scheduled_tasks_columns =
     [(''id'', UuidType, False, None), (''user_id'', StringType None, False, None),
      (''webhook_url'', TextType, False, None), (''parameters'', JsonbType, False, Some ''{}''),
      (''trigger_type'', StringType (Some 32), False, None), (''trigger_config'', JsonbType, False, None),
      (''next_run_at'', TimestamptzType, True, None), (''is_active'', BooleanType, False, Some ''true''),
      (''created_at'', TimestamptzType, False, Some ''now()''),
      (''updated_at'', TimestamptzType, False, Some ''now()'')]"

definition add_scheduled_tasks :: migration where
  "add_scheduled_tasks =
     \<lparr>mg_revision = ''a1b2c3d4e5f6'', mg_down_revision = Some ''ea41e048fbe5'',
      mg_upgrade =
        [CreateTable ''scheduled_tasks'' scheduled_tasks_columns [''id''] [],
         CreateIndex ''ix_scheduled_tasks_user_id'' ''scheduled_tasks'' [''user_id''],
         EnableRowSecurity ''scheduled_tasks'', ForceRowSecurity ''scheduled_tasks'',
         CreatePolicy ''scheduled_tasks_user_all'' ''scheduled_tasks''
           \<lparr>pl_command = ''ALL'', pl_using = Some OwnRow, pl_check = Some OwnRow\<rparr>,
         CreatePolicy ''scheduled_tasks_scheduler'' ''scheduled_tasks''
           \<lparr>pl_command = ''ALL'', pl_using = Some SchedulerSession, pl_check = Some SchedulerSession\<rparr>],
      mg_downgrade =
        [DropPolicyIfExists ''scheduled_tasks_scheduler'' ''scheduled_tasks'',
         DropPolicyIfExists ''scheduled_tasks_user_all'' ''scheduled_tasks'',
         DropIndex ''ix_scheduled_tasks_user_id'', DropTable ''scheduled_tasks'']\<rparr>"

definition task_history_columns :: "column list" where
  "task_history_columns =
     [(''id'', UuidType, False, None), (''user_id'', StringType None, False, None),
      (''task_id'', UuidType, False, None), (''event_type'', StringType (Some 32), False, None),
      (''webhook_url'', TextType, True, None), (''trigger_type'', StringType (Some 32), True, None),
      (''cron_expression'', StringType None, True, None), (''cron_timezone'', StringType None, True, None),
      (''interval_seconds'', IntegerType, True, None), (''once_run_at'', TimestamptzType, True, None),
      (''execution_source'', StringType (Some 16), True, None), (''http_status'', IntegerType, True, None),
      (''error_message'', TextType, True, None), (''success'', BooleanType, True, None),
      (''created_at'', TimestamptzType, False, Some ''now()'')]"

definition add_task_history :: migration where
  "add_task_history =
     \<lparr>mg_revision = ''b2c3d4e5f6a7'', mg_down_revision = Some ''a1b2c3d4e5f6'',
      mg_upgrade =
        [CreateTable ''task_history'' task_history_columns [''id''] [''task_history_event_shape''],
         CreateIndex ''ix_task_history_user_id'' ''task_history'' [''user_id''],
         CreateIndex ''ix_task_history_task_id'' ''task_history'' [''task_id''],
         CreateIndex ''ix_task_history_user_id_created_at'' ''task_history'' [''user_id'', ''created_at DESC''],
         CreateIndex ''ix_task_history_task_id_created_at'' ''task_history'' [''task_id'', ''created_at DESC''],
         EnableRowSecurity ''task_history'', ForceRowSecurity ''task_history'',
         CreatePolicy ''task_history_user_select'' ''task_history''
           \<lparr>pl_command = ''SELECT'', pl_using = Some OwnRow, pl_check = None\<rparr>,
         CreatePolicy ''task_history_user_insert'' ''task_history''
           \<lparr>pl_command = ''INSERT'', pl_using = None, pl_check = Some OwnRow\<rparr>,
         CreatePolicy ''task_history_scheduler_insert'' ''task_history''
           \<lparr>pl_command = ''INSERT'', pl_using = None, pl_check = Some SchedulerSession\<rparr>,
         CreateOrReplaceFunction ''prevent_task_history_mutation'',
         CreateTrigger ''task_history_no_update'' ''task_history'' ''prevent_task_history_mutation''],
      mg_downgrade =
        [DropTriggerIfExists ''task_history_no_update'' ''task_history'',
         DropFunctionIfExists ''prevent_task_history_mutation'',
         DropPolicyIfExists ''task_history_scheduler_insert'' ''task_history'',
         DropPolicyIfExists ''task_history_user_insert'' ''task_history'',
         DropPolicyIfExists ''task_history_user_select'' ''task_history'',
         DropIndex ''ix_task_history_task_id_created_at'', DropIndex ''ix_task_history_user_id_created_at'',
         DropIndex ''ix_task_history_task_id'', DropIndex ''ix_task_history_user_id'',
         DropTable ''task_history'']\<rparr>"

definition migrations :: "migration list" where
  "migrations = [initial_migration, add_scheduled_tasks, add_task_history]"

text \<open>\<^verbatim>\<open>upgrade head\<close> from a revision: the migrations after it, each from the one before.\<close>

definition run_upgrades :: "migration list \<Rightarrow> schema \<Rightarrow> schema result" where
  "run_upgrades ms s = run_steps apply_op (concat (map mg_upgrade ms)) s"

definition run_downgrades :: "migration list \<Rightarrow> schema \<Rightarrow> schema result" where
  "run_downgrades ms s = run_steps apply_op (concat (map mg_downgrade (rev ms))) s"

section \<open>The mapped classes\<close>

text \<open>The columns that \<^verbatim>\<open>Base.metadata\<close> has for the two classes, those of the mixin included.\<close>

definition user_owned_columns :: "column list" where
  "user_owned_columns = [(''user_id'', StringType None, False, None)]"

definition scheduled_task_mapping :: "column list" where
  "scheduled_task_mapping =
     [(''id'', UuidType, False, None), (''webhook_url'', TextType, False, None),
      (''parameters'', JsonbType, False, Some ''{}''), (''trigger_type'', StringType (Some 32), False, None),
      (''trigger_config'', JsonbType, False, None), (''next_run_at'', TimestamptzType, True, None),
      (''is_active'', BooleanType, False, Some ''true''), (''created_at'', TimestamptzType, False, Some ''now()''),
      (''updated_at'', TimestamptzType, False, Some ''now()'')] @ user_owned_columns"

definition task_history_mapping :: "column list" where
  "task_history_mapping =
     [(''id'', UuidType, False, None), (''task_id'', UuidType, False, None),
      (''event_type'', StringType (Some 32), False, None), (''webhook_url'', TextType, True, None),
      (''trigger_type'', StringType (Some 32), True, None), (''cron_expression'', StringType None, True, None),
      (''cron_timezone'', StringType None, True, None), (''interval_seconds'', IntegerType, True, None),
      (''once_run_at'', TimestamptzType, True, None), (''execution_source'', StringType (Some 16), True, None),
      (''http_status'', IntegerType, True, None), (''error_message'', TextType, True, None),
      (''success'', BooleanType, True, None), (''created_at'', TimestamptzType, False, Some ''now()'')]
     @ user_owned_columns"

text \<open>
  The columns with \<^verbatim>\<open>index=True\<close>, and the index that the mapper names for one.
\<close>

definition mapped_indexes :: "(string \<times> string) list" where
  "mapped_indexes =
     [(''scheduled_tasks'', ''user_id''), (''task_history'', ''user_id''), (''task_history'', ''task_id'')]"

definition index_name :: "string \<times> string \<Rightarrow> string" where
  "index_name k = ''ix_'' @ fst k @ ''_'' @ snd k"

section \<open>Running the migrations\<close>

definition async_url :: "database_settings \<Rightarrow> string" where
  "async_url db =
     ''postgresql+asyncpg://'' @ dbs_user db @ '':'' @ dbs_password db @ ''@'' @ dbs_host db @ '':''
       @ int_str (dbs_port db) @ ''/'' @ dbs_name db"

text \<open>\<^verbatim>\<open>get_url()\<close>: the settings of the context variable, or those of the environment.\<close>

definition get_url :: "database_settings option \<Rightarrow> database_settings \<Rightarrow> string" where
  "get_url override from_env =
     (case override of Some db \<Rightarrow> async_url db | None \<Rightarrow> async_url from_env)"

text \<open>
  \<^verbatim>\<open>with use_db_settings(db): body\<close>. The body is a function of the context variable to its result
  and the variable as it leaves it; the variable has its old value afterwards.
\<close>

definition use_db_settings ::
  "database_settings \<Rightarrow> (database_settings option \<Rightarrow> 'a result \<times> database_settings option)
     \<Rightarrow> database_settings option \<Rightarrow> 'a result \<times> database_settings option" where
  "use_db_settings db body var = (fst (body (Some db)), var)"

text \<open>
  \<^verbatim>\<open>run_migrations(db)\<close> up to its \<^verbatim>\<open>yield\<close>. What alembic does at an address is a parameter: the
  upgrade to the head, and the revision that the database then has.
\<close>

definition run_migrations ::
  "(string \<Rightarrow> unit result) \<Rightarrow> (string \<Rightarrow> string option result) \<Rightarrow> string option
     \<Rightarrow> database_settings \<Rightarrow> database_settings \<Rightarrow> database_settings option
     \<Rightarrow> unit result \<times> database_settings option" where
  "run_migrations upgrade_head get_current_revision head from_env db var =
     (let (r, var') = use_db_settings db (\<lambda>v. (upgrade_head (get_url v from_env), v)) var
      in (rbind r (\<lambda>_.
          rbind (get_current_revision (async_url db)) (\<lambda>current.
            if current \<noteq> head then Inl (AssertionError ''expected migration at head'') else Inr ())), var'))"

section \<open>Facts\<close>

text \<open>Indexes, policies and triggers belong to tables that exist, and triggers call functions that exist.\<close>

definition schema_ok :: "schema \<Rightarrow> bool" where
  "schema_ok s \<longleftrightarrow>
     (\<forall>i t cols. sm_indexes s i = Some (t, cols) \<longrightarrow> sm_tables s t \<noteq> None)
     \<and> (\<forall>p t. sm_policies s (p, t) \<noteq> None \<longrightarrow> sm_tables s t \<noteq> None)
     \<and> (\<forall>g t f. sm_triggers s (g, t) = Some f \<longrightarrow> sm_tables s t \<noteq> None \<and> f \<in> sm_functions s)"

text \<open>A table that does not exist has nothing that belongs to it, so dropping it changes nothing else.\<close>

lemma schema_ok_absent:
  assumes "schema_ok s" "sm_tables s t = None"
  shows "drop_indexes t (sm_indexes s) = sm_indexes s"
    "sm_policies s (p, t) = None" "sm_triggers s (g, t) = None"
    "drop_owned t (sm_policies s) = sm_policies s" "drop_owned t (sm_triggers s) = sm_triggers s"
proof -
  show "drop_indexes t (sm_indexes s) = sm_indexes s"
    using assms unfolding fun_eq_iff schema_ok_def drop_indexes_def by (fastforce split: option.splits)
  show p: "sm_policies s (p, t) = None" for p using assms unfolding schema_ok_def by blast
  show g: "sm_triggers s (g, t) = None" for g using assms unfolding schema_ok_def by (metis not_None_eq)
  show "drop_owned t (sm_policies s) = sm_policies s" "drop_owned t (sm_triggers s) = sm_triggers s"
    using p g by (auto simp: fun_eq_iff drop_owned_def)
qed

lemma on_table_Inr: "on_table t f s = Inr s' \<longleftrightarrow>
    (\<exists>tb. sm_tables s t = Some tb \<and> s' = s\<lparr>sm_tables := (sm_tables s)(t \<mapsto> f tb)\<rparr>)"
  by (auto simp: on_table_def split: option.splits)

text \<open>What each migration needs of a schema, and what it makes of it.\<close>

definition relation_free :: "schema \<Rightarrow> string \<Rightarrow> bool" where
  "relation_free s name \<longleftrightarrow> sm_tables s name = None \<and> sm_indexes s name = None"

definition task_relations :: "string list" where
  "task_relations = [''scheduled_tasks'', ''ix_scheduled_tasks_user_id'']"

definition history_relations :: "string list" where
  "history_relations =
     [''task_history'', ''ix_task_history_user_id'', ''ix_task_history_task_id'',
      ''ix_task_history_user_id_created_at'', ''ix_task_history_task_id_created_at'']"

definition with_scheduled_tasks :: "schema \<Rightarrow> schema" where
  "with_scheduled_tasks s =
     (let t = ''scheduled_tasks''
      in s\<lparr>sm_tables := (sm_tables s)(t \<mapsto>
             \<lparr>tb_columns = scheduled_tasks_columns, tb_primary_key = [''id''], tb_checks = [],
              tb_row_security = True, tb_force_row_security = True\<rparr>),
           sm_indexes := (sm_indexes s)(''ix_scheduled_tasks_user_id'' \<mapsto> (t, [''user_id''])),
           sm_policies := (sm_policies s)(
             (''scheduled_tasks_user_all'', t) \<mapsto> \<lparr>pl_command = ''ALL'', pl_using = Some OwnRow, pl_check = Some OwnRow\<rparr>,
             (''scheduled_tasks_scheduler'', t)
               \<mapsto> \<lparr>pl_command = ''ALL'', pl_using = Some SchedulerSession, pl_check = Some SchedulerSession\<rparr>)\<rparr>)"

definition with_task_history :: "schema \<Rightarrow> schema" where
  "with_task_history s =
     (let t = ''task_history''; f = ''prevent_task_history_mutation''
      in s\<lparr>sm_tables := (sm_tables s)(t \<mapsto>
             \<lparr>tb_columns = task_history_columns, tb_primary_key = [''id''], tb_checks = [''task_history_event_shape''],
              tb_row_security = True, tb_force_row_security = True\<rparr>),
           sm_indexes := (sm_indexes s)(
             ''ix_task_history_user_id'' \<mapsto> (t, [''user_id'']), ''ix_task_history_task_id'' \<mapsto> (t, [''task_id'']),
             ''ix_task_history_user_id_created_at'' \<mapsto> (t, [''user_id'', ''created_at DESC'']),
             ''ix_task_history_task_id_created_at'' \<mapsto> (t, [''task_id'', ''created_at DESC''])),
           sm_policies := (sm_policies s)(
             (''task_history_user_select'', t) \<mapsto> \<lparr>pl_command = ''SELECT'', pl_using = Some OwnRow, pl_check = None\<rparr>,
             (''task_history_user_insert'', t) \<mapsto> \<lparr>pl_command = ''INSERT'', pl_using = None, pl_check = Some OwnRow\<rparr>,
             (''task_history_scheduler_insert'', t)
               \<mapsto> \<lparr>pl_command = ''INSERT'', pl_using = None, pl_check = Some SchedulerSession\<rparr>),
           sm_functions := insert f (sm_functions s),
           sm_triggers := (sm_triggers s)((''task_history_no_update'', t) \<mapsto> f)\<rparr>)"

lemma not_relation_free: "\<not> relation_free s name \<Longrightarrow> sm_tables s name \<noteq> None \<or> sm_indexes s name \<noteq> None"
  by (simp add: relation_free_def)

lemma scheduled_tasks_applied:
  assumes "schema_ok s"
  shows "run_steps apply_op (mg_upgrade add_scheduled_tasks) s = Inr s'
    \<longleftrightarrow> list_all (relation_free s) task_relations \<and> s' = with_scheduled_tasks s"
proof (cases "relation_free s ''scheduled_tasks''")
  case False
  then show ?thesis
    by (auto simp: add_scheduled_tasks_def task_relations_def dest!: not_relation_free)
next
  case table: True
  note absent = schema_ok_absent [OF assms, of "''scheduled_tasks''"]
  show ?thesis
  proof (cases "relation_free s ''ix_scheduled_tasks_user_id''")
    case False
    then show ?thesis using table
      by (auto simp: relation_free_def add_scheduled_tasks_def task_relations_def)
  next
    case True
    then show ?thesis using table absent(2)
      by (cases s) (auto simp: relation_free_def add_scheduled_tasks_def task_relations_def on_table_def with_scheduled_tasks_def Let_def)
  qed
qed

lemma scheduled_tasks_undone:
  assumes "schema_ok s" "list_all (relation_free s) task_relations"
  shows "run_steps apply_op (mg_downgrade add_scheduled_tasks) (with_scheduled_tasks s) = Inr s"
proof -
  have new: "sm_tables s ''scheduled_tasks'' = None" "sm_indexes s ''ix_scheduled_tasks_user_id'' = None"
    using assms(2) by (simp_all add: task_relations_def relation_free_def)
  note absent = schema_ok_absent [OF assms(1) new(1)]
  show ?thesis
    using new absent
    by (cases s) (simp add: with_scheduled_tasks_def Let_def add_scheduled_tasks_def fun_upd_idem fun_upd_twist)
qed

lemma with_scheduled_tasks_ok: "schema_ok s \<Longrightarrow> schema_ok (with_scheduled_tasks s)"
  by (auto simp: schema_ok_def with_scheduled_tasks_def Let_def)

lemma task_history_applied:
  assumes "schema_ok s"
  shows "run_steps apply_op (mg_upgrade add_task_history) s = Inr s'
    \<longleftrightarrow> list_all (relation_free s) history_relations \<and> s' = with_task_history s"
proof (cases "list_all (relation_free s) history_relations")
  case True
  then have free: "sm_tables s ''task_history'' = None"
    "\<forall>i \<in> set history_relations. sm_indexes s i = None \<and> sm_tables s i = None"
    by (simp_all add: history_relations_def relation_free_def)
  note absent = schema_ok_absent [OF assms free(1)]
  show ?thesis
    using True free absent(2,3)
    by (cases s) (auto simp: history_relations_def add_task_history_def on_table_def with_task_history_def Let_def)
next
  case False
  then have "\<exists>e. run_steps apply_op (mg_upgrade add_task_history) s = Inl e"
    by (auto simp: history_relations_def relation_free_def add_task_history_def)
  then show ?thesis using False by auto
qed

lemma task_history_undone:
  assumes "schema_ok s" "list_all (relation_free s) history_relations"
  shows "run_steps apply_op (mg_downgrade add_task_history) (with_task_history s)
    = (if \<exists>g t. sm_triggers s (g, t) = Some ''prevent_task_history_mutation''
       then Inl (DatabaseError ''cannot drop function because other objects depend on it'')
       else Inr (s\<lparr>sm_functions := sm_functions s - {''prevent_task_history_mutation''}\<rparr>))"
proof -
  let ?t = "''task_history''" and ?f = "''prevent_task_history_mutation''"
  have new: "sm_tables s ?t = None" "\<forall>i \<in> set history_relations. sm_indexes s i = None"
    using assms(2) by (simp_all add: history_relations_def relation_free_def)
  note absent = schema_ok_absent [OF assms(1) new(1)]
  have twice: "((sm_triggers s)((''task_history_no_update'', ?t) \<mapsto> ?f))((''task_history_no_update'', ?t) := None)
      = sm_triggers s"
    using absent(3) by (simp add: fun_upd_idem)
  show ?thesis
    using new absent twice
    by (cases s) (simp add: history_relations_def with_task_history_def Let_def add_task_history_def fun_upd_idem fun_upd_twist)
qed

lemma history_after_tasks:
  "list_all (relation_free (with_scheduled_tasks s)) history_relations \<longleftrightarrow> list_all (relation_free s) history_relations"
  by (simp add: history_relations_def relation_free_def with_scheduled_tasks_def Let_def)

text \<open>All upgrades together.\<close>

lemma upgrades_applied:
  assumes "schema_ok s"
  shows "run_upgrades migrations s = Inr s'
    \<longleftrightarrow> list_all (relation_free s) (task_relations @ history_relations) \<and> s' = with_task_history (with_scheduled_tasks s)"
  using scheduled_tasks_applied [OF assms] task_history_applied [OF with_scheduled_tasks_ok [OF assms]]
  by (auto simp: run_upgrades_def migrations_def initial_migration_def run_steps_append rbind_eq_Inr history_after_tasks)

lemma task_columns: "set scheduled_tasks_columns = set scheduled_task_mapping"
  by (auto simp: scheduled_tasks_columns_def scheduled_task_mapping_def user_owned_columns_def)

lemma history_columns: "set task_history_columns = set task_history_mapping"
  by (auto simp: task_history_columns_def task_history_mapping_def user_owned_columns_def)

lemma upgraded_indexes:
  assumes "schema_ok s" "sm_tables s ''scheduled_tasks'' = None" "sm_tables s ''task_history'' = None"
  shows "{(i, cols). sm_indexes (with_task_history (with_scheduled_tasks s)) i = Some (''scheduled_tasks'', cols)}
      = {(index_name k, [snd k]) | k. k \<in> set mapped_indexes \<and> fst k = ''scheduled_tasks''}"
    and "{(i, cols). sm_indexes (with_task_history (with_scheduled_tasks s)) i = Some (''task_history'', cols)}
      = {(index_name k, [snd k]) | k. k \<in> set mapped_indexes \<and> fst k = ''task_history''}
        \<union> {(''ix_task_history_user_id_created_at'', [''user_id'', ''created_at DESC'']),
           (''ix_task_history_task_id_created_at'', [''task_id'', ''created_at DESC''])}"
proof -
  have none: "sm_indexes s i \<noteq> Some (t, cols)" if "sm_tables s t = None" for i t cols
    using assms(1) that unfolding schema_ok_def by blast
  show "{(i, cols). sm_indexes (with_task_history (with_scheduled_tasks s)) i = Some (''scheduled_tasks'', cols)}
      = {(index_name k, [snd k]) | k. k \<in> set mapped_indexes \<and> fst k = ''scheduled_tasks''}"
    using none [OF assms(2)]
    by (auto simp: with_task_history_def with_scheduled_tasks_def Let_def mapped_indexes_def index_name_def
        split: if_splits)
  show "{(i, cols). sm_indexes (with_task_history (with_scheduled_tasks s)) i = Some (''task_history'', cols)}
      = {(index_name k, [snd k]) | k. k \<in> set mapped_indexes \<and> fst k = ''task_history''}
        \<union> {(''ix_task_history_user_id_created_at'', [''user_id'', ''created_at DESC'']),
           (''ix_task_history_task_id_created_at'', [''task_id'', ''created_at DESC''])}"
    using none [OF assms(3)]
    by (auto simp: with_task_history_def with_scheduled_tasks_def Let_def mapped_indexes_def index_name_def
        split: if_splits)
qed

text \<open>
  Which rows of a table the policies of a schema let a session read and write, for a role that they
  apply to: one permissive policy is enough, and a policy without \<^verbatim>\<open>WITH CHECK\<close> checks with \<^verbatim>\<open>USING\<close>.
\<close>

definition lets_read :: "string \<Rightarrow> rls_ctx \<Rightarrow> string \<Rightarrow> policy \<Rightarrow> bool" where
  "lets_read command cx user_id pl \<longleftrightarrow>
     pl_command pl \<in> {''ALL'', command}
     \<and> (case pl_using pl of None \<Rightarrow> False | Some test \<Rightarrow> test_holds test cx user_id)"

definition lets_write :: "string \<Rightarrow> rls_ctx \<Rightarrow> string \<Rightarrow> policy \<Rightarrow> bool" where
  "lets_write command cx user_id pl \<longleftrightarrow>
     pl_command pl \<in> {''ALL'', command}
     \<and> (case (if pl_check pl = None then pl_using pl else pl_check pl) of
          None \<Rightarrow> False
        | Some test \<Rightarrow> test_holds test cx user_id)"

definition row_readable :: "schema \<Rightarrow> string \<Rightarrow> string \<Rightarrow> rls_ctx \<Rightarrow> string \<Rightarrow> bool" where
  "row_readable s t command cx user_id \<longleftrightarrow>
     (\<exists>p pl. sm_policies s (p, t) = Some pl \<and> lets_read command cx user_id pl)"

definition row_writable :: "schema \<Rightarrow> string \<Rightarrow> string \<Rightarrow> rls_ctx \<Rightarrow> string \<Rightarrow> bool" where
  "row_writable s t command cx user_id \<longleftrightarrow>
     (\<exists>p pl. sm_policies s (p, t) = Some pl \<and> lets_write command cx user_id pl)"

section \<open>Properties\<close>

lemma found_among:
  "a \<noteq> b \<Longrightarrow> (\<exists>p x. (if p = a then Some A else if p = b then Some B else None) = Some x \<and> P x) \<longleftrightarrow> P A \<or> P B"
  "a \<noteq> b \<Longrightarrow> a \<noteq> c \<Longrightarrow> b \<noteq> c \<Longrightarrow>
     (\<exists>p x. (if p = a then Some A else if p = b then Some B else if p = c then Some C else None) = Some x \<and> P x)
     \<longleftrightarrow> P A \<or> P B \<or> P C"
  by (auto split: if_splits)

text \<open>
  The policies that the migrations create are the ones of the model of the database: on the tasks
  those of \<open>task_allowed\<close>, for reading and for writing; on the history those of \<open>history_readable\<close>
  for reading and of \<open>history_insertable\<close> for inserting; and no policy lets a session update or delete
  history.
\<close>

theorem policies_of_migrations:
  assumes "schema_ok s" "run_upgrades migrations s = Inr s'" "\<not> cx_bypass cx"
  shows "row_readable s' ''scheduled_tasks'' command cx u \<longleftrightarrow> task_allowed cx u"
    and "row_writable s' ''scheduled_tasks'' command cx u \<longleftrightarrow> task_allowed cx u"
    and "row_readable s' ''task_history'' ''SELECT'' cx u \<longleftrightarrow> history_readable cx u"
    and "row_writable s' ''task_history'' ''INSERT'' cx u \<and> (cx_returning cx \<longrightarrow> row_readable s' ''task_history'' ''SELECT'' cx u)
      \<longleftrightarrow> history_insertable cx u"
    and "command \<in> {''UPDATE'', ''DELETE''} \<Longrightarrow> \<not> row_readable s' ''task_history'' command cx u"
proof -
  have s': "s' = with_task_history (with_scheduled_tasks s)"
    and free: "list_all (relation_free s) (task_relations @ history_relations)"
    using assms(2) by (simp_all only: upgrades_applied [OF assms(1)])
  then have "sm_tables s ''scheduled_tasks'' = None" "sm_tables s ''task_history'' = None"
    by (simp_all add: task_relations_def history_relations_def relation_free_def)
  then have none: "sm_policies s (p, ''scheduled_tasks'') = None" "sm_policies s (p, ''task_history'') = None" for p
    using schema_ok_absent(2) [OF assms(1)] by blast+
  have tasks: "(\<exists>p pl. sm_policies s' (p, ''scheduled_tasks'') = Some pl \<and> P pl) \<longleftrightarrow>
      P \<lparr>pl_command = ''ALL'', pl_using = Some OwnRow, pl_check = Some OwnRow\<rparr>
      \<or> P \<lparr>pl_command = ''ALL'', pl_using = Some SchedulerSession, pl_check = Some SchedulerSession\<rparr>" for P
  proof -
    have "sm_policies s' (p, ''scheduled_tasks'') =
        (if p = ''scheduled_tasks_user_all'' then Some \<lparr>pl_command = ''ALL'', pl_using = Some OwnRow, pl_check = Some OwnRow\<rparr>
         else if p = ''scheduled_tasks_scheduler''
         then Some \<lparr>pl_command = ''ALL'', pl_using = Some SchedulerSession, pl_check = Some SchedulerSession\<rparr> else None)" for p
      using none by (simp add: s' with_task_history_def with_scheduled_tasks_def Let_def)
    then show ?thesis by (simp add: found_among(1))
  qed
  have history: "(\<exists>p pl. sm_policies s' (p, ''task_history'') = Some pl \<and> P pl) \<longleftrightarrow>
      P \<lparr>pl_command = ''SELECT'', pl_using = Some OwnRow, pl_check = None\<rparr>
      \<or> P \<lparr>pl_command = ''INSERT'', pl_using = None, pl_check = Some OwnRow\<rparr>
      \<or> P \<lparr>pl_command = ''INSERT'', pl_using = None, pl_check = Some SchedulerSession\<rparr>" for P
  proof -
    have "sm_policies s' (p, ''task_history'') =
        (if p = ''task_history_user_select'' then Some \<lparr>pl_command = ''SELECT'', pl_using = Some OwnRow, pl_check = None\<rparr>
         else if p = ''task_history_user_insert'' then Some \<lparr>pl_command = ''INSERT'', pl_using = None, pl_check = Some OwnRow\<rparr>
         else if p = ''task_history_scheduler_insert''
         then Some \<lparr>pl_command = ''INSERT'', pl_using = None, pl_check = Some SchedulerSession\<rparr> else None)" for p
      using none by (simp add: s' with_task_history_def with_scheduled_tasks_def Let_def)
    then show ?thesis by (simp add: found_among(2))
  qed
  note allowed = task_allowed_def scheduled_tasks_user_all_def scheduled_tasks_scheduler_def
  show "row_readable s' ''scheduled_tasks'' command cx u \<longleftrightarrow> task_allowed cx u"
    using assms(3) by (simp add: row_readable_def tasks lets_read_def allowed)
  show "row_writable s' ''scheduled_tasks'' command cx u \<longleftrightarrow> task_allowed cx u"
    using assms(3) by (simp add: row_writable_def tasks lets_write_def allowed)
  show select: "row_readable s' ''task_history'' ''SELECT'' cx u \<longleftrightarrow> history_readable cx u"
    using assms(3) by (simp add: row_readable_def history lets_read_def history_readable_def task_history_user_select_def)
  have "row_writable s' ''task_history'' ''INSERT'' cx u
      \<longleftrightarrow> task_history_user_insert cx u \<or> task_history_scheduler_insert cx u"
    by (simp add: row_writable_def history lets_write_def task_history_user_insert_def task_history_scheduler_insert_def)
  then show "row_writable s' ''task_history'' ''INSERT'' cx u
      \<and> (cx_returning cx \<longrightarrow> row_readable s' ''task_history'' ''SELECT'' cx u) \<longleftrightarrow> history_insertable cx u"
    using assms(3) select by (auto simp: history_insertable_def)
  show "command \<in> {''UPDATE'', ''DELETE''} \<Longrightarrow> \<not> row_readable s' ''task_history'' command cx u"
    by (auto simp: row_readable_def history lets_read_def)
qed

text \<open>
  (C33) Downgrading undoes upgrading. Take any schema whose indexes, policies and triggers belong to
  tables of it, with whatever other tables, on which all upgrades succeed: the downgrades in
  the opposite order succeed and give that schema back, with nothing left over, except that a
  function with the name of the trigger function, which the upgrade would have replaced, is gone. They fail
  when a trigger of the schema uses that function, because the database does not drop it then.
\<close>

theorem migrations_roundtrip:
  assumes "schema_ok s" "run_upgrades migrations s = Inr s'"
  shows "run_downgrades migrations s'
    = (if \<exists>g t. sm_triggers s (g, t) = Some ''prevent_task_history_mutation''
       then Inl (DatabaseError ''cannot drop function because other objects depend on it'')
       else Inr (s\<lparr>sm_functions := sm_functions s - {''prevent_task_history_mutation''}\<rparr>))"
proof -
  let ?f = "''prevent_task_history_mutation''" and ?s1 = "with_scheduled_tasks s"
  have free: "list_all (relation_free s) task_relations" "list_all (relation_free ?s1) history_relations"
    and s': "s' = with_task_history ?s1"
    using assms(2) by (simp_all add: upgrades_applied [OF assms(1)] history_after_tasks)
  have triggers: "sm_triggers ?s1 = sm_triggers s" by (simp add: with_scheduled_tasks_def Let_def)
  note undone = task_history_undone [OF with_scheduled_tasks_ok [OF assms(1)] free(2), unfolded triggers]
  show ?thesis
  proof (cases "\<exists>g t. sm_triggers s (g, t) = Some ?f")
    case True
    then show ?thesis
      using undone by (simp add: s' run_downgrades_def migrations_def run_steps_append)
  next
    case False
    let ?s = "s\<lparr>sm_functions := sm_functions s - {?f}\<rparr>"
    have "schema_ok ?s" "list_all (relation_free ?s) task_relations"
      using assms(1) False free(1) by (auto simp: schema_ok_def task_relations_def relation_free_def)
    then have "run_steps apply_op (mg_downgrade add_scheduled_tasks) (with_scheduled_tasks ?s) = Inr ?s"
      by (rule scheduled_tasks_undone)
    moreover have "?s1\<lparr>sm_functions := sm_functions ?s1 - {?f}\<rparr> = with_scheduled_tasks ?s"
      by (simp add: with_scheduled_tasks_def Let_def)
    ultimately show ?thesis
      using undone False by (simp add: s' run_downgrades_def migrations_def initial_migration_def run_steps_append)
  qed
qed

text \<open>
  (C34) The migrations and the mapped classes. The upgrades succeed exactly on the schemas that have no
  table and no index under the seven names of theirs. They add two tables, next to the table in which
  alembic keeps its revision, which is not modelled; these have
  exactly the columns of the classes, with the same types, nullability and server defaults, and
  the primary key \<^verbatim>\<open>id\<close>; the indexes of the tasks are those that the class asks for; the indexes of the
  history are those that the class asks for and two more that no class declares, by user and by task
  with the time descending. Both tables have row security enabled and forced, and the history
  has its check.
\<close>

theorem migrations_match_models:
  assumes "schema_ok s"
  shows "((\<exists>s'. run_upgrades migrations s = Inr s') \<longleftrightarrow>
      (\<forall>name \<in> {''scheduled_tasks'', ''task_history''} \<union> index_name ` set mapped_indexes
          \<union> {''ix_task_history_user_id_created_at'', ''ix_task_history_task_id_created_at''}.
        sm_tables s name = None \<and> sm_indexes s name = None))
    \<and> (\<forall>s'. run_upgrades migrations s = Inr s' \<longrightarrow>
        (\<exists>tasks history.
            sm_tables s' = (sm_tables s)(''scheduled_tasks'' \<mapsto> tasks, ''task_history'' \<mapsto> history)
          \<and> set (tb_columns tasks) = set scheduled_task_mapping \<and> set (tb_columns history) = set task_history_mapping
          \<and> tb_primary_key tasks = [''id''] \<and> tb_primary_key history = [''id'']
          \<and> {(i, cols). sm_indexes s' i = Some (''scheduled_tasks'', cols)}
              = {(index_name k, [snd k]) | k. k \<in> set mapped_indexes \<and> fst k = ''scheduled_tasks''}
          \<and> {(i, cols). sm_indexes s' i = Some (''task_history'', cols)}
              = {(index_name k, [snd k]) | k. k \<in> set mapped_indexes \<and> fst k = ''task_history''}
                \<union> {(''ix_task_history_user_id_created_at'', [''user_id'', ''created_at DESC'']),
                   (''ix_task_history_task_id_created_at'', [''task_id'', ''created_at DESC''])}
          \<and> tb_row_security tasks \<and> tb_force_row_security tasks
          \<and> tb_row_security history \<and> tb_force_row_security history
          \<and> tb_checks tasks = [] \<and> tb_checks history = [''task_history_event_shape'']))"
  (is "_ \<and> (\<forall>s'. _ \<longrightarrow> ?made s')")
proof -
  have names: "{''scheduled_tasks'', ''task_history''} \<union> index_name ` set mapped_indexes
      \<union> {''ix_task_history_user_id_created_at'', ''ix_task_history_task_id_created_at''}
    = set (task_relations @ history_relations)"
    by (auto simp: task_relations_def history_relations_def mapped_indexes_def index_name_def)
  have success: "(\<exists>s'. run_upgrades migrations s = Inr s') \<longleftrightarrow>
      (\<forall>name \<in> set (task_relations @ history_relations). sm_tables s name = None \<and> sm_indexes s name = None)"
    unfolding upgrades_applied [OF assms] by (simp only: list_all_iff relation_free_def [abs_def]) blast
  have "?made s'" if up: "run_upgrades migrations s = Inr s'" for s'
  proof -
    have s': "s' = with_task_history (with_scheduled_tasks s)"
      and free: "list_all (relation_free s) (task_relations @ history_relations)"
      using up by (simp_all only: upgrades_applied [OF assms])
    let ?tasks = "\<lparr>tb_columns = scheduled_tasks_columns, tb_primary_key = [''id''], tb_checks = [],
      tb_row_security = True, tb_force_row_security = True\<rparr>"
    let ?history = "\<lparr>tb_columns = task_history_columns, tb_primary_key = [''id''],
      tb_checks = [''task_history_event_shape''], tb_row_security = True, tb_force_row_security = True\<rparr>"
    have tables: "sm_tables s' = (sm_tables s)(''scheduled_tasks'' \<mapsto> ?tasks, ''task_history'' \<mapsto> ?history)"
      by (simp add: s' with_task_history_def with_scheduled_tasks_def Let_def)
    have new: "sm_tables s ''scheduled_tasks'' = None" "sm_tables s ''task_history'' = None"
      using free by (simp_all add: task_relations_def history_relations_def relation_free_def)
    note columns = task_columns history_columns
    show ?thesis
      using tables columns upgraded_indexes [OF assms new]
      by (intro exI [of _ ?tasks] exI [of _ ?history]) (simp add: s')
  qed
  then show ?thesis unfolding names success by blast
qed

text \<open>
  Migrations run at the address of the settings that are passed, whatever the environment says,
  they leave the override of the caller as it was, and they succeed exactly when the upgrade
  succeeds and the database then is at the head revision.
\<close>

theorem run_migrations_checked:
  "run_migrations upgrade_head get_current_revision head from_env db var = (r, var') \<longleftrightarrow>
     var' = var
     \<and> r = (case upgrade_head (async_url db) of
          Inl e \<Rightarrow> Inl e
        | Inr _ \<Rightarrow>
            (case get_current_revision (async_url db) of
               Inl e \<Rightarrow> Inl e
             | Inr current \<Rightarrow>
                 if current = head then Inr () else Inl (AssertionError ''expected migration at head'')))"
  by (auto simp: run_migrations_def use_db_settings_def get_url_def rbind_def split: sum.splits)

section \<open>Witnesses\<close>

lemma empty_upgraded: "schema_ok empty_schema" "\<exists>s. run_upgrades migrations empty_schema = Inr s"
proof -
  show ok: "schema_ok empty_schema" by (simp add: schema_ok_def empty_schema_def)
  have "list_all (relation_free empty_schema) (task_relations @ history_relations)"
    by (simp add: relation_free_def empty_schema_def list_all_iff)
  then show "\<exists>s. run_upgrades migrations empty_schema = Inr s" using upgrades_applied [OF ok] by blast
qed

lemma migrations_roundtrip_witness:
  "\<exists>s. run_upgrades migrations empty_schema = Inr s \<and> run_downgrades migrations s = Inr empty_schema"
proof -
  obtain s where s: "run_upgrades migrations empty_schema = Inr s" using empty_upgraded(2) by blast
  show ?thesis using migrations_roundtrip [OF empty_upgraded(1) s] s by (simp add: empty_schema_def)
qed

lemma migrations_match_models_witness:
  "\<exists>s. run_upgrades migrations empty_schema = Inr s
    \<and> {(i, cols). sm_indexes s i = Some (''scheduled_tasks'', cols)} = {(''ix_scheduled_tasks_user_id'', [''user_id''])}"
proof -
  obtain s where s: "run_upgrades migrations empty_schema = Inr s" using empty_upgraded(2) by blast
  have "{(i, cols). sm_indexes s i = Some (''scheduled_tasks'', cols)}
      = {(index_name k, [snd k]) | k. k \<in> set mapped_indexes \<and> fst k = ''scheduled_tasks''}"
    using migrations_match_models [OF empty_upgraded(1), THEN conjunct2, rule_format, OF s] by (elim exE conjE)
  then show ?thesis using s by (auto simp: mapped_indexes_def index_name_def)
qed

end
