(* ===== verification/Engine.thy ===== *)
theory Engine
  imports Migrations
begin

text \<open>
  Connecting to the database, \<^verbatim>\<open>app/db/engine.py\<close>, and the life of the application's resources, the
  \<^verbatim>\<open>lifespan\<close> of \<^verbatim>\<open>app/main.py\<close>. The driver is a function from the number of the attempt to what the
  attempt gives.
\<close>

section \<open>Connecting\<close>

text \<open>
  The exceptions that are tried again: \<^verbatim>\<open>OSError\<close>, which \<^verbatim>\<open>asyncio.TimeoutError\<close> is a subclass of, and
  the errors of the driver and of the mapper, both \<open>DatabaseError\<close> here.
\<close>

fun is_connection_failure :: "exn \<Rightarrow> bool" where
  "is_connection_failure (OSError _) = True"
| "is_connection_failure (DatabaseError _) = True"
| "is_connection_failure _ = False"

definition connection_error :: "database_settings \<Rightarrow> exn" where
  "connection_error settings = DatabaseConnectionError
     (''Failed to connect to PostgreSQL at '' @ dbs_host settings @ '':'' @ int_str (dbs_port settings)
        @ ''/'' @ dbs_name settings)"

definition connect_once :: "(nat \<Rightarrow> 'c result) \<Rightarrow> nat \<Rightarrow> 'c result \<times> nat" where
  "connect_once connect k = (connect k, Suc k)"

text \<open>The result, and the number of attempts that were made.\<close>

definition async_creator :: "database_settings \<Rightarrow> (nat \<Rightarrow> 'c result) \<Rightarrow> 'c result \<times> nat" where
  "async_creator settings connect =
     (let (r, k) = retry_loop (nat (dbs_connect_retries settings)) is_connection_failure (\<lambda>_ k. k)
                     (connect_once connect) 0
      in (reraise_as is_connection_failure (\<lambda>_. connection_error settings) r, k))"

record engine_config =
  ec_pool_size :: int
  ec_max_overflow :: int
  ec_pool_timeout :: string

definition create_db ::
  "database_settings \<Rightarrow> (nat \<Rightarrow> 'c result) \<Rightarrow> ('c \<Rightarrow> unit result) \<Rightarrow> engine_config result" where
  "create_db settings connect select_1 =
     rbind (fst (async_creator settings connect)) (\<lambda>conn.
     rbind (select_1 conn) (\<lambda>_.
     Inr \<lparr>ec_pool_size = dbs_min_pool_size settings,
          ec_max_overflow = max 0 (dbs_max_pool_size settings - dbs_min_pool_size settings),
          ec_pool_timeout = dbs_connect_timeout settings\<rparr>))"

section \<open>The resources of the application\<close>

datatype resource_event =
    EngineCreated
  | ClientCreated
  | SchedulerEntered
  | SchedulerStarted
  | Serving
  | ClientClosed
  | SchedulerExited
  | EngineDisposed

text \<open>
  The results of the calls that may fail: creating the engine, entering the scheduler, configuring
  and starting it, and the time of serving, which ends with a shutdown or an exception.
\<close>

record startup =
  su_create_db :: "unit result"
  su_enter_scheduler :: "unit result"
  su_configure :: "unit result"
  su_start :: "unit result"
  su_serve :: "unit result"

definition scheduler_block :: "startup \<Rightarrow> unit result \<times> resource_event list" where
  "scheduler_block su =
     (case rbind (su_configure su) (\<lambda>_. su_start su) of
        Inl e \<Rightarrow> (Inl e, [])
      | Inr _ \<Rightarrow> (su_serve su, [SchedulerStarted, Serving, ClientClosed]))"

definition lifespan :: "startup \<Rightarrow> unit result \<times> resource_event list" where
  "lifespan su =
     (case su_create_db su of
        Inl e \<Rightarrow> (Inl e, [])
      | Inr _ \<Rightarrow>
          (case su_enter_scheduler su of
             Inl e \<Rightarrow> (Inl e, [EngineCreated, ClientCreated])
           | Inr _ \<Rightarrow>
               let (r, events) = scheduler_block su
               in (r, [EngineCreated, ClientCreated, SchedulerEntered] @ events @ [SchedulerExited]
                      @ (case r of Inl _ \<Rightarrow> [] | Inr _ \<Rightarrow> [EngineDisposed]))))"

section \<open>Facts\<close>

lemma retry_skips_failures:
  assumes "\<forall>j < k. \<exists>e. connect (s + j) = Inl e \<and> p e" "k < n"
  shows "retry_loop n p (\<lambda>_ k. k) (connect_once connect) s
    = retry_loop (n - k) p (\<lambda>_ k. k) (connect_once connect) (s + k)"
  using assms
proof (induction k arbitrary: s n)
  case 0
  then show ?case by simp
next
  case (Suc k)
  obtain m where m: "n = Suc m" "k < m" using Suc.prems(2) by (cases n) auto
  obtain e where e: "connect s = Inl e" "p e" using Suc.prems(1) by force
  have "\<forall>j < k. \<exists>e. connect (Suc s + j) = Inl e \<and> p e"
    using Suc.prems(1) by (metis Suc_less_eq add_Suc_right add_Suc_shift)
  then have "retry_loop m p (\<lambda>_ k. k) (connect_once connect) (Suc s)
      = retry_loop (m - k) p (\<lambda>_ k. k) (connect_once connect) (Suc s + k)"
    using m(2) by (rule Suc.IH)
  moreover have "connect_once connect s = (Inl e, Suc s)" by (simp add: connect_once_def e)
  moreover have "m \<noteq> 0" using m(2) by simp
  ultimately show ?case using e m by simp
qed

lemma async_creator_decided:
  assumes "\<forall>j < k. \<exists>e. connect j = Inl e \<and> is_connection_failure e"
    and "k < max 1 (nat (dbs_connect_retries settings))"
    and "case connect k of Inr _ \<Rightarrow> True
      | Inl e \<Rightarrow> \<not> is_connection_failure e \<or> Suc k = max 1 (nat (dbs_connect_retries settings))"
  shows "async_creator settings connect
    = (reraise_as is_connection_failure (\<lambda>_. connection_error settings) (connect k), Suc k)"
proof (cases "nat (dbs_connect_retries settings)")
  case 0
  then show ?thesis using assms(2) by (simp add: async_creator_def connect_once_def)
next
  case (Suc m)
  then have "retry_loop (nat (dbs_connect_retries settings)) is_connection_failure (\<lambda>_ k. k) (connect_once connect) 0
      = retry_loop (Suc m - k) is_connection_failure (\<lambda>_ k. k) (connect_once connect) k"
    using retry_skips_failures [of k connect 0 is_connection_failure "Suc m"] assms(1,2) by simp
  moreover obtain d where "Suc m - k = Suc d" using assms(2) Suc by (metis Suc_diff_le less_Suc_eq_le max_0L max_Suc_Suc One_nat_def)
  ultimately show ?thesis
    using assms(2,3) Suc by (auto simp: async_creator_def connect_once_def split: sum.splits)
qed

section \<open>Properties\<close>

text \<open>
  (C37) Connecting makes at most \<^verbatim>\<open>connect_retries\<close> attempts, and one at least: the first attempt that
  succeeds gives the connection; an exception that is not a connection failure leaves at once;
  when every attempt fails the caller gets a \<open>DatabaseConnectionError\<close> that names the database.
\<close>

theorem connection_attempts:
  assumes "n = max 1 (nat (dbs_connect_retries settings))"
    and "\<forall>j < k. \<exists>e. connect j = Inl e \<and> is_connection_failure e" "k \<le> n"
  shows "(k = n \<longrightarrow> async_creator settings connect = (Inl (connection_error settings), n))
    \<and> (k < n \<longrightarrow> (\<forall>c. connect k = Inr c \<longrightarrow> async_creator settings connect = (Inr c, Suc k)))
    \<and> (k < n \<longrightarrow> (\<forall>e. connect k = Inl e \<and> \<not> is_connection_failure e \<longrightarrow>
         async_creator settings connect = (Inl e, Suc k)))"
proof (intro conjI impI allI)
  assume k: "k = n"
  have "0 < n" using assms(1) by simp
  then obtain i where i: "n = Suc i" using gr0_implies_Suc by blast
  then obtain e where e: "connect i = Inl e" "is_connection_failure e" using assms(2) k by blast
  have "async_creator settings connect
      = (reraise_as is_connection_failure (\<lambda>_. connection_error settings) (connect i), Suc i)"
    using assms(1,2) k i e by (intro async_creator_decided) auto
  then show "async_creator settings connect = (Inl (connection_error settings), n)" using e i by simp
next
  fix c assume "k < n" "connect k = Inr c"
  then show "async_creator settings connect = (Inr c, Suc k)"
    using async_creator_decided [of k connect settings] assms(1,2) by simp
next
  fix e assume "k < n" "connect k = Inl e \<and> \<not> is_connection_failure e"
  then show "async_creator settings connect = (Inl e, Suc k)"
    using async_creator_decided [of k connect settings] assms(1,2) by simp
qed

text \<open>
  After a clean run every resource that was opened is closed, in the opposite order except that the
  HTTP client closes before the scheduler. When anything fails after the engine was created, the
  engine is not disposed; when the startup of the scheduler fails, the client is not closed either.
\<close>

lemma lifespan_releases:
  "lifespan su = (Inr (), events) \<Longrightarrow>
     events = [EngineCreated, ClientCreated, SchedulerEntered, SchedulerStarted, Serving, ClientClosed,
       SchedulerExited, EngineDisposed]"
  "lifespan su = (Inl e, events) \<Longrightarrow> EngineDisposed \<notin> set events
     \<and> (EngineCreated \<in> set events \<longleftrightarrow> su_create_db su = Inr ())
     \<and> (ClientClosed \<in> set events \<longrightarrow> su_start su = Inr ())"
  by (auto simp: lifespan_def scheduler_block_def Let_def rbind_eq_Inr split: sum.splits prod.splits)

section \<open>A witness\<close>

text \<open>With the default of three attempts: two timeouts, then a connection; and no connection at all.\<close>

lemma connection_attempts_witness:
  "async_creator (default_database_settings ''u'' ''p'' ''d'')
     (\<lambda>k. if k < 2 then Inl (OSError ''timeout'') else Inr ''connection'') = (Inr ''connection'', 3)
   \<and> async_creator (default_database_settings ''u'' ''p'' ''d'') (\<lambda>k. Inl (OSError ''timeout'') :: string result)
     = (Inl (connection_error (default_database_settings ''u'' ''p'' ''d'')), 3)"
proof -
  let ?s = "default_database_settings ''u'' ''p'' ''d''"
  have n: "(3 :: nat) = max 1 (nat (dbs_connect_retries ?s))" by (simp add: default_database_settings_def)
  show ?thesis
    using connection_attempts [OF n, of 2 "\<lambda>k. if k < 2 then Inl (OSError ''timeout'') else Inr ''connection''"]
      connection_attempts [OF n, of 3 "\<lambda>k. Inl (OSError ''timeout'') :: string result"]
    by simp
qed

end
