(* ===== verification/Http_Routing.thy ===== *)
theory Http_Routing
  imports Requests
begin

text \<open>
  From a message to a handler: the tables of routes that the decorators of \<^verbatim>\<open>app/routes/\<close> declare, the
  routers that \<^verbatim>\<open>app/routes/v1.py\<close> and \<^verbatim>\<open>app/main.py\<close> put together, and the way of a message through
  the middleware, the table and the dependencies of its route. The framework is the record
  \<open>framework\<close>: its own pages, how a path matches a pattern, its answer when nothing matches, the
  reading of a body, the bearer scheme, and the reading of parameters.
\<close>

section \<open>The tables of routes\<close>

datatype endpoint =
    HealthEndpoint
  | MeEndpoint
  | CreateTaskEndpoint
  | ListTasksEndpoint
  | TaskScheduleEndpoint
  | RunTaskEndpoint
  | DeactivateTaskEndpoint
  | ActivateTaskEndpoint
  | DeleteTaskEndpoint
  | ListHistoryEndpoint
  | TaskHistoryEndpoint
  | ParseTriggerEndpoint

record route =
  ro_method :: string
  ro_path :: string
  ro_status :: int
  ro_endpoint :: endpoint
  ro_protected :: bool

text \<open>A decorator of a router; the status is 200 where none is given.\<close>

definition declared :: "string \<Rightarrow> string \<Rightarrow> int \<Rightarrow> endpoint \<Rightarrow> route" where
  "declared m path status e =
     \<lparr>ro_method = m, ro_path = path, ro_status = status, ro_endpoint = e, ro_protected = False\<rparr>"

definition health_route :: route where
  "health_route = declared ''GET'' ''/health'' 200 HealthEndpoint"

definition me_route :: route where
  "me_route = declared ''GET'' ''/me'' 200 MeEndpoint"

definition create_task_route :: route where
  "create_task_route = declared ''POST'' ''/tasks'' 201 CreateTaskEndpoint"

definition list_tasks_route :: route where
  "list_tasks_route = declared ''GET'' ''/tasks'' 200 ListTasksEndpoint"

definition get_task_schedule_route :: route where
  "get_task_schedule_route = declared ''GET'' ''/tasks/{task_id}/schedule'' 200 TaskScheduleEndpoint"

definition run_task_route :: route where
  "run_task_route = declared ''POST'' ''/tasks/{task_id}/run'' 200 RunTaskEndpoint"

definition deactivate_task_route :: route where
  "deactivate_task_route = declared ''POST'' ''/tasks/{task_id}/deactivate'' 200 DeactivateTaskEndpoint"

definition activate_task_route :: route where
  "activate_task_route = declared ''POST'' ''/tasks/{task_id}/activate'' 200 ActivateTaskEndpoint"

definition delete_task_route :: route where
  "delete_task_route = declared ''DELETE'' ''/tasks/{task_id}'' 204 DeleteTaskEndpoint"

definition list_history_route :: route where
  "list_history_route = declared ''GET'' ''/history'' 200 ListHistoryEndpoint"

definition list_task_history_route :: route where
  "list_task_history_route = declared ''GET'' ''/tasks/{task_id}/history'' 200 TaskHistoryEndpoint"

definition parse_trigger_route :: route where
  "parse_trigger_route = declared ''POST'' ''/triggers/parse'' 200 ParseTriggerEndpoint"

definition health_router :: "route list" where
  "health_router =
     [health_route]"

definition api_router :: "route list" where
  "api_router =
     [me_route]"

definition tasks_router :: "route list" where
  "tasks_router =
     [create_task_route, list_tasks_route, get_task_schedule_route, run_task_route, deactivate_task_route,
      activate_task_route, delete_task_route]"

definition history_router :: "route list" where
  "history_router =
     [list_history_route, list_task_history_route]"

definition trigger_parse_router :: "route list" where
  "trigger_parse_router =
     [parse_trigger_route]"

text \<open>Including a router puts a prefix before its paths; a router's dependencies are on all its routes.\<close>

definition include_router :: "string \<Rightarrow> route list \<Rightarrow> route list" where
  "include_router prefix rs = map (\<lambda>r. r\<lparr>ro_path := prefix @ ro_path r\<rparr>) rs"

definition with_protected_dependencies :: "route list \<Rightarrow> route list" where
  "with_protected_dependencies rs = map (\<lambda>r. r\<lparr>ro_protected := True\<rparr>) rs"

definition v1_router :: "route list" where
  "v1_router = with_protected_dependencies
     (include_router [] api_router @ include_router [] tasks_router @ include_router [] history_router
      @ include_router [] trigger_parse_router)"

definition app_routes :: "route list" where
  "app_routes = include_router [] health_router @ include_router ''/api/v1'' v1_router"

section \<open>Messages and the framework\<close>

text \<open>
  A message has the path that the routes are matched against, and the path of \<^verbatim>\<open>request.url\<close>, which
  the middleware looks at. The framework builds the second from the \<^verbatim>\<open>Host\<close> header and the first,
  so a client may send a header that makes them differ.
\<close>

record http_message =
  ms_method :: string
  ms_path :: string
  ms_url_path :: string
  ms_authorization :: "string option"
  ms_query :: string
  ms_body :: string

record framework =
  fw_page :: "http_message \<Rightarrow> bool"
  fw_matches :: "string \<Rightarrow> string \<Rightarrow> string list option"
  fw_unrouted :: "http_message \<Rightarrow> int"
  fw_content :: "http_message \<Rightarrow> unit result"
  fw_bearer :: "string option \<Rightarrow> unit result"
  fw_decode :: "endpoint \<Rightarrow> string list \<Rightarrow> http_message \<Rightarrow> api_request result"
  fw_ping :: "unit result"

definition seen_by_middleware :: "http_message \<Rightarrow> http_request" where
  "seen_by_middleware m = \<lparr>rq_path = ms_url_path m, rq_authorization = ms_authorization m\<rparr>"

text \<open>The routes are tried in their order, and the first that matches is taken, with its parameters.\<close>

fun find_route ::
  "(string \<Rightarrow> string \<Rightarrow> string list option) \<Rightarrow> route list \<Rightarrow> string \<Rightarrow> string \<Rightarrow> (route \<times> string list) option"
where
  "find_route mt [] m path = None"
| "find_route mt (r # rs) m path =
     (case (if ro_method r = m then mt (ro_path r) path else None) of
        None \<Rightarrow> find_route mt rs m path
      | Some ps \<Rightarrow> Some (r, ps))"

section \<open>The way of a message\<close>

text \<open>The handlers that declare \<^verbatim>\<open>Depends(get_current_user)\<close> themselves.\<close>

fun takes_user :: "endpoint \<Rightarrow> bool" where
  "takes_user MeEndpoint = True"
| "takes_user CreateTaskEndpoint = True"
| "takes_user RunTaskEndpoint = True"
| "takes_user DeactivateTaskEndpoint = True"
| "takes_user ActivateTaskEndpoint = True"
| "takes_user DeleteTaskEndpoint = True"
| "takes_user _ = False"

text \<open>
  The dependencies of a route, with what the middleware has left in the state of the request. A
  handler that takes no user gets none; its session has the user of the state all the same.
\<close>

definition solve_dependencies ::
  "framework \<Rightarrow> route \<Rightarrow> string option \<Rightarrow> string option \<Rightarrow> current_user result" where
  "solve_dependencies fw route authorization user_id =
     rbind (if ro_protected route then rbind (fw_bearer fw authorization) (\<lambda>_. get_current_user user_id)
            else Inr \<lparr>cu_user_id = []\<rparr>) (\<lambda>user.
     if takes_user (ro_endpoint route) then get_current_user user_id else Inr user)"

datatype response =
    ApiResponse answer
  | HealthResponse int health_status
  | PageResponse
  | UnroutedResponse int

definition run_endpoint ::
  "framework \<Rightarrow> 't app_env \<Rightarrow> route \<Rightarrow> string list \<Rightarrow> string option \<Rightarrow> http_message \<Rightarrow> 't app_state
     \<Rightarrow> (response \<times> 't app_state \<times> webhook_request list) option" where
  "run_endpoint fw env route ps user_id m st =
     (if ro_endpoint route = HealthEndpoint
      then let (status, h) = health (fw_ping fw) in Some (HealthResponse status h, st, [])
      else
        case rbind (fw_content fw m) (\<lambda>_.
             rbind (solve_dependencies fw route (ms_authorization m) user_id) (\<lambda>user.
             rbind (fw_decode fw (ro_endpoint route) ps m) (\<lambda>request. Inr (user, request)))) of
          Inl e \<Rightarrow> Some (ApiResponse (error_answer e), st, [])
        | Inr (user, request) \<Rightarrow>
            let cx = open_request_session (new_session (ap_bypass env) (ap_returning env)) user_id
            in map_option
                 (\<lambda>out. let (a, st') = finish_request env cx request st out
                        in (ApiResponse a, st', ho_sent out))
                 (run_handler env cx user request (st_db st)))"

definition serve ::
  "framework \<Rightarrow> 't app_env \<Rightarrow> http_message \<Rightarrow> 't app_state
     \<Rightarrow> (response \<times> 't app_state \<times> webhook_request list) option" where
  "serve fw env m st =
     (case auth_dispatch (ap_auth env) (pe_clock (ap_parse env) 0) (seen_by_middleware m) of
        Inl e \<Rightarrow> Some (ApiResponse (error_answer e), st, [])
      | Inr (Refused status detail) \<Rightarrow> Some (ApiResponse (ErrorAnswer status detail), st, [])
      | Inr (Passed user_id) \<Rightarrow>
          if fw_page fw m then Some (PageResponse, st, [])
          else
            (case find_route (fw_matches fw) app_routes (ms_method m) (ms_path m) of
               None \<Rightarrow> Some (UnroutedResponse (fw_unrouted fw m), st, [])
             | Some (route, ps) \<Rightarrow> run_endpoint fw env route ps user_id m st))"

section \<open>Paths\<close>

text \<open>The parts of a path between its slashes; a part in braces matches any part that is not empty.\<close>

fun segments :: "string \<Rightarrow> string list" where
  "segments [] = [[]]"
| "segments (c # cs) =
     (if c = CHR ''/'' then [] # segments cs
      else case segments cs of [] \<Rightarrow> [[c]] | s # ss \<Rightarrow> (c # s) # ss)"

fun match_segments :: "string list \<Rightarrow> string list \<Rightarrow> string list option" where
  "match_segments [] [] = Some []"
| "match_segments (p # pats) (s # ss) =
     (if is_prefix ''{'' p
      then if s = [] then None else map_option ((#) s) (match_segments pats ss)
      else if p = s then match_segments pats ss else None)"
| "match_segments _ _ = None"

fun fill_segments :: "string list \<Rightarrow> string list \<Rightarrow> string list" where
  "fill_segments [] vs = []"
| "fill_segments (p # pats) vs =
     (if is_prefix ''{'' p then (case vs of [] \<Rightarrow> p # pats | v # vs' \<Rightarrow> v # fill_segments pats vs')
      else p # fill_segments pats vs)"

fun join_segments :: "string list \<Rightarrow> string" where
  "join_segments [] = []"
| "join_segments [s] = s"
| "join_segments (s # ss) = s @ ''/'' @ join_segments ss"

definition path_params :: "string \<Rightarrow> string list" where
  "path_params pat = filter (is_prefix ''{'') (segments pat)"

definition fill_path :: "string \<Rightarrow> string list \<Rightarrow> string" where
  "fill_path pat vs = join_segments (fill_segments (segments pat) vs)"

definition one_line :: "string \<Rightarrow> bool" where
  "one_line s \<longleftrightarrow> CHR 0x0A \<notin> set s"

text \<open>
  The documented behaviour of the framework: a path parameter is a whole part of the path. (Its
  regular expressions end in \<^verbatim>\<open>$\<close>, so they also accept a line feed at the end of a path.)
\<close>

definition routing_ok :: "framework \<Rightarrow> bool" where
  "routing_ok fw \<longleftrightarrow>
     (\<forall>r \<in> set app_routes. \<forall>path. one_line path \<longrightarrow>
        fw_matches fw (ro_path r) path = match_segments (segments (ro_path r)) (segments path))"

fun endpoint_of :: "api_request \<Rightarrow> endpoint" where
  "endpoint_of MeRequest = MeEndpoint"
| "endpoint_of (CreateTaskRequest url parameters body) = CreateTaskEndpoint"
| "endpoint_of (ListTasksRequest query) = ListTasksEndpoint"
| "endpoint_of (TaskScheduleRequest task_id n) = TaskScheduleEndpoint"
| "endpoint_of (RunTaskRequest task_id) = RunTaskEndpoint"
| "endpoint_of (DeactivateTaskRequest task_id) = DeactivateTaskEndpoint"
| "endpoint_of (ActivateTaskRequest task_id) = ActivateTaskEndpoint"
| "endpoint_of (DeleteTaskRequest task_id) = DeleteTaskEndpoint"
| "endpoint_of (ListHistoryRequest query) = ListHistoryEndpoint"
| "endpoint_of (TaskHistoryRequest task_id query) = TaskHistoryEndpoint"
| "endpoint_of (ParseTriggerRequest text tz) = ParseTriggerEndpoint"

section \<open>Facts about paths\<close>

lemma segments_not_Nil [simp]: "segments s \<noteq> []"
  by (cases s) (auto split: list.splits)

lemma segments_plain: "CHR ''/'' \<notin> set s \<Longrightarrow> segments s = [s]"
  by (induction s) auto

lemma segments_append_slash: "CHR ''/'' \<notin> set s \<Longrightarrow> segments (s @ CHR ''/'' # t) = s # segments t"
  by (induction s) auto

lemma segments_join:
  "ss \<noteq> [] \<Longrightarrow> \<forall>s \<in> set ss. CHR ''/'' \<notin> set s \<Longrightarrow> segments (join_segments ss) = ss"
  by (induction ss rule: join_segments.induct) (auto simp: segments_plain segments_append_slash)

lemma segments_free: "s \<in> set (segments t) \<Longrightarrow> CHR ''/'' \<notin> set s"
  by (induction t arbitrary: s) (auto split: if_splits list.splits)

lemma segments_chars: "s \<in> set (segments t) \<Longrightarrow> set s \<subseteq> set t"
  by (induction t arbitrary: s) (fastforce split: if_splits list.splits)+

lemma join_chars: "set (join_segments ss) \<subseteq> {CHR ''/''} \<union> \<Union> (set ` set ss)"
  by (induction ss rule: join_segments.induct) auto

lemma fill_segments_set: "set (fill_segments pats vs) \<subseteq> set pats \<union> set vs"
  by (induction pats vs rule: fill_segments.induct) (auto split: list.splits)

lemma fill_segments_Nil: "fill_segments pats vs = [] \<longleftrightarrow> pats = []"
  by (cases pats) (auto split: list.splits)

lemma match_fill:
  "length vs = length (filter (is_prefix ''{'') pats) \<Longrightarrow> [] \<notin> set vs
    \<Longrightarrow> match_segments pats (fill_segments pats vs) = Some vs"
  by (induction pats vs rule: fill_segments.induct) (auto split: list.splits)

text \<open>Two patterns that some path matches both.\<close>

fun compatible :: "string list \<Rightarrow> string list \<Rightarrow> bool" where
  "compatible [] [] = True"
| "compatible (p # ps) (q # qs) = ((is_prefix ''{'' p \<or> is_prefix ''{'' q \<or> p = q) \<and> compatible ps qs)"
| "compatible _ _ = False"

lemma matched_compatible: "match_segments ps ss = Some vs \<Longrightarrow> match_segments qs ss = Some us \<Longrightarrow> compatible ps qs"
proof (induction ss arbitrary: ps qs vs us)
  case Nil
  then show ?case by (cases ps; cases qs) auto
next
  case (Cons s ss)
  then show ?case by (cases ps; cases qs) (auto split: if_splits)
qed

lemma app_routes_apart:
  "list_all (\<lambda>r. list_all (\<lambda>r'. r = r' \<or> ro_method r \<noteq> ro_method r'
     \<or> \<not> compatible (segments (ro_path r)) (segments (ro_path r'))) app_routes) app_routes"
  by code_simp

lemma app_route_unique:
  assumes "r \<in> set app_routes" "r' \<in> set app_routes" "ro_method r = ro_method r'"
    and "match_segments (segments (ro_path r)) ss = Some vs" "match_segments (segments (ro_path r')) ss = Some us"
  shows "r = r'"
  using app_routes_apart assms(1-3) matched_compatible [OF assms(4,5)] unfolding list_all_iff by blast

lemma find_route_Some:
  "find_route mt rs m path = Some (r, ps) \<Longrightarrow> r \<in> set rs \<and> ro_method r = m \<and> mt (ro_path r) path = Some ps"
  by (induction rs) (auto split: option.splits if_splits)

lemma find_route_None:
  "find_route mt rs m path = None \<Longrightarrow> r \<in> set rs \<Longrightarrow> ro_method r = m \<Longrightarrow> mt (ro_path r) path = None"
  by (induction rs) (auto split: option.splits if_splits)

lemma find_app_route:
  assumes "routing_ok fw" "one_line path"
  shows "find_route (fw_matches fw) app_routes m path = Some (r, ps) \<longleftrightarrow>
    r \<in> set app_routes \<and> ro_method r = m \<and> match_segments (segments (ro_path r)) (segments path) = Some ps"
proof -
  have mt: "fw_matches fw (ro_path r) path = match_segments (segments (ro_path r)) (segments path)"
    if "r \<in> set app_routes" for r
    using assms that by (simp add: routing_ok_def)
  show ?thesis
  proof
    assume "find_route (fw_matches fw) app_routes m path = Some (r, ps)"
    then show "r \<in> set app_routes \<and> ro_method r = m
        \<and> match_segments (segments (ro_path r)) (segments path) = Some ps"
      using mt find_route_Some [of _ app_routes m path r ps] by auto
  next
    assume r: "r \<in> set app_routes \<and> ro_method r = m
      \<and> match_segments (segments (ro_path r)) (segments path) = Some ps"
    then obtain r' ps' where f: "find_route (fw_matches fw) app_routes m path = Some (r', ps')"
      using mt find_route_None [of "fw_matches fw" app_routes m path r]
      by (cases "find_route (fw_matches fw) app_routes m path") auto
    then have "r' \<in> set app_routes" "ro_method r' = m"
      "match_segments (segments (ro_path r')) (segments path) = Some ps'"
      using mt find_route_Some [of _ app_routes m path r' ps'] by auto
    moreover from this have "r' = r" using r app_route_unique [of r' r] by auto
    ultimately show "find_route (fw_matches fw) app_routes m path = Some (r, ps)" using f r by simp
  qed
qed

lemma fill_path_segments:
  assumes "\<forall>v \<in> set vs. CHR ''/'' \<notin> set v"
  shows "segments (fill_path pat vs) = fill_segments (segments pat) vs"
  unfolding fill_path_def
  by (rule segments_join)
    (use assms fill_segments_set [of "segments pat" vs] segments_free [of _ pat] in
      \<open>auto simp: fill_segments_Nil\<close>)

lemma fill_path_one_line:
  assumes "\<forall>v \<in> set vs. one_line v" "one_line pat"
  shows "one_line (fill_path pat vs)"
proof -
  have "one_line s" if "s \<in> set (fill_segments (segments pat) vs)" for s
    using that fill_segments_set [of "segments pat" vs] segments_chars [of s pat] assms
    by (auto simp: one_line_def)
  then show ?thesis
    using join_chars [of "fill_segments (segments pat) vs"] by (auto simp: one_line_def fill_path_def)
qed

lemma app_routes_one_line: "list_all (\<lambda>r. one_line (ro_path r)) app_routes"
  by code_simp

lemma own_address_found:
  assumes "routing_ok fw" "r \<in> set app_routes" "length vs = length (path_params (ro_path r))"
    and "\<forall>v \<in> set vs. v \<noteq> [] \<and> CHR ''/'' \<notin> set v \<and> one_line v"
  shows "find_route (fw_matches fw) app_routes (ro_method r) (fill_path (ro_path r) vs) = Some (r, vs)"
proof -
  have "one_line (ro_path r)" using app_routes_one_line assms(2) by (simp add: list_all_iff)
  then have "one_line (fill_path (ro_path r) vs)" using fill_path_one_line [of vs] assms(4) by blast
  moreover have "match_segments (segments (ro_path r)) (segments (fill_path (ro_path r) vs)) = Some vs"
    using fill_path_segments [of vs "ro_path r"] match_fill [of vs "segments (ro_path r)"] assms(3,4)
    by (auto simp: path_params_def)
  ultimately show ?thesis using find_app_route [OF assms(1)] assms(2) by blast
qed

section \<open>Facts about requests\<close>

lemma app_routes_protected:
  "list_all (\<lambda>r. ro_endpoint r = HealthEndpoint \<or> ro_protected r) app_routes"
  by code_simp

lemma app_routes_status:
  "list_all (\<lambda>r. ro_status r = (case ro_endpoint r of CreateTaskEndpoint \<Rightarrow> 201 | DeleteTaskEndpoint \<Rightarrow> 204
     | _ \<Rightarrow> 200)) app_routes"
  by code_simp

lemma success_status_endpoint:
  "success_status request = (case endpoint_of request of CreateTaskEndpoint \<Rightarrow> 201 | DeleteTaskEndpoint \<Rightarrow> 204
     | _ \<Rightarrow> 200)"
  by (cases request) (simp_all add: success_status_def)

lemma get_current_user_Inr: "get_current_user uid = Inr user \<longleftrightarrow> uid = Some (cu_user_id user) \<and> cu_user_id user \<noteq> []"
  by (cases user) (auto simp: get_current_user_def split: option.splits)

lemma solve_protected:
  assumes "ro_protected route"
  shows "solve_dependencies fw route authorization uid = Inr user \<longleftrightarrow>
    fw_bearer fw authorization = Inr () \<and> get_current_user uid = Inr user"
  using assms by (auto simp: solve_dependencies_def rbind_eq_Inr)

text \<open>A user in the state of the request comes from the token.\<close>

lemma dispatched_token:
  assumes "auth_dispatch env now http = Inr (Passed (Some u))"
  shows "rq_path http \<notin> PUBLIC_PATHS"
    "\<exists>token payload. rq_authorization http = Some (''Bearer '' @ token)
       \<and> decode_token (ae_lib env) now token (ae_settings env) = Inr payload
       \<and> json_true (ae_values env) (dict_get payload ''sub'' JNull)
       \<and> u = json_str (ae_values env) (dict_get payload ''sub'' JNull)"
  using assms
  by (auto simp: auth_dispatch_def Let_def is_prefix_iff split: if_splits option.splits sum.splits)

lemma error_answer_neq [simp]: "error_answer e \<noteq> Answer status body"
  by (cases e) simp_all

lemma session_of_user:
  "open_request_session (new_session (ap_bypass env) (ap_returning env)) (Some (cu_user_id user))
     = request_session env user"
  by (simp add: request_session_def)

text \<open>A message that runs a handler of the table is a request of the user of its token.\<close>

lemma run_protected_endpoint:
  assumes "auth_dispatch (ap_auth env) (pe_clock (ap_parse env) 0) (seen_by_middleware m) = Inr (Passed uid)"
    and "ro_protected route" "ro_endpoint route \<noteq> HealthEndpoint"
    and "fw_content fw m = Inr ()" "solve_dependencies fw route (ms_authorization m) uid = Inr user"
    and "fw_decode fw (ro_endpoint route) ps m = Inr request"
  shows "run_endpoint fw env route ps uid m st
      = map_option (\<lambda>(a, st', sent). (ApiResponse a, st', sent)) (handle_request env (seen_by_middleware m) request st)"
    and "\<exists>u. uid = Some u"
proof -
  have uid: "uid = Some (cu_user_id user)" "get_current_user uid = Inr user"
    using assms(2,5) by (simp_all add: solve_protected get_current_user_Inr)
  have "authenticate (ap_auth env) (pe_clock (ap_parse env) 0) (seen_by_middleware m) = Inr user"
    using assms(1) uid(2) by (simp add: authenticate_def)
  then show "run_endpoint fw env route ps uid m st
      = map_option (\<lambda>(a, st', sent). (ApiResponse a, st', sent)) (handle_request env (seen_by_middleware m) request st)"
    using assms(3-6) session_of_user [of env user]
    by (simp add: run_endpoint_def handle_request_def uid(1) option.map_comp comp_def split_def Let_def)
  show "\<exists>u. uid = Some u" using uid by blast
qed

section \<open>Properties\<close>

text \<open>
  (C4) No handler of the API without a token. Whatever the path that the middleware sees, which a
  client can make a public one by its \<^verbatim>\<open>Host\<close> header, a message that changes the state, sends a
  webhook, or is answered with the result of a handler carries a bearer token that decodes, with a
  \<^verbatim>\<open>sub\<close> that is true; and what it does is what its request does for the user of that token.
\<close>

theorem protected_needs_token:
  assumes "serve fw env m st = Some (a, st', sent)"
    and "st' \<noteq> st \<or> sent \<noteq> [] \<or> (\<exists>status body. a = ApiResponse (Answer status body))"
  shows "\<exists>token payload route ps request b.
      ms_authorization m = Some (''Bearer '' @ token)
    \<and> decode_token (ae_lib (ap_auth env)) (pe_clock (ap_parse env) 0) token (ae_settings (ap_auth env)) = Inr payload
    \<and> json_true (ae_values (ap_auth env)) (dict_get payload ''sub'' JNull)
    \<and> ms_url_path m \<notin> PUBLIC_PATHS
    \<and> find_route (fw_matches fw) app_routes (ms_method m) (ms_path m) = Some (route, ps)
    \<and> fw_decode fw (ro_endpoint route) ps m = Inr request
    \<and> a = ApiResponse b \<and> handle_request env (seen_by_middleware m) request st = Some (b, st', sent)"
proof -
  let ?gate = "auth_dispatch (ap_auth env) (pe_clock (ap_parse env) 0) (seen_by_middleware m)"
  obtain uid route ps where gate: "?gate = Inr (Passed uid)"
    and route: "find_route (fw_matches fw) app_routes (ms_method m) (ms_path m) = Some (route, ps)"
    and run: "run_endpoint fw env route ps uid m st = Some (a, st', sent)"
    using assms unfolding serve_def by (auto split: sum.splits gate.splits if_splits option.splits prod.splits)
  have "route \<in> set app_routes" using find_route_Some [OF route] by blast
  then have prot: "ro_endpoint route = HealthEndpoint \<or> ro_protected route"
    using app_routes_protected by (simp add: list_all_iff)
  have health: "ro_endpoint route \<noteq> HealthEndpoint"
    using run assms(2) by (auto simp: run_endpoint_def split: prod.splits)
  then obtain user request where parts: "fw_content fw m = Inr ()"
    "solve_dependencies fw route (ms_authorization m) uid = Inr user"
    "fw_decode fw (ro_endpoint route) ps m = Inr request"
    using run assms(2) by (auto simp: run_endpoint_def rbind_def split: sum.splits prod.splits)
  note handled = run_protected_endpoint [OF gate _ health parts]
  obtain u where u: "uid = Some u" using handled(2) prot health by blast
  obtain b where b: "a = ApiResponse b" "handle_request env (seen_by_middleware m) request st = Some (b, st', sent)"
    using handled(1) prot health run by auto
  show ?thesis
    using dispatched_token [OF gate [unfolded u]] route parts(3) b
    by (simp add: seen_by_middleware_def) blast
qed

text \<open>
  (C21) Every route of the table is reached by its own address: the path of a route with its
  parameters filled in, each any part without a slash, resolves to that route and gives back the
  parameters, in spite of the routes before it; and no two routes, nor two lists of parameters,
  have an address with the same method in common.
\<close>

theorem url_reaches_endpoint:
  assumes "routing_ok fw" "r \<in> set app_routes" "length vs = length (path_params (ro_path r))"
    and "\<forall>v \<in> set vs. v \<noteq> [] \<and> CHR ''/'' \<notin> set v \<and> one_line v"
  shows "find_route (fw_matches fw) app_routes (ro_method r) (fill_path (ro_path r) vs) = Some (r, vs)
    \<and> (\<forall>r' \<in> set app_routes. \<forall>us. length us = length (path_params (ro_path r'))
         \<and> (\<forall>v \<in> set us. v \<noteq> [] \<and> CHR ''/'' \<notin> set v \<and> one_line v)
         \<and> ro_method r' = ro_method r \<and> fill_path (ro_path r') us = fill_path (ro_path r) vs
         \<longrightarrow> r' = r \<and> us = vs)"
proof (intro conjI ballI allI impI)
  show found: "find_route (fw_matches fw) app_routes (ro_method r) (fill_path (ro_path r) vs) = Some (r, vs)"
    by (rule own_address_found [OF assms])
  fix r' us assume r': "r' \<in> set app_routes"
    and h: "length us = length (path_params (ro_path r'))
      \<and> (\<forall>v \<in> set us. v \<noteq> [] \<and> CHR ''/'' \<notin> set v \<and> one_line v)
      \<and> ro_method r' = ro_method r \<and> fill_path (ro_path r') us = fill_path (ro_path r) vs"
  from own_address_found [OF assms(1) r', of us] h
  have "find_route (fw_matches fw) app_routes (ro_method r) (fill_path (ro_path r) vs) = Some (r', us)" by simp
  with found show "r' = r" "us = vs" by simp_all
qed

text \<open>
  (C20) The message is the request: with a token of a user, a body that can be read and parameters
  that decode, a message to the address of a route does exactly what the decoded request does as
  one step of the service, and it is answered with the status of the route's decorator when the
  handler succeeds.
\<close>

theorem message_is_request:
  assumes "routing_ok fw" "r \<in> set app_routes" "ro_endpoint r \<noteq> HealthEndpoint"
    and "length vs = length (path_params (ro_path r))"
    and "\<forall>v \<in> set vs. v \<noteq> [] \<and> CHR ''/'' \<notin> set v \<and> one_line v"
    and "ms_method m = ro_method r" "ms_path m = fill_path (ro_path r) vs"
    and "authenticate (ap_auth env) (pe_clock (ap_parse env) 0) (seen_by_middleware m) = Inr user"
    and "\<not> fw_page fw m" "fw_content fw m = Inr ()" "fw_bearer fw (ms_authorization m) = Inr ()"
    and "fw_decode fw (ro_endpoint r) vs m = Inr request" "endpoint_of request = ro_endpoint r"
  shows "serve fw env m st
      = map_option (\<lambda>(a, st', sent). (ApiResponse a, st', sent)) (handle_request env (seen_by_middleware m) request st)
    \<and> success_status request = ro_status r"
proof
  obtain uid where gate: "auth_dispatch (ap_auth env) (pe_clock (ap_parse env) 0) (seen_by_middleware m) = Inr (Passed uid)"
    and user: "get_current_user uid = Inr user"
    using assms(8) unfolding authenticate_def rbind_eq_Inr by (force split: gate.splits)
  have prot: "ro_protected r" using app_routes_protected assms(2,3) by (auto simp: list_all_iff)
  have "find_route (fw_matches fw) app_routes (ms_method m) (ms_path m) = Some (r, vs)"
    using own_address_found [OF assms(1,2,4,5)] assms(6,7) by simp
  then have "serve fw env m st = run_endpoint fw env r vs uid m st"
    using gate assms(9) by (simp add: serve_def)
  moreover have "solve_dependencies fw r (ms_authorization m) uid = Inr user"
    using prot user assms(11) by (simp add: solve_protected)
  ultimately show "serve fw env m st
      = map_option (\<lambda>(a, st', sent). (ApiResponse a, st', sent)) (handle_request env (seen_by_middleware m) request st)"
    using run_protected_endpoint(1) [OF gate prot assms(3,10) _ assms(12)] by simp
  show "success_status request = ro_status r"
    using app_routes_status assms(2,13) success_status_endpoint [of request] by (simp add: list_all_iff)
qed

section \<open>Witnesses\<close>

text \<open>
  A framework that matches part by part, has no pages of its own, and decodes the parameters of two
  routes.
\<close>

definition demo_framework :: framework where
  "demo_framework =
     \<lparr>fw_page = (\<lambda>_. False),
      fw_matches = (\<lambda>pat path. match_segments (segments pat) (segments path)),
      fw_unrouted = (\<lambda>_. 404), fw_content = (\<lambda>_. Inr ()),
      fw_bearer = (\<lambda>h. if h = None then Inl (HTTPException 401 ''Not authenticated'') else Inr ()),
      fw_decode = (\<lambda>e ps m.
        if e = MeEndpoint then Inr MeRequest
        else if e = DeleteTaskEndpoint then rbind (uuid_parse (hd ps)) (\<lambda>i. Inr (DeleteTaskRequest i))
        else Inl (HTTPException 422 ''Unprocessable'')),
      fw_ping = Inr ()\<rparr>"

lemma demo_routing_ok: "routing_ok demo_framework"
  by (simp add: routing_ok_def demo_framework_def)

definition demo_message :: "string \<Rightarrow> string \<Rightarrow> http_message" where
  "demo_message mt path =
     \<lparr>ms_method = mt, ms_path = path, ms_url_path = path, ms_authorization = Some ''Bearer token 1'',
      ms_query = [], ms_body = []\<rparr>"

definition v1_me :: route where
  "v1_me = me_route\<lparr>ro_path := ''/api/v1/me'', ro_protected := True\<rparr>"

definition v1_delete :: route where
  "v1_delete = delete_task_route\<lparr>ro_path := ''/api/v1/tasks/{task_id}'', ro_protected := True\<rparr>"

lemma demo_routes: "v1_me \<in> set app_routes" "v1_delete \<in> set app_routes"
  by code_simp+

lemma demo_params: "path_params (ro_path v1_me) = []" "length (path_params (ro_path v1_delete)) = 1"
  "fill_path (ro_path v1_me) [] = ''/api/v1/me''" "fill_path (ro_path v1_delete) [v] = ''/api/v1/tasks/'' @ v"
  by (simp_all add: path_params_def fill_path_def v1_me_def me_route_def v1_delete_def delete_task_route_def declared_def)

lemma demo_route_simps [simp]:
  "ro_method v1_me = ''GET''" "ro_endpoint v1_me = MeEndpoint" "ro_protected v1_me"
  "ro_method v1_delete = ''DELETE''" "ro_endpoint v1_delete = DeleteTaskEndpoint" "ro_protected v1_delete"
  "ro_status v1_delete = 204"
  by (simp_all add: v1_me_def me_route_def v1_delete_def delete_task_route_def declared_def)

lemma demo_segment: "uuid_str 2 \<noteq> [] \<and> CHR ''/'' \<notin> set (uuid_str 2) \<and> one_line (uuid_str 2)"
  by code_simp

lemma demo_gate:
  assumes "path \<notin> PUBLIC_PATHS"
  shows "auth_dispatch (ap_auth (demo_app b)) (pe_clock (ap_parse (demo_app b)) 0) (seen_by_middleware (demo_message mt path))
    = Inr (Passed (Some ''user-1''))"
proof -
  have "decode_token demo_jwt frozen_time ''token 1'' (ae_settings demo_auth)
      = Inr [(''sub'', JStr ''user-1''), (''task_id'', JStr ''1''), (''purpose'', JStr ''webhook'')]"
    by (simp add: decode_token_def demo_jwt_def)
  then show ?thesis
    using assms
    by (simp add: auth_dispatch_def demo_message_def seen_by_middleware_def dict_get_def Let_def demo_auth_def)
qed

lemma protected_needs_token_witness:
  "\<exists>token. ms_authorization (demo_message ''GET'' ''/api/v1/me'') = Some (''Bearer '' @ token)
    \<and> ''/api/v1/me'' \<notin> PUBLIC_PATHS"
proof -
  let ?m = "demo_message ''GET'' ''/api/v1/me''"
  have public: "''/api/v1/me'' \<notin> PUBLIC_PATHS" by (simp add: PUBLIC_PATHS_def)
  have "find_route (fw_matches demo_framework) app_routes ''GET'' ''/api/v1/me'' = Some (v1_me, [])"
    using own_address_found [OF demo_routing_ok demo_routes(1), of "[]"] by (simp add: demo_params)
  then have "serve demo_framework (demo_app True) ?m (demo_state demo_task)
      = Some (ApiResponse (Answer 200 (MeBody ''user-1'')), demo_state demo_task, [])"
    using demo_gate [OF public, of True "''GET''"]
    by (simp add: serve_def run_endpoint_def demo_framework_def demo_message_def solve_dependencies_def
        get_current_user_def run_handler_def handler_reads_def finish_request_def success_status_def me_def
        apply_writes_def demo_state_def)
  from protected_needs_token [OF this] show ?thesis using public by fastforce
qed

lemma url_reaches_endpoint_witness:
  "find_route (fw_matches demo_framework) app_routes ''DELETE'' (''/api/v1/tasks/'' @ uuid_str 2)
     = Some (v1_delete, [uuid_str 2])"
  using url_reaches_endpoint [OF demo_routing_ok demo_routes(2), of "[uuid_str 2]"] demo_segment
  by (simp add: demo_params)

lemma message_is_request_witness:
  "\<exists>a st' sent. serve demo_framework (demo_app True) (demo_message ''DELETE'' (''/api/v1/tasks/'' @ uuid_str 2))
       (demo_state foreign_task) = Some (ApiResponse a, st', sent)
     \<and> success_status (DeleteTaskRequest 2) = 204"
proof -
  let ?path = "''/api/v1/tasks/'' @ uuid_str 2"
  let ?m = "demo_message ''DELETE'' ?path"
  have "?path \<notin> PUBLIC_PATHS" by (simp add: PUBLIC_PATHS_def)
  then have auth: "authenticate (ap_auth (demo_app True)) (pe_clock (ap_parse (demo_app True)) 0) (seen_by_middleware ?m)
      = Inr demo_user"
    using demo_gate [of ?path True "''DELETE''"] by (simp add: authenticate_def get_current_user_def demo_user_def)
  have served: "serve demo_framework (demo_app True) ?m (demo_state foreign_task)
      = map_option (\<lambda>(a, st', sent). (ApiResponse a, st', sent))
          (handle_request (demo_app True) (seen_by_middleware ?m) (DeleteTaskRequest 2) (demo_state foreign_task))
    \<and> success_status (DeleteTaskRequest 2) = ro_status v1_delete"
    by (rule message_is_request [OF demo_routing_ok demo_routes(2) _ _ _ _ _ auth, of "[uuid_str 2]"])
      (use demo_segment in \<open>simp_all add: demo_params demo_message_def demo_framework_def uuid_parse_str\<close>)
  obtain a st' sent where "handle_request (demo_app True) (seen_by_middleware ?m) (DeleteTaskRequest 2)
      (demo_state foreign_task) = Some (a, st', sent)"
    using demo_total by blast
  then show ?thesis using served by simp
qed

end
