(* ===== verification/Migration_Runs.thy ===== *)
theory Migration_Runs
  imports Migrations
begin

text \<open>
  What \<^verbatim>\<open>app/db/migrations.py\<close> and \<^verbatim>\<open>alembic/env.py\<close> do with engines, connections and transactions
  when migrations run. Connecting, running the scripts and reading the revision of a database are
  the record \<open>alembic_lib\<close>.
\<close>

section \<open>The drivers\<close>

record alembic_lib =
  al_connect :: "string \<Rightarrow> unit result"
  al_upgrade :: "string \<Rightarrow> unit result"
  al_revision :: "string \<Rightarrow> string option result"
  al_script :: "string \<Rightarrow> unit result"
  al_head :: "string option"

datatype migration_event =
    MakeEngine string
  | OpenConnection
  | BeginTransaction
  | CommitTransaction
  | RollbackTransaction
  | CloseConnection
  | DisposeEngine
  | WriteScript string

text \<open>\<^verbatim>\<open>async with engine.connect() as conn: body\<close>, on a new engine\<close>

definition with_connection ::
  "alembic_lib \<Rightarrow> string \<Rightarrow> 'a result \<times> migration_event list \<Rightarrow> 'a result \<times> migration_event list" where
  "with_connection lib url body =
     (case al_connect lib url of
        Inl e \<Rightarrow> (Inl e, [MakeEngine url])
      | Inr _ \<Rightarrow> (fst body, [MakeEngine url, OpenConnection] @ snd body @ [CloseConnection]))"

definition in_transaction :: "unit result \<Rightarrow> unit result \<times> migration_event list" where
  "in_transaction r =
     (r, [BeginTransaction, (case r of Inl e \<Rightarrow> RollbackTransaction | Inr _ \<Rightarrow> CommitTransaction)])"

text \<open>The engine is disposed of in a \<^verbatim>\<open>finally\<close>.\<close>

definition get_current_revision :: "alembic_lib \<Rightarrow> string \<Rightarrow> string option result \<times> migration_event list" where
  "get_current_revision lib url =
     (let (r, events) = with_connection lib url (al_revision lib url, [])
      in (r, events @ [DisposeEngine]))"

definition do_run_migrations :: "alembic_lib \<Rightarrow> string \<Rightarrow> unit result \<times> migration_event list" where
  "do_run_migrations lib url = in_transaction (al_upgrade lib url)"

text \<open>The engine is disposed of after the block of its connection.\<close>

definition run_async_migrations :: "alembic_lib \<Rightarrow> string \<Rightarrow> unit result \<times> migration_event list" where
  "run_async_migrations lib url =
     (let (r, events) = with_connection lib url (do_run_migrations lib url)
      in case r of
           Inl e \<Rightarrow> (Inl e, events)
         | Inr _ \<Rightarrow> (Inr (), events @ [DisposeEngine]))"

text \<open>Without a database: the statements are written out, for the dialect of the address.\<close>

definition run_migrations_offline :: "alembic_lib \<Rightarrow> string \<Rightarrow> unit result \<times> migration_event list" where
  "run_migrations_offline lib url =
     (let (r, events) = in_transaction (al_script lib url) in (r, WriteScript url # events))"

definition env_module ::
  "alembic_lib \<Rightarrow> bool \<Rightarrow> database_settings \<Rightarrow> database_settings option \<Rightarrow> unit result \<times> migration_event list"
where
  "env_module lib offline_mode from_env override =
     (if offline_mode then run_migrations_offline lib (get_url override from_env)
      else run_async_migrations lib (get_url override from_env))"

text \<open>
  \<^verbatim>\<open>run_migrations\<close> with these drivers: alembic runs the module of the environment, in the context
  of the settings that are passed, and then the revision of the database is compared with the head.
\<close>

definition migrate_database ::
  "alembic_lib \<Rightarrow> database_settings \<Rightarrow> database_settings \<Rightarrow> database_settings option
     \<Rightarrow> (unit result \<times> database_settings option) \<times> migration_event list" where
  "migrate_database lib from_env db var =
     (run_migrations (\<lambda>url. fst (run_async_migrations lib url)) (\<lambda>url. fst (get_current_revision lib url))
        (al_head lib) from_env db var,
      let (r, events) = env_module lib False from_env (Some db)
      in case r of
           Inl e \<Rightarrow> events
         | Inr _ \<Rightarrow> events @ snd (get_current_revision lib (async_url db)))"

lemmas run_defs = migrate_database_def run_migrations_def use_db_settings_def get_url_def env_module_def
  run_async_migrations_def get_current_revision_def with_connection_def do_run_migrations_def in_transaction_def

text \<open>
  The address is put together without quoting, so two different settings may have the same one:
  the end of one password is the beginning of the other's host.
\<close>

lemma async_url_not_injective:
  "async_url ((default_database_settings ''u'' ''p@h'' ''d'')\<lparr>dbs_host := ''k''\<rparr>)
     = async_url ((default_database_settings ''u'' ''p'' ''d'')\<lparr>dbs_host := ''h@k''\<rparr>)"
  by (simp add: async_url_def default_database_settings_def)

section \<open>Properties\<close>

text \<open>
  (C35) A run of the migrations: it works at the address of the settings that are passed, whatever
  the environment says, and leaves the override of its caller as it was. It succeeds exactly when
  the database can be reached, the scripts run, and the database is then at the head. The scripts
  run in one transaction, which is committed exactly when they succeed; every connection that was
  opened is closed; and every engine is disposed of, but for the one of a run that fails before
  its scripts are through.
\<close>

theorem migration_run:
  assumes "migrate_database lib from_env db var = ((r, var'), events)"
  shows "var' = var
    \<and> (r = Inr () \<longleftrightarrow> al_connect lib (async_url db) = Inr () \<and> al_upgrade lib (async_url db) = Inr ()
         \<and> al_revision lib (async_url db) = Inr (al_head lib))
    \<and> (\<forall>url. MakeEngine url \<in> set events \<longrightarrow> url = async_url db)
    \<and> (CommitTransaction \<in> set events \<longleftrightarrow>
         al_connect lib (async_url db) = Inr () \<and> al_upgrade lib (async_url db) = Inr ())
    \<and> length (filter (\<lambda>e. e = OpenConnection) events) = length (filter (\<lambda>e. e = CloseConnection) events)
    \<and> length (filter (\<lambda>e. e = MakeEngine (async_url db)) events)
        = length (filter (\<lambda>e. e = DisposeEngine) events)
          + (if al_connect lib (async_url db) = Inr () \<and> al_upgrade lib (async_url db) = Inr () then 0 else 1)"
proof (cases "al_connect lib (async_url db)")
  case (Inl e)
  then show ?thesis using assms by (auto simp: run_defs)
next
  case connected: (Inr u)
  show ?thesis
  proof (cases "al_upgrade lib (async_url db)")
    case (Inl e)
    then show ?thesis using assms connected by (auto simp: run_defs)
  next
    case (Inr v)
    then show ?thesis
      using assms connected
      by (cases "al_revision lib (async_url db)") (auto simp: run_defs split: if_splits)
  qed
qed

section \<open>A witness\<close>

definition demo_alembic :: alembic_lib where
  "demo_alembic =
     \<lparr>al_connect = (\<lambda>_. Inr ()), al_upgrade = (\<lambda>_. Inl (DatabaseError ''relation already exists'')),
      al_revision = (\<lambda>_. Inr None), al_script = (\<lambda>_. Inr ()), al_head = Some ''b2c3d4e5f6a7''\<rparr>"

text \<open>A database with tables of its own: the transaction is rolled back, and the engine is left.\<close>

lemma migration_run_witness:
  "\<exists>events. migrate_database demo_alembic (default_database_settings ''u'' ''p'' ''d'')
       (default_database_settings ''u'' ''p'' ''d'') None
       = ((Inl (DatabaseError ''relation already exists''), None), events)
     \<and> CommitTransaction \<notin> set events \<and> DisposeEngine \<notin> set events"
proof -
  let ?db = "default_database_settings ''u'' ''p'' ''d''"
  obtain events where run: "migrate_database demo_alembic ?db ?db None
      = ((Inl (DatabaseError ''relation already exists''), None), events)"
    by (simp add: run_defs demo_alembic_def)
  have none: "DisposeEngine \<notin> set events"
    using run by (auto simp: run_defs demo_alembic_def)
  then show ?thesis using migration_run [OF run] run by (simp add: demo_alembic_def)
qed

end
