(* ===== verification/Configuration.thy ===== *)
theory Configuration
  imports Http_Routing Migration_Runs
begin

text \<open>
  The settings of \<^verbatim>\<open>app/config/settings.py\<close> as they are read from the environment, the logging of
  \<^verbatim>\<open>app/logging.py\<close> with what it uses of the standard library, and what importing \<^verbatim>\<open>app/main.py\<close> does. A variable is looked up in the
  environment of the process and then in the file \<^verbatim>\<open>.env\<close>, by its name in lower case, which is what
  pydantic-settings documents; its reading of numbers and truth values is the record
  \<open>field_types\<close>. The variables \<^verbatim>\<open>APP\<close>, \<^verbatim>\<open>AUTH\<close>, \<^verbatim>\<open>LOG\<close>, \<^verbatim>\<open>DB\<close>, \<^verbatim>\<open>SCHEDULER\<close> and \<^verbatim>\<open>LLM\<close>, each a whole
  section as JSON, are taken to be unset.
\<close>

section \<open>Sections\<close>

datatype log_level = LOG_DEBUG | LOG_INFO | LOG_WARNING | LOG_ERROR | LOG_CRITICAL

fun log_level_value :: "log_level \<Rightarrow> string" where
  "log_level_value LOG_DEBUG = ''DEBUG''"
| "log_level_value LOG_INFO = ''INFO''"
| "log_level_value LOG_WARNING = ''WARNING''"
| "log_level_value LOG_ERROR = ''ERROR''"
| "log_level_value LOG_CRITICAL = ''CRITICAL''"

definition log_level_member :: "string \<Rightarrow> log_level option" where
  "log_level_member s =
     find (\<lambda>l. log_level_value l = s) [LOG_DEBUG, LOG_INFO, LOG_WARNING, LOG_ERROR, LOG_CRITICAL]"

record app_settings =
  app_name :: string
  app_debug :: bool

record log_settings =
  ls_level :: log_level
  ls_format :: string

record settings =
  set_app :: app_settings
  set_auth :: auth_settings
  set_log :: log_settings
  set_db :: database_settings
  set_scheduler :: scheduler_settings
  set_llm :: llm_settings

section \<open>Reading the environment\<close>

record field_types =
  ft_int :: "string \<Rightarrow> int option"
  ft_float :: "string \<Rightarrow> string option"
  ft_bool :: "string \<Rightarrow> bool option"

type_synonym environ = "string \<Rightarrow> string option"

definition with_env_file :: "environ \<Rightarrow> environ \<Rightarrow> environ" where
  "with_env_file process env_file = (\<lambda>name. case process name of None \<Rightarrow> env_file name | Some v \<Rightarrow> Some v)"

text \<open>A field with a default, or without one, and the prefix of its section.\<close>

definition read_field ::
  "(string \<Rightarrow> 'a option) \<Rightarrow> 'a option \<Rightarrow> environ \<Rightarrow> string \<Rightarrow> string \<Rightarrow> 'a result" where
  "read_field parse dflt env env_prefix name =
     (case env (py_lower (env_prefix @ name)) of
        None \<Rightarrow>
          (case dflt of
             None \<Rightarrow> Inl (ValidationError ''Field required'')
           | Some d \<Rightarrow> Inr d)
      | Some s \<Rightarrow>
          (case parse s of
             None \<Rightarrow> Inl (ValidationError ''Input should be valid'')
           | Some x \<Rightarrow> Inr x))"

definition read_app_settings :: "field_types \<Rightarrow> environ \<Rightarrow> app_settings result" where
  "read_app_settings ft env =
     rbind (read_field Some (Some ''schedulerlm'') env ''APP_'' ''name'') (\<lambda>name.
     rbind (read_field (ft_bool ft) (Some False) env ''APP_'' ''debug'') (\<lambda>debug.
     Inr \<lparr>app_name = name, app_debug = debug\<rparr>))"

definition read_auth_settings :: "environ \<Rightarrow> auth_settings result" where
  "read_auth_settings env =
     rbind (read_field Some None env ''AUTH_'' ''jwt_secret'') (\<lambda>secret.
     rbind (read_field Some (Some ''HS256'') env ''AUTH_'' ''jwt_algorithm'') (\<lambda>algorithm.
     Inr \<lparr>as_jwt_secret = secret, as_jwt_algorithm = algorithm\<rparr>))"

definition read_log_settings :: "environ \<Rightarrow> log_settings result" where
  "read_log_settings env =
     rbind (read_field log_level_member (Some LOG_INFO) env ''LOG_'' ''level'') (\<lambda>level.
     rbind (read_field Some (Some ''%(asctime)s %(levelname)s [%(name)s] %(message)s'') env ''LOG_'' ''format'') (\<lambda>fmt.
     Inr \<lparr>ls_level = level, ls_format = fmt\<rparr>))"

definition read_database_settings :: "field_types \<Rightarrow> environ \<Rightarrow> database_settings result" where
  "read_database_settings ft env =
     rbind (read_field Some (Some ''localhost'') env ''DB_'' ''host'') (\<lambda>host.
     rbind (read_field (ft_int ft) (Some 5432) env ''DB_'' ''port'') (\<lambda>port.
     rbind (read_field Some None env ''DB_'' ''user'') (\<lambda>user.
     rbind (read_field Some None env ''DB_'' ''password'') (\<lambda>password.
     rbind (read_field Some None env ''DB_'' ''name'') (\<lambda>name.
     rbind (read_field (ft_int ft) (Some 1) env ''DB_'' ''min_pool_size'') (\<lambda>min_pool.
     rbind (read_field (ft_int ft) (Some 10) env ''DB_'' ''max_pool_size'') (\<lambda>max_pool.
     rbind (read_field (ft_float ft) (Some ''10.0'') env ''DB_'' ''connect_timeout'') (\<lambda>connect_timeout.
     rbind (read_field (ft_int ft) (Some 3) env ''DB_'' ''connect_retries'') (\<lambda>retries.
     rbind (read_field (ft_float ft) (Some ''1.0'') env ''DB_'' ''connect_retry_delay'') (\<lambda>delay.
     Inr \<lparr>dbs_host = host, dbs_port = port, dbs_user = user, dbs_password = password, dbs_name = name,
          dbs_min_pool_size = min_pool, dbs_max_pool_size = max_pool, dbs_connect_timeout = connect_timeout,
          dbs_connect_retries = retries, dbs_connect_retry_delay = delay\<rparr>))))))))))"

definition read_scheduler_settings :: "field_types \<Rightarrow> environ \<Rightarrow> scheduler_settings result" where
  "read_scheduler_settings ft env =
     rbind (read_field (ft_int ft) (Some 5) env ''SCHEDULER_'' ''webhook_jwt_ttl_minutes'') (\<lambda>ttl.
     rbind (read_field (ft_float ft) (Some ''30.0'') env ''SCHEDULER_'' ''webhook_timeout_seconds'') (\<lambda>webhook_timeout.
     rbind (read_field (\<lambda>s. Some (Some s)) (Some None) env ''SCHEDULER_'' ''scheduler_id'') (\<lambda>scheduler_id.
     Inr \<lparr>sc_webhook_jwt_ttl_minutes = ttl, sc_webhook_timeout_seconds = webhook_timeout,
          sc_scheduler_id = scheduler_id\<rparr>)))"

definition read_llm_settings :: "string \<Rightarrow> field_types \<Rightarrow> environ \<Rightarrow> llm_settings result" where
  "read_llm_settings default_prompt_path ft env =
     rbind (read_field Some (Some ''ollama/llama3.2'') env ''LLM_'' ''model'') (\<lambda>model.
     rbind (read_field Some (Some ''http://localhost:11434'') env ''LLM_'' ''api_base'') (\<lambda>api_base.
     rbind (read_field (\<lambda>s. Some (Some s)) (Some None) env ''LLM_'' ''api_key'') (\<lambda>api_key.
     rbind (read_field (ft_float ft) (Some ''30.0'') env ''LLM_'' ''timeout_seconds'') (\<lambda>llm_timeout.
     rbind (read_field (ft_int ft) (Some 2) env ''LLM_'' ''max_retries'') (\<lambda>retries.
     rbind (read_field Some (Some default_prompt_path) env ''LLM_'' ''trigger_parse_prompt_path'') (\<lambda>prompt_path.
     Inr \<lparr>llm_model = model, llm_api_base = api_base, llm_api_key = api_key,
          llm_timeout_seconds = llm_timeout, llm_max_retries = retries,
          llm_trigger_parse_prompt_path = prompt_path\<rparr>))))))"

definition read_settings :: "string \<Rightarrow> field_types \<Rightarrow> environ \<Rightarrow> settings result" where
  "read_settings default_prompt_path ft env =
     rbind (read_app_settings ft env) (\<lambda>app.
     rbind (read_auth_settings env) (\<lambda>auth.
     rbind (read_log_settings env) (\<lambda>log.
     rbind (read_database_settings ft env) (\<lambda>db.
     rbind (read_scheduler_settings ft env) (\<lambda>scheduler.
     rbind (read_llm_settings default_prompt_path ft env) (\<lambda>llm.
     Inr \<lparr>set_app = app, set_auth = auth, set_log = log, set_db = db, set_scheduler = scheduler,
          set_llm = llm\<rparr>))))))"

text \<open>\<^verbatim>\<open>@lru_cache\<close> keeps a result, and not an exception.\<close>

definition get_settings :: "string \<Rightarrow> field_types \<Rightarrow> environ \<Rightarrow> settings option \<Rightarrow> settings result \<times> settings option"
where
  "get_settings default_prompt_path ft env cache =
     (case cache of
        Some s \<Rightarrow> (Inr s, cache)
      | None \<Rightarrow>
          (case read_settings default_prompt_path ft env of
             Inl e \<Rightarrow> (Inl e, None)
           | Inr s \<Rightarrow> (Inr s, Some s)))"

section \<open>Logging\<close>

text \<open>
  The root logger has a level and handlers, of which the format of each is kept; other loggers have
  a level by their name. \<^verbatim>\<open>logging.basicConfig(level=..., format=..., force=True)\<close> takes the handlers of
  the root logger off, makes the formatter, and only then adds the new handler and sets the level.
  The formatter raises when its format, the default one for an empty text, has no conversion at all:
  nowhere \<^verbatim>\<open>%(name)\<close> with its flags, width and precision and one of the conversion characters.
\<close>

record log_state =
  lg_level :: log_level
  lg_handlers :: "string list"
  lg_loggers :: "string \<Rightarrow> log_level option"

definition format_number :: rx where
  "format_number = RAlt (rlit ''*'') (RPlus is_decimal)"

definition validation_pattern :: rx where
  "validation_pattern =
     RSeq (rlit ''%('') (RSeq (RPlus is_word) (RSeq (rlit '')'')
       (RSeq (ROpt (RPlus (\<lambda>c. c \<in> set ''#0+ -'')))
       (RSeq (ROpt (RGroup 1 format_number))
       (RSeq (ROpt (RGroup 2 (RSeq (rlit ''.'') (RGroup 3 format_number))))
         (RCls (\<lambda>c. lower_char c \<in> set ''diouxefgcrsa%'')))))))"

definition percent_format :: "string \<Rightarrow> string result" where
  "percent_format fmt =
     (let f = (if fmt = [] then ''%(message)s'' else fmt)
      in if rsearch validation_pattern f = None then
           Inl (ValueError (''Invalid format '' @ [CHR 0x27] @ f @ [CHR 0x27] @ '' for '' @ [CHR 0x27] @ ''%'' @ [CHR 0x27] @ '' style''))
         else Inr f)"

definition basic_config :: "log_level \<Rightarrow> string \<Rightarrow> log_state \<Rightarrow> unit result \<times> log_state" where
  "basic_config level fmt st =
     (case percent_format fmt of
        Inl e \<Rightarrow> (Inl e, st\<lparr>lg_handlers := []\<rparr>)
      | Inr f \<Rightarrow> (Inr (), st\<lparr>lg_handlers := [f], lg_level := level\<rparr>))"

definition setup_logging :: "log_settings \<Rightarrow> log_state \<Rightarrow> unit result \<times> log_state" where
  "setup_logging s st =
     (case basic_config (ls_level s) (ls_format s) st of
        (Inl e, st') \<Rightarrow> (Inl e, st')
      | (Inr _, st') \<Rightarrow>
          (Inr (), foldl (\<lambda>st name. st\<lparr>lg_loggers := (lg_loggers st)(name \<mapsto> ls_level s)\<rparr>) st'
             [''uvicorn'', ''uvicorn.error'', ''uvicorn.access'']))"

section \<open>The application\<close>

record application =
  wa_title :: string
  wa_debug :: bool
  wa_state_settings :: settings
  wa_middleware :: "auth_settings list"
  wa_routes :: "route list"

definition create_app :: "(string \<Rightarrow> unit result) \<Rightarrow> settings \<Rightarrow> application result" where
  "create_app check_title s =
     rbind (check_title (app_name (set_app s))) (\<lambda>_.
     Inr \<lparr>wa_title = app_name (set_app s), wa_debug = app_debug (set_app s), wa_state_settings = s,
          wa_middleware = [set_auth s],
          wa_routes = include_router [] health_router @ include_router ''/api/v1'' v1_router\<rparr>)"

definition get_app_settings :: "application \<Rightarrow> settings" where
  "get_app_settings app = wa_state_settings app"

text \<open>\<^verbatim>\<open>scripts/mint_dev_jwt.py\<close>: the lifetime is an option of the command line, 24 hours by default.\<close>

definition mint_main ::
  "string \<Rightarrow> field_types \<Rightarrow> environ \<Rightarrow> jwt_lib \<Rightarrow> datetime \<Rightarrow> string \<Rightarrow> int option \<Rightarrow> string result" where
  "mint_main default_prompt_path ft env lib now sub expires_in_hours =
     rbind (fst (get_settings default_prompt_path ft env None)) (\<lambda>s.
       mint_dev_jwt lib now (set_auth s) sub (case expires_in_hours of None \<Rightarrow> 24 | Some h \<Rightarrow> h))"

text \<open>
  Importing \<^verbatim>\<open>app.main\<close>: the settings, the logging, the listener that scopes every query of a
  session with a user, and the application. What the constructor of the framework makes of the
  title, which it may refuse, is the parameter \<open>check_title\<close>.
\<close>

record process =
  pr_settings :: "settings option"
  pr_logging :: log_state
  pr_row_scope :: bool

definition import_main ::
  "(string \<Rightarrow> unit result) \<Rightarrow> string \<Rightarrow> field_types \<Rightarrow> environ \<Rightarrow> process \<Rightarrow> application result \<times> process" where
  "import_main check_title default_prompt_path ft env pr =
     (case get_settings default_prompt_path ft env (pr_settings pr) of
        (Inl e, cache) \<Rightarrow> (Inl e, pr\<lparr>pr_settings := cache\<rparr>)
      | (Inr s, cache) \<Rightarrow>
          (case setup_logging (set_log s) (pr_logging pr) of
             (Inl e, logging) \<Rightarrow> (Inl e, pr\<lparr>pr_settings := cache, pr_logging := logging\<rparr>)
           | (Inr _, logging) \<Rightarrow>
               (create_app check_title s,
                pr\<lparr>pr_settings := cache, pr_logging := logging, pr_row_scope := True\<rparr>)))"

section \<open>Facts\<close>

text \<open>The variables without a default, and the ones that are more than a text.\<close>

definition required_variables :: "string list" where
  "required_variables = [''auth_jwt_secret'', ''db_user'', ''db_password'', ''db_name'']"

definition typed_variables :: "field_types \<Rightarrow> (string \<times> (string \<Rightarrow> bool)) list" where
  "typed_variables ft =
     (let int_ok = \<lambda>s. ft_int ft s \<noteq> None; float_ok = \<lambda>s. ft_float ft s \<noteq> None
      in [(''app_debug'', \<lambda>s. ft_bool ft s \<noteq> None), (''log_level'', \<lambda>s. log_level_member s \<noteq> None),
          (''db_port'', int_ok), (''db_min_pool_size'', int_ok), (''db_max_pool_size'', int_ok),
          (''db_connect_timeout'', float_ok), (''db_connect_retries'', int_ok), (''db_connect_retry_delay'', float_ok),
          (''scheduler_webhook_jwt_ttl_minutes'', int_ok), (''scheduler_webhook_timeout_seconds'', float_ok),
          (''llm_timeout_seconds'', float_ok), (''llm_max_retries'', int_ok)])"

lemma read_field_ok:
  "(\<exists>x. read_field parse dflt env env_prefix name = Inr x) \<longleftrightarrow>
     (case env (py_lower (env_prefix @ name)) of None \<Rightarrow> dflt \<noteq> None | Some s \<Rightarrow> parse s \<noteq> None)"
  by (auto simp: read_field_def split: option.splits)

lemma read_field_error: "read_field parse dflt env env_prefix name = Inl e \<Longrightarrow> \<exists>m. e = ValidationError m"
  by (auto simp: read_field_def split: option.splits)

lemma rbind_ok: "(\<exists>y. rbind r f = Inr y) \<longleftrightarrow> (\<exists>x. r = Inr x \<and> (\<exists>y. f x = Inr y))"
  by (auto simp: rbind_eq_Inr)

lemma variable_names [simp]:
  "py_lower ''APP_name'' = ''app_name''" "py_lower ''APP_debug'' = ''app_debug''"
  "py_lower ''AUTH_jwt_secret'' = ''auth_jwt_secret''" "py_lower ''AUTH_jwt_algorithm'' = ''auth_jwt_algorithm''"
  "py_lower ''LOG_level'' = ''log_level''" "py_lower ''LOG_format'' = ''log_format''"
  "py_lower ''DB_host'' = ''db_host''" "py_lower ''DB_port'' = ''db_port''" "py_lower ''DB_user'' = ''db_user''"
  "py_lower ''DB_password'' = ''db_password''" "py_lower ''DB_name'' = ''db_name''"
  "py_lower ''DB_min_pool_size'' = ''db_min_pool_size''" "py_lower ''DB_max_pool_size'' = ''db_max_pool_size''"
  "py_lower ''DB_connect_timeout'' = ''db_connect_timeout''" "py_lower ''DB_connect_retries'' = ''db_connect_retries''"
  "py_lower ''DB_connect_retry_delay'' = ''db_connect_retry_delay''"
  "py_lower ''SCHEDULER_webhook_jwt_ttl_minutes'' = ''scheduler_webhook_jwt_ttl_minutes''"
  "py_lower ''SCHEDULER_webhook_timeout_seconds'' = ''scheduler_webhook_timeout_seconds''"
  "py_lower ''SCHEDULER_scheduler_id'' = ''scheduler_scheduler_id''"
  "py_lower ''LLM_model'' = ''llm_model''" "py_lower ''LLM_api_base'' = ''llm_api_base''"
  "py_lower ''LLM_api_key'' = ''llm_api_key''" "py_lower ''LLM_timeout_seconds'' = ''llm_timeout_seconds''"
  "py_lower ''LLM_max_retries'' = ''llm_max_retries''"
  "py_lower ''LLM_trigger_parse_prompt_path'' = ''llm_trigger_parse_prompt_path''"
  by code_simp+

text \<open>What a variable must be: set if there is no default, and readable if it is set.\<close>

definition variable_ok :: "environ \<Rightarrow> bool \<Rightarrow> (string \<Rightarrow> bool) \<Rightarrow> string \<Rightarrow> bool" where
  "variable_ok env required ok name =
     (case env name of None \<Rightarrow> \<not> required | Some s \<Rightarrow> ok s)"

lemma read_field_variable:
  "(\<exists>x. read_field parse dflt env env_prefix name = Inr x) \<longleftrightarrow>
     variable_ok env (dflt = None) (\<lambda>s. parse s \<noteq> None) (py_lower (env_prefix @ name))"
  by (auto simp: read_field_ok variable_ok_def split: option.splits)

lemma text_variable [simp]: "variable_ok env False (\<lambda>s. True) name" "variable_ok env True (\<lambda>s. True) name \<longleftrightarrow> env name \<noteq> None"
  by (auto simp: variable_ok_def split: option.splits)

lemma sections_ok:
  "(\<exists>x. read_app_settings ft env = Inr x) \<longleftrightarrow> variable_ok env False (\<lambda>s. ft_bool ft s \<noteq> None) ''app_debug''"
  "(\<exists>x. read_auth_settings env = Inr x) \<longleftrightarrow> env ''auth_jwt_secret'' \<noteq> None"
  "(\<exists>x. read_log_settings env = Inr x) \<longleftrightarrow> variable_ok env False (\<lambda>s. log_level_member s \<noteq> None) ''log_level''"
  "(\<exists>x. read_database_settings ft env = Inr x) \<longleftrightarrow>
     env ''db_user'' \<noteq> None \<and> env ''db_password'' \<noteq> None \<and> env ''db_name'' \<noteq> None
     \<and> (\<forall>name \<in> {''db_port'', ''db_min_pool_size'', ''db_max_pool_size'', ''db_connect_retries''}.
          variable_ok env False (\<lambda>s. ft_int ft s \<noteq> None) name)
     \<and> (\<forall>name \<in> {''db_connect_timeout'', ''db_connect_retry_delay''}.
          variable_ok env False (\<lambda>s. ft_float ft s \<noteq> None) name)"
  "(\<exists>x. read_scheduler_settings ft env = Inr x) \<longleftrightarrow>
     variable_ok env False (\<lambda>s. ft_int ft s \<noteq> None) ''scheduler_webhook_jwt_ttl_minutes''
     \<and> variable_ok env False (\<lambda>s. ft_float ft s \<noteq> None) ''scheduler_webhook_timeout_seconds''"
  "(\<exists>x. read_llm_settings path ft env = Inr x) \<longleftrightarrow>
     variable_ok env False (\<lambda>s. ft_float ft s \<noteq> None) ''llm_timeout_seconds''
     \<and> variable_ok env False (\<lambda>s. ft_int ft s \<noteq> None) ''llm_max_retries''"
  by (simp_all add: read_app_settings_def read_auth_settings_def read_log_settings_def read_database_settings_def
      read_scheduler_settings_def read_llm_settings_def rbind_ok read_field_variable del: not_None_eq split_paired_Ex)
    blast+

lemma settings_ok:
  "(\<exists>s. read_settings path ft env = Inr s) \<longleftrightarrow>
     (\<forall>name \<in> set required_variables. env name \<noteq> None)
     \<and> (\<forall>(name, ok) \<in> set (typed_variables ft). \<forall>s. env name = Some s \<longrightarrow> ok s)"
proof -
  have var: "variable_ok env False ok name \<longleftrightarrow> (\<forall>s. env name = Some s \<longrightarrow> ok s)" for ok name
    by (simp add: variable_ok_def split: option.splits)
  show ?thesis
    by (simp add: read_settings_def rbind_ok sections_ok var required_variables_def typed_variables_def Let_def
        del: not_None_eq) blast
qed

lemma rbind_error:
  assumes "rbind r f = Inl e" "\<And>e. r = Inl e \<Longrightarrow> P e" "\<And>x e. f x = Inl e \<Longrightarrow> P e"
  shows "P e"
  using assms by (auto simp: rbind_eq_Inl)

lemma settings_error:
  assumes "read_settings path ft env = Inl e"
  shows "\<exists>m. e = ValidationError m"
proof -
  have app: "\<exists>m. e = ValidationError m" if "read_app_settings ft env = Inl e" for e
    using that unfolding read_app_settings_def rbind_eq_Inl by (auto dest: read_field_error)
  have auth: "\<exists>m. e = ValidationError m" if "read_auth_settings env = Inl e" for e
    using that unfolding read_auth_settings_def rbind_eq_Inl by (auto dest: read_field_error)
  have log: "\<exists>m. e = ValidationError m" if "read_log_settings env = Inl e" for e
    using that unfolding read_log_settings_def rbind_eq_Inl by (auto dest: read_field_error)
  have db: "\<exists>m. e = ValidationError m" if "read_database_settings ft env = Inl e" for e
    using that unfolding read_database_settings_def rbind_eq_Inl by (auto dest: read_field_error)
  have scheduler: "\<exists>m. e = ValidationError m" if "read_scheduler_settings ft env = Inl e" for e
    using that unfolding read_scheduler_settings_def rbind_eq_Inl by (auto dest: read_field_error)
  have llm: "\<exists>m. e = ValidationError m" if "read_llm_settings path ft env = Inl e" for e
    using that unfolding read_llm_settings_def rbind_eq_Inl by (auto dest: read_field_error)
  show ?thesis
    using assms app auth log db scheduler llm unfolding read_settings_def rbind_eq_Inl by auto
qed

text \<open>With nothing but the four required variables, every section has its defaults.\<close>

definition minimal_environ :: "string \<Rightarrow> string \<Rightarrow> string \<Rightarrow> string \<Rightarrow> environ" where
  "minimal_environ secret user password name =
     [''auth_jwt_secret'' \<mapsto> secret, ''db_user'' \<mapsto> user, ''db_password'' \<mapsto> password, ''db_name'' \<mapsto> name]"

lemma read_field_default:
  "env (py_lower (env_prefix @ name)) = None \<Longrightarrow> read_field parse (Some d) env env_prefix name = Inr d"
  by (simp add: read_field_def)

lemma read_field_text:
  "env (py_lower (env_prefix @ name)) = Some s \<Longrightarrow> read_field Some dflt env env_prefix name = Inr s"
  by (simp add: read_field_def)

lemma minimal_settings:
  "read_settings path ft (minimal_environ secret user password name)
     = Inr \<lparr>set_app = \<lparr>app_name = ''schedulerlm'', app_debug = False\<rparr>, set_auth = default_auth_settings secret,
        set_log = \<lparr>ls_level = LOG_INFO, ls_format = ''%(asctime)s %(levelname)s [%(name)s] %(message)s''\<rparr>,
        set_db = default_database_settings user password name, set_scheduler = default_scheduler_settings,
        set_llm = default_llm_settings path\<rparr>"
  by (simp add: read_settings_def read_app_settings_def read_auth_settings_def read_log_settings_def
      read_database_settings_def read_scheduler_settings_def read_llm_settings_def minimal_environ_def
      read_field_default read_field_text default_auth_settings_def default_database_settings_def
      default_scheduler_settings_def default_llm_settings_def)

text \<open>What the settings have for the two variables that are checked after they are read.\<close>

lemma read_field_is:
  "read_field Some (Some d) env env_prefix name = Inr s
     \<longleftrightarrow> s = (case env (py_lower (env_prefix @ name)) of None \<Rightarrow> d | Some v \<Rightarrow> v)"
  by (auto simp: read_field_def split: option.splits)

lemma settings_texts:
  assumes "read_settings path ft env = Inr s"
  shows "app_name (set_app s) = (case env ''app_name'' of None \<Rightarrow> ''schedulerlm'' | Some v \<Rightarrow> v)"
    and "ls_format (set_log s) = (case env ''log_format'' of
           None \<Rightarrow> ''%(asctime)s %(levelname)s [%(name)s] %(message)s'' | Some v \<Rightarrow> v)"
  using assms
  by (auto simp: read_settings_def read_app_settings_def read_log_settings_def rbind_eq_Inr read_field_is)

lemma default_formats [simp]:
  "rsearch validation_pattern ''%(message)s'' \<noteq> None"
  "rsearch validation_pattern ''%(asctime)s %(levelname)s [%(name)s] %(message)s'' \<noteq> None"
  by code_simp+

lemma percent_format_ok:
  "(\<exists>f. percent_format fmt = Inr f) \<longleftrightarrow> fmt = [] \<or> rsearch validation_pattern fmt \<noteq> None"
  "percent_format fmt = Inl e \<Longrightarrow> \<exists>m. e = ValueError m"
  by (auto simp: percent_format_def Let_def simp del: not_None_eq split: if_splits)

text \<open>The rest of the import, once the settings are there.\<close>

lemma import_main_new:
  assumes "pr_settings pr = None"
  shows "import_main check_title path ft env pr =
    (case read_settings path ft env of
       Inl e \<Rightarrow> (Inl e, pr)
     | Inr s \<Rightarrow> import_main check_title path ft env (pr\<lparr>pr_settings := Some s\<rparr>))"
  using assms by (cases pr) (simp add: import_main_def get_settings_def split: sum.splits prod.splits)

lemma import_main_cached:
  assumes "pr_settings pr = Some s"
  shows "import_main check_title path ft env pr =
    (case percent_format (ls_format (set_log s)) of
       Inl e \<Rightarrow> (Inl e, pr\<lparr>pr_logging := (pr_logging pr)\<lparr>lg_handlers := []\<rparr>\<rparr>)
     | Inr f \<Rightarrow> (create_app check_title s,
         pr\<lparr>pr_logging := snd (setup_logging (set_log s) (pr_logging pr)), pr_row_scope := True\<rparr>))"
  using assms
  by (cases pr) (auto simp: import_main_def get_settings_def setup_logging_def basic_config_def split: sum.splits)

text \<open>Once there are settings, what an import makes of them does not depend on the environment.\<close>

lemma import_main_again:
  assumes "pr_settings pr = Some s" "import_main check_title path ft env pr = (r, pr')"
  shows "pr_settings pr' = Some s" "fst (import_main check_title path' ft' env' pr') = r"
proof -
  show s: "pr_settings pr' = Some s"
    using assms by (auto simp: import_main_cached split: sum.splits)
  show "fst (import_main check_title path' ft' env' pr') = r"
    using assms(2) unfolding import_main_cached [OF assms(1)] import_main_cached [OF s]
    by (auto split: sum.splits)
qed

lemma create_app_routes:
  "create_app check_title s = Inr app \<Longrightarrow> wa_routes app = app_routes"
  "create_app check_title s = Inr app \<Longrightarrow> wa_middleware app = [set_auth (wa_state_settings app)]"
  "create_app check_title s = Inl e \<longleftrightarrow> check_title (app_name (set_app s)) = Inl e"
  "(\<exists>app. create_app check_title s = Inr app) \<longleftrightarrow> check_title (app_name (set_app s)) = Inr ()"
  by (auto simp: create_app_def rbind_eq_Inr rbind_eq_Inl app_routes_def)

lemma with_env_file_set:
  "env = with_env_file process_env env_file \<Longrightarrow> env name \<noteq> None \<longleftrightarrow> process_env name \<noteq> None \<or> env_file name \<noteq> None"
  by (simp add: with_env_file_def split: option.splits)

section \<open>Properties\<close>

text \<open>
  (C36) The start of a process, when no variable gives a whole section as JSON. Importing the application succeeds exactly when the secret of the
  tokens and the user, the password and the name of the database are set, by the environment or by
  the file, every variable that is a number, a truth value or a level can be read, the format of
  the log, if it is set and not empty, has a conversion, and the framework takes the title. If a
  variable is missing or cannot be read, it raises a validation error and leaves the process as it
  was. If the format has no conversion, it raises a \<^verbatim>\<open>ValueError\<close> after the settings are kept and the
  handlers of the root logger are gone; if the title is refused, what the framework raises. What was
  read once is kept: whatever the environment is later, an import ends in the same way.
\<close>

theorem import_needs_settings:
  assumes "pr_settings pr = None" "env = with_env_file process_env env_file"
  shows "((\<exists>app pr'. import_main check_title path ft env pr = (Inr app, pr')) \<longleftrightarrow>
      (\<forall>name \<in> set required_variables. process_env name \<noteq> None \<or> env_file name \<noteq> None)
      \<and> (\<forall>(name, ok) \<in> set (typed_variables ft). \<forall>s. env name = Some s \<longrightarrow> ok s)
      \<and> (\<forall>fmt. env ''log_format'' = Some fmt \<longrightarrow> fmt = [] \<or> rsearch validation_pattern fmt \<noteq> None)
      \<and> check_title (case env ''app_name'' of None \<Rightarrow> ''schedulerlm'' | Some name \<Rightarrow> name) = Inr ())
    \<and> (\<forall>e pr'. import_main check_title path ft env pr = (Inl e, pr') \<longrightarrow>
         (case read_settings path ft env of
            Inl _ \<Rightarrow> (\<exists>m. e = ValidationError m) \<and> pr' = pr
          | Inr s \<Rightarrow>
              ((\<exists>m. e = ValueError m) \<and> percent_format (ls_format (set_log s)) = Inl e
                 \<and> pr' = pr\<lparr>pr_settings := Some s, pr_logging := (pr_logging pr)\<lparr>lg_handlers := []\<rparr>\<rparr>
               \<or> check_title (app_name (set_app s)) = Inl e)
              \<and> (\<forall>path' ft' env'. fst (import_main check_title path' ft' env' pr') = Inl e)))
    \<and> (\<forall>app pr'. import_main check_title path ft env pr = (Inr app, pr') \<longrightarrow>
         pr_row_scope pr' \<and> wa_routes app = app_routes \<and> wa_middleware app = [set_auth (wa_state_settings app)]
         \<and> (\<forall>path' ft' env'. fst (import_main check_title path' ft' env' pr') = Inr app))"
  (is "?success \<and> ?error \<and> ?kept")
proof (cases "read_settings path ft env")
  case (Inl e)
  then have r: "import_main check_title path ft env pr = (Inl e, pr)" using import_main_new [OF assms(1)] by simp
  have "\<not> (\<forall>name \<in> set required_variables. env name \<noteq> None)
      \<or> \<not> (\<forall>(name, ok) \<in> set (typed_variables ft). \<forall>s. env name = Some s \<longrightarrow> ok s)"
    using settings_ok [of path ft env] Inl by auto
  then have ?success unfolding r with_env_file_set [OF assms(2), symmetric] by blast
  then show ?thesis using r Inl settings_error [OF Inl] by simp
next
  case (Inr s)
  let ?pr = "pr\<lparr>pr_settings := Some s\<rparr>"
  have cached: "pr_settings ?pr = Some s" by simp
  have r: "import_main check_title path ft env pr = import_main check_title path ft env ?pr"
    using import_main_new [OF assms(1)] Inr by simp
  note again = import_main_again(2) [OF cached]
  have read: "(\<forall>name \<in> set required_variables. env name \<noteq> None)
      \<and> (\<forall>(name, ok) \<in> set (typed_variables ft). \<forall>s. env name = Some s \<longrightarrow> ok s)"
    using settings_ok [of path ft env] Inr by auto
  have "(\<exists>f. percent_format (ls_format (set_log s)) = Inr f)
      \<longleftrightarrow> (\<forall>fmt. env ''log_format'' = Some fmt \<longrightarrow> fmt = [] \<or> rsearch validation_pattern fmt \<noteq> None)"
    unfolding percent_format_ok settings_texts(2) [OF Inr] by (simp del: not_None_eq split: option.splits)
  then have ?success
    unfolding r import_main_cached [OF cached]
    using read with_env_file_set [OF assms(2)] settings_texts(1) [OF Inr] create_app_routes(4) [of check_title s]
    by (auto split: sum.splits)
  moreover have ?error
    unfolding Inr using again [folded r] percent_format_ok(2) create_app_routes(3) [of check_title s]
    by (auto simp: r import_main_cached [OF cached] split: sum.splits)
  moreover have ?kept
    using again [folded r] create_app_routes(1,2) [of check_title s]
    by (auto simp: r import_main_cached [OF cached] split: sum.splits)
  ultimately show ?thesis by blast
qed

section \<open>A witness\<close>

definition demo_fields :: field_types where
  "demo_fields = \<lparr>ft_int = (\<lambda>s. None), ft_float = Some, ft_bool = (\<lambda>s. None)\<rparr>"

definition new_process :: process where
  "new_process =
     \<lparr>pr_settings = None, pr_logging = \<lparr>lg_level = LOG_WARNING, lg_handlers = [], lg_loggers = Map.empty\<rparr>,
      pr_row_scope = False\<rparr>"

text \<open>A framework that wants a title.\<close>

definition demo_title :: "string \<Rightarrow> unit result" where
  "demo_title title = (if title = [] then Inl (AssertionError ''A title must be provided'') else Inr ())"

text \<open>With the four variables the import succeeds; with a format without a conversion as well, it does not.\<close>

lemma import_needs_settings_witness:
  "(\<exists>app pr'. import_main demo_title ''p'' demo_fields
       (with_env_file (minimal_environ ''s'' ''u'' ''w'' ''d'') Map.empty) new_process = (Inr app, pr'))
   \<and> (\<nexists>app pr'. import_main demo_title ''p'' demo_fields
       (with_env_file (minimal_environ ''s'' ''u'' ''w'' ''d'') [''log_format'' \<mapsto> ''hello'']) new_process = (Inr app, pr'))"
proof -
  have none: "pr_settings new_process = None" by (simp add: new_process_def)
  have hello: "rsearch validation_pattern ''hello'' = None" by code_simp
  note import_needs = import_needs_settings [OF none refl, of demo_title "''p''" demo_fields "minimal_environ ''s'' ''u'' ''w'' ''d''"]
  have "(\<exists>app pr'. import_main demo_title ''p'' demo_fields
       (with_env_file (minimal_environ ''s'' ''u'' ''w'' ''d'') Map.empty) new_process = (Inr app, pr'))"
    unfolding import_needs [of Map.empty, THEN conjunct1]
    by (simp add: required_variables_def typed_variables_def Let_def minimal_environ_def with_env_file_def demo_title_def)
  moreover have "\<not> (\<exists>app pr'. import_main demo_title ''p'' demo_fields
       (with_env_file (minimal_environ ''s'' ''u'' ''w'' ''d'') [''log_format'' \<mapsto> ''hello'']) new_process = (Inr app, pr'))"
    unfolding import_needs [of "[''log_format'' \<mapsto> ''hello'']", THEN conjunct1]
    by (simp add: minimal_environ_def with_env_file_def hello)
  ultimately show ?thesis by blast
qed

end
