(* ===== verification/Spec2Isabelle.thy ===== *)
theory Spec2Isabelle
  imports Task_Life Engine Configuration
begin

text \<open>
  A verification development for the scheduler service in this repository: a FastAPI application
  that stores scheduled tasks of its users in PostgreSQL, lets APScheduler fire them, calls the
  task's webhook at fire time, and keeps an append-only history.

  The parts of the program and the theories that model them, from the bottom up.

  \<^item> \<open>Prelude\<close>: the Python exceptions, results as \<open>exn + 'a\<close>, the retry loop of tenacity, and the
    interfaces that components share: \<open>step_relation\<close> (a relation that every successful step
    keeps, lifted to sequences of steps), \<open>unwinding\<close> (what a party observes of a run of events
    does not depend on the events of the others), \<open>paged_query\<close> (an ordered query with limit and offset)
    and \<open>codec\<close> (a printer and a parser of the same values).
  \<^item> \<open>Py_Datetime\<close>, \<open>Py_Isoformat\<close>, \<open>Py_Regex\<close>, \<open>Py_Text\<close>, \<open>Py_Json\<close>: what the program uses of the
    standard library. Every regular expression of the program runs on the matcher of \<open>Py_Regex\<close>,
    which is proved to decide the declarative semantics of patterns.
  \<^item> \<open>Schemas\<close> and \<open>Models\<close>: \<^verbatim>\<open>app/enums.py\<close>, \<^verbatim>\<open>app/schemas/\<close> and the rows of \<^verbatim>\<open>app/db/models/\<close>.
  \<^item> \<open>Relative_Schedule\<close>: \<^verbatim>\<open>app/parsing/relative_schedule.py\<close>, one-time phrases in English.
  \<^item> \<open>Triggers\<close>: \<^verbatim>\<open>app/scheduler/triggers.py\<close>, from specifications to triggers and stored
    dictionaries and back, and the preview of fire times.
  \<^item> \<open>Prompt_Loader\<close> and \<open>Trigger_Parse\<close>: \<^verbatim>\<open>app/prompts/loader.py\<close>, \<^verbatim>\<open>app/services/trigger_parse.py\<close>,
    \<^verbatim>\<open>app/schemas/trigger_parse.py\<close> and \<^verbatim>\<open>app/validation/cron.py\<close>, schedules by a language model.
  \<^item> \<open>Store\<close>: the tables with the constraint, the policies and the trigger of the migrations, the
    session settings of \<^verbatim>\<open>app/db/rls.py\<close>, the row scope of \<^verbatim>\<open>app/db/scope.py\<close>.
  \<^item> \<open>Task_History\<close>: \<^verbatim>\<open>app/services/task_history.py\<close> and \<^verbatim>\<open>app/schemas/history.py\<close>.
  \<^item> \<open>Auth\<close>: \<^verbatim>\<open>app/auth/\<close> and \<^verbatim>\<open>scripts/mint_dev_jwt.py\<close>.
  \<^item> \<open>Executor\<close>: \<^verbatim>\<open>app/scheduler/executor.py\<close> and \<^verbatim>\<open>app/scheduler/service.py\<close>.
  \<^item> \<open>Sql_Order\<close>, \<open>Task_Routes\<close>, \<open>Api_Routes\<close>: the handlers of \<^verbatim>\<open>app/routes/\<close>, and \<open>handle_request\<close>,
    the life of a request: authentication, the session of \<^verbatim>\<open>get_db\<close>, the handler, and the commit
    and the background tasks in either order (\<open>ap_background_first\<close>: releases of the framework
    differ in it; those that \<^verbatim>\<open>pyproject.toml\<close> asks for run the background tasks first).
  \<^item> \<open>Task_Effects\<close>, \<open>Listings\<close>, \<open>Requests\<close>: what the handlers do to the database, what a page
    holds, and what whole requests do to the rows, schedules and webhooks of all users.
  \<^item> \<open>Confidentiality\<close>: databases and states that are alike for a user. A request of the user does
    the same on both, and a request of somebody else leaves a state that is alike.
  \<^item> \<open>Api_Spec\<close>: the abstract specification of the API, a map from the ids of tasks to their owner and
    activity, and the refinement.
  \<^item> \<open>App_System\<close>: the service as a transition system in which requests of any users and scheduled
    runs interleave, with its invariant. A request is one step.
  \<^item> \<open>Interleaving\<close>, \<open>Interleaved_Invariant\<close> and \<open>Interleaving_Races\<close>: the service in finer steps. The
    handler of a request, its commit and each of its background tasks are steps of their own
    (\<open>request_actions\<close>, \<open>service_step\<close>), and so are the fire times of a schedule and the beginning and
    the end of its jobs; a request that nothing interrupts is the one step of \<open>App_System\<close>.
  \<^item> \<open>Events\<close>, \<open>Interleaved_Confidentiality\<close> and \<open>Task_Life\<close>: the steps of the interleaved service as
    events that name what they are about (\<open>event_step\<close>, each a \<open>service_step\<close> or nothing), what they
    show to the outside (\<open>event_shows\<close>, and the webhooks of a run of events, \<open>webhooks_sent\<close>), what a user
    sees of them, and the life of a one-time task through all components. The argument that the
    events of the others can be left out is the locale \<open>unwinding\<close> of \<open>Prelude\<close>, interpreted on the
    requests and on the events.
  \<^item> \<open>Http_Routing\<close>: the tables of routes of the decorators, the routers of \<^verbatim>\<open>app/routes/v1.py\<close> and
    \<^verbatim>\<open>app/main.py\<close>, and \<open>serve\<close>, the way of a message through the middleware, the table and the
    dependencies of its route to \<open>handle_request\<close>.
  \<^item> \<open>Migrations\<close>, \<open>Migration_Runs\<close> and \<open>Engine\<close>: \<^verbatim>\<open>alembic/versions/\<close>, \<^verbatim>\<open>alembic/env.py\<close>,
    \<^verbatim>\<open>app/db/migrations.py\<close>, \<^verbatim>\<open>app/db/engine.py\<close> and the \<^verbatim>\<open>lifespan\<close> of \<^verbatim>\<open>app/main.py\<close>.
  \<^item> \<open>Configuration\<close>: \<^verbatim>\<open>app/config/settings.py\<close> as it is read from the environment, \<^verbatim>\<open>app/logging.py\<close>,
    \<^verbatim>\<open>create_app\<close>, and what importing \<^verbatim>\<open>app/main.py\<close> does.
\<close>

text \<open>
  How the parts interact. A request is authenticated by \<open>authenticate\<close>, which gives the user of the
  session; \<open>run_handler\<close> runs the handler on the database as the session sees it; the handler's
  writes (\<open>db_write\<close>) wait for the commit, all of them or none, and its background tasks ask the
  scheduling library to add or remove a schedule (\<open>sched_call\<close>). The library's schedules are a map
  from ids to a trigger and arguments. When a schedule fires, \<open>execution_begin\<close> loads the task and
  sends the webhook, and \<open>execution_finish\<close> writes on the database as it is by then.

  What the properties show.

  \<^item> The system: in every state that any interleaving of parts of requests, fire times and jobs
    reaches, the database is well formed, the history only grows, a step of a request leaves what
    belongs to others alone, and a webhook is sent only for an active task. When requests are
    single steps, in either order of commit and background tasks, every schedule belongs to an
    active task as long as no commit is refused after the background tasks of its request have
    run (\<open>commit_lost\<close>). A created task fires; a one-time task ends inactive, recorded, and without a
    schedule. No request changes what belongs to another user, and nothing that a user sees
    depends on what others do, however requests, schedules and jobs overlap. Every request refines the
    abstract specification, and a task of somebody else is answered like one that does not exist.
  \<^item> The surface: no handler of the API runs for a message without a valid token, whatever path the
    middleware sees; every route is reached by its address, and does there what its request does.
  \<^item> The operations: what creation, activation, deactivation, deletion, a manual and a scheduled run
    do on every branch, errors included; what the pages of the two listings show and in which order; which requests are authenticated.
  \<^item> The data: stored schedules and recorded history rows are read back with the same meaning, the
    preview of fire times ends and is exact, phrases and answers of the model give the schedules
    that they describe, calls and attempts are bounded.
  \<^item> The database: downgrades undo upgrades, up to a function that was there before under the name of
    the trigger function; upgrades build the tables, columns and indexes that the mapped classes declare
    and two indexes more; their policies are those of \<open>Store\<close>; and a run of them succeeds exactly when
    it leaves the database at the head.
  \<^item> The process: what the application needs in order to start, and what it leaves when it does not.
  \<^item> What goes wrong: several theorems state, most with a concrete witness, behaviour that the
    program does not mean to have (a one-time run that is lost because its schedule is used up
    before its task is committed, a schedule that is left without its task when an activation and a
    deletion overlap, a duration that overflows, an interval that the history cannot
    hold, an answer that is no JSON object, pages of rows with equal keys, a scheduled run under
    enforced row security, a webhook token that opens the whole API).

  Parameters. Code outside the repository is an argument of the definitions that use it: time zones,
  APScheduler's triggers, the language model, croniter, PyJWT, the HTTP client, the file system,
  the PostgreSQL driver, alembic's commands, the routing and decoding of the web
  framework and its check of the title. What a property needs of them is a hypothesis that states
  their documented behaviour, such as \<open>aps_advances\<close> for triggers, whose fire times increase, and
  \<open>jwt_ok\<close> for tokens, which decode until the second in which they expire; each such
  property has a witness with a concrete instance.

  Bounds and fuel. Python's integers are \<open>int\<close>; \<open>datetime\<close> and \<open>timedelta\<close> raise \<open>OverflowError\<close> outside
  their ranges; columns of type \<^verbatim>\<open>INTEGER\<close> are checked by \<open>int4_ok\<close>. The JSON parser runs on fuel,
  twice the length of the text, which \<open>json_fuel_enough\<close> shows to be enough. The preview of fire
  times gives \<open>None\<close> when it does not end, and is proved to end. The retry loops recurse on the
  number of attempts.

  Not modelled: the texts of the API's description, a section of the settings given as JSON in one
  variable, and the lexical validation of URLs and request bodies by pydantic, which are calls of
  libraries without logic of the program's own. Texts are sequences of 8-bit characters: the escapes
  of JSON that denote others are left to a parameter. PostgreSQL runs one transaction after the
  other in the model, and a handler reads the database at one moment: steps interleave between the
  reading of a request, its commit and its background tasks, and between the two halves of a run.
  Steps carry no clock: a schedule may fire at any time after it was added. A schema keeps functions
  and checks by their names, and the table in which alembic keeps its revision is not part of it.
\<close>

end
